(* ===== verification/Prelude.thy ===== *)
theory Prelude
  imports Complex_Main "HOL-Library.Multiset" "HOL-Library.Code_Target_Nat"
begin

text \<open>
  Shared vocabulary of the development: how a Go function that can fail or panic is read
  (\<open>res\<close>), how a 64-bit signed integer wraps (\<open>wrap64\<close>), how a Go map and the unspecified
  order in which \<open>range\<close> visits it are read (\<open>gomap\<close>, \<open>iter_order\<close>), and the lemma
  collections the component theories add to.
\<close>

named_theorems res_simps \<open>rewriting of results and error propagation\<close>
named_theorems int64_simps \<open>in-range 64-bit arithmetic\<close>

section \<open>Results: values, returned errors, panics\<close>

text \<open>
  A Go function returning \<open>(v, err)\<close> yields \<open>Inr v\<close> when \<open>err == nil\<close> and \<open>Inl (Err msg)\<close>
  with the message of the error otherwise. A run-time panic (nil dereference, index out
  of range) is \<open>Inl (Panic what)\<close>: it propagates like an error, but no caller can test for it.
\<close>

datatype error = Err string | Panic string

type_synonym 'a res = "error + 'a"

definition and_then :: "'a res \<Rightarrow> ('a \<Rightarrow> 'b res) \<Rightarrow> 'b res" where
  "and_then m k = (case m of Inl e \<Rightarrow> Inl e | Inr v \<Rightarrow> k v)"

lemma and_then_simps [simp, res_simps]:
  "and_then (Inl e) k = Inl e"
  "and_then (Inr v) k = k v"
  by (simp_all add: and_then_def)

lemma and_then_eq_Inr [res_simps]:
  "and_then m k = Inr w \<longleftrightarrow> (\<exists>v. m = Inr v \<and> k v = Inr w)"
  by (cases m) auto

lemma and_then_eq_Inl [res_simps]:
  "and_then m k = Inl e \<longleftrightarrow> m = Inl e \<or> (\<exists>v. m = Inr v \<and> k v = Inl e)"
  by (cases m) auto

lemma and_then_assoc: "and_then (and_then m k) l = and_then m (\<lambda>v. and_then (k v) l)"
  by (cases m) auto

text \<open>An error that is wrapped behind a text, as \<open>fmt.Errorf\<close> does; a panic passes.\<close>

definition explain :: "string \<Rightarrow> 'a res \<Rightarrow> 'a res" where
  "explain what m = (case m of Inl (Err e) \<Rightarrow> Inl (Err (what @ e)) | _ \<Rightarrow> m)"

lemma explain_Inr [simp, res_simps]: "explain what m = Inr v \<longleftrightarrow> m = Inr v"
  by (auto simp: explain_def split: sum.split error.split)

lemma explain_ok [simp]: "explain what (Inr v) = Inr v"
  by (simp add: explain_def)

text \<open>A slice index \<open>xs[i]\<close>: out of range it panics.\<close>

definition index :: "'a list \<Rightarrow> nat \<Rightarrow> 'a res" where
  "index xs i = (if i < length xs then Inr (xs ! i) else Inl (Panic ''index out of range''))"

lemma index_Cons0 [simp]: "index (x # xs) 0 = Inr x"
  by (simp add: index_def)

lemma index_Nil [simp]: "index [] i = Inl (Panic ''index out of range'')"
  by (simp add: index_def)

text \<open>Reading through a pointer that may be nil.\<close>

definition deref :: "'a option \<Rightarrow> 'a res" where
  "deref p = (case p of None \<Rightarrow> Inl (Panic ''nil pointer dereference'') | Some v \<Rightarrow> Inr v)"

lemma deref_simps [simp]:
  "deref None = Inl (Panic ''nil pointer dereference'')"
  "deref (Some v) = Inr v"
  by (simp_all add: deref_def)

text \<open>A loop over a slice whose body can fail: it stops at the first failure.\<close>

fun each :: "('a \<Rightarrow> 's \<Rightarrow> 's res) \<Rightarrow> 'a list \<Rightarrow> 's \<Rightarrow> 's res" where
  "each f [] s = Inr s"
| "each f (x # xs) s = and_then (f x s) (each f xs)"

lemma each_append: "each f (xs @ ys) s = and_then (each f xs s) (each f ys)"
proof (induction xs arbitrary: s)
  case (Cons x xs)
  show ?case by (simp add: and_then_assoc Cons.IH [abs_def])
qed simp

lemma each_invariant:
  assumes "each f xs s = Inr t" and "P s"
    and "\<And>x u v. x \<in> set xs \<Longrightarrow> P u \<Longrightarrow> f x u = Inr v \<Longrightarrow> P v"
  shows "P t"
  using assms
proof (induction xs arbitrary: s)
  case (Cons x xs)
  then obtain u where u: "f x s = Inr u" "each f xs u = Inr t"
    by (auto simp: and_then_eq_Inr)
  show ?case
  proof (rule Cons.IH [OF u(2)])
    show "P u" using Cons.prems u(1) by auto
    show "P v" if "y \<in> set xs" "P w" "f y w = Inr v" for y w v
      using Cons.prems(3) that by auto
  qed
qed simp

lemma each_total: "(\<And>x s. x \<in> set xs \<Longrightarrow> f x s = Inr (g x s)) \<Longrightarrow> each f xs s = Inr (fold g xs s)"
  by (induction xs arbitrary: s) auto

section \<open>64-bit signed integers\<close>

text \<open>
  Go's \<open>int64\<close> (and \<open>int\<close> on the 64-bit platforms the image is built for, and
  \<open>time.Duration\<close>) is an \<open>int\<close> kept in \<open>[-2^63, 2^63)\<close>: every arithmetic result passes
  through \<open>wrap64\<close>.
\<close>

definition wrap64 :: "int \<Rightarrow> int" where
  "wrap64 x = (x + 2 ^ 63) mod 2 ^ 64 - 2 ^ 63"

definition in64 :: "int \<Rightarrow> bool" where
  "in64 x \<longleftrightarrow> - (2 ^ 63) \<le> x \<and> x < 2 ^ 63"

abbreviation maxInt64 :: int where
  "maxInt64 \<equiv> 9223372036854775807"

abbreviation minInt64 :: int where
  "minInt64 \<equiv> - 9223372036854775808"

lemma wrap64_in64 [simp]: "in64 (wrap64 x)"
  by (auto simp: wrap64_def in64_def)

lemma wrap64_id [simp, int64_simps]: "in64 x \<Longrightarrow> wrap64 x = x"
  by (simp add: wrap64_def in64_def)

lemma wrap64_eq_iff: "wrap64 x = x \<longleftrightarrow> in64 x"
  using wrap64_in64 wrap64_id by metis

lemma in64_bounds: "0 \<le> x \<Longrightarrow> x \<le> maxInt64 \<Longrightarrow> in64 x"
  by (simp add: in64_def)

text \<open>
  Two non-negative addends overflow exactly when their wrapped sum is negative, the test
  the code uses after every accumulation.
\<close>

lemma wrap64_add_neg_iff:
  assumes "0 \<le> a" "in64 a" "0 \<le> b" "in64 b"
  shows "wrap64 (a + b) < 0 \<longleftrightarrow> maxInt64 < a + b"
proof (cases "a + b < 2 ^ 63")
  case True
  with assms have "wrap64 (a + b) = a + b" by (simp add: in64_def)
  with assms True show ?thesis by simp
next
  case False
  let ?z = "a + b + 2 ^ 63"
  have "?z mod 2 ^ 64 = (?z - 2 ^ 64) mod 2 ^ 64"
    by (rule minus_mod_self2 [symmetric])
  also have "\<dots> = ?z - 2 ^ 64"
    using assms False by (intro mod_pos_pos_trivial) (simp_all add: in64_def)
  finally show ?thesis
    using assms False by (simp add: wrap64_def in64_def)
qed

text \<open>Go's integer division truncates towards zero, and \<open>%\<close> takes the sign of the dividend.\<close>

definition quo :: "int \<Rightarrow> int \<Rightarrow> int" where
  "quo a b = sgn a * sgn b * (\<bar>a\<bar> div \<bar>b\<bar>)"

definition rmd :: "int \<Rightarrow> int \<Rightarrow> int" where
  "rmd a b = a - b * quo a b"

lemma quo_nonneg [simp]: "0 \<le> a \<Longrightarrow> 0 < b \<Longrightarrow> quo a b = a div b"
  by (cases "a = 0") (simp_all add: quo_def)

lemma rmd_nonneg [simp]: "0 \<le> a \<Longrightarrow> 0 < b \<Longrightarrow> rmd a b = a mod b"
  by (simp add: rmd_def minus_mult_div_eq_mod)

section \<open>Maps and iteration order\<close>

text \<open>
  A Go map is a partial function with a finite domain. \<open>for k := range m\<close> visits every key
  once, in an order the language leaves open: a loop over a map takes the order of the run
  as an argument \<open>ks\<close>, about which only \<open>iter_order ks m\<close> is known.
\<close>

type_synonym ('k, 'v) gomap = "'k \<rightharpoonup> 'v"

definition iter_order :: "'k list \<Rightarrow> ('k, 'v) gomap \<Rightarrow> bool" where
  "iter_order ks m \<longleftrightarrow> distinct ks \<and> set ks = dom m"

lemma iter_order_mset:
  assumes "iter_order ks m" "iter_order ls m"
  shows "mset ks = mset ls"
  using assms by (auto simp: iter_order_def set_eq_iff_mset_eq_distinct [symmetric])

lemma iter_order_finite: "iter_order ks m \<Longrightarrow> finite (dom m)"
  by (metis iter_order_def finite_set)

lemma iter_order_exists:
  assumes "finite (dom m)"
  shows "\<exists>ks. iter_order ks m"
  using finite_distinct_list [OF assms] by (auto simp: iter_order_def)

lemma iter_order_in: "iter_order ks m \<Longrightarrow> k \<in> set ks \<longleftrightarrow> m k \<noteq> None"
  by (auto simp: iter_order_def)

text \<open>
  A loop body whose steps commute gives the same state whatever the order: the contract a
  map iteration needs to be deterministic.
\<close>

locale commuting_body =
  fixes body :: "'k \<Rightarrow> 's \<Rightarrow> 's"
  assumes commute: "k \<noteq> l \<Longrightarrow> body k (body l s) = body l (body k s)"
begin

lemma order_irrelevant:
  assumes "mset ks = mset ls"
  shows "fold body ks s = fold body ls s"
proof (rule fold_permuted_eq [where P = "\<lambda>_. True"])
  show "mset ks = mset ls" by (rule assms)
  show "body y (body x z) = body x (body y z)" for x y z
    by (cases "x = y") (simp_all add: commute)
qed simp_all

lemma iteration_deterministic:
  "iter_order ks m \<Longrightarrow> iter_order ls m \<Longrightarrow> fold body ks s = fold body ls s"
  by (rule order_irrelevant) (rule iter_order_mset)

end

end
