(* ===== verification/Float64.thy ===== *)
theory Float64
  imports Prelude "HOL-Library.Log_Nat"
begin

text \<open>
  Go's \<open>float64\<close>: IEEE 754 binary64 with rounding to nearest, ties to even. A value is a
  NaN, an infinity, negative zero, or a rational (\<open>Fin 0\<close> is positive zero). Every operation
  computes the exact rational result and rounds it once (\<open>round64\<close>), so the rounding errors
  of the cost arithmetic are part of the model. The lemmas give what the components need:
  rounding is exact on representable values, monotone, closed (no operation leaves the
  format), and has relative error at most \<open>2^-53\<close> for sums.
\<close>

datatype f64 = NaN | PosInf | NegInf | NegZero | Fin rat

definition pow2 :: "int \<Rightarrow> rat" where
  "pow2 e = 2 powi e"

lemma pow2_pos [simp]: "0 < pow2 e"
  by (simp add: pow2_def)

lemma pow2_nonneg [simp]: "0 \<le> pow2 e"
  using pow2_pos [of e] by linarith

lemma pow2_not_le_0 [simp]: "\<not> pow2 e \<le> 0"
  by (simp add: not_le)

lemma pow2_nz [simp]: "pow2 e \<noteq> 0"
  using pow2_pos [of e] by linarith

lemma pow2_add: "pow2 (a + b) = pow2 a * pow2 b"
  by (simp add: pow2_def power_int_add)

lemma pow2_diff: "pow2 (a - b) = pow2 a / pow2 b"
  by (simp add: pow2_def power_int_diff)

lemma pow2_Suc: "pow2 (a + 1) = 2 * pow2 a"
  by (simp add: pow2_add) (simp add: pow2_def)

lemma pow2_nat: "0 \<le> e \<Longrightarrow> pow2 e = of_int (2 ^ nat e)"
  by (simp add: pow2_def power_int_def)

lemma pow2_le_iff [simp]: "pow2 a \<le> pow2 b \<longleftrightarrow> a \<le> b"
  unfolding pow2_def
  by (metis (no_types) linorder_not_le one_less_numeral_iff order_less_imp_le
      power_int_increasing power_int_strict_increasing semiring_norm(76) order_less_le_trans
      one_le_numeral)

lemma pow2_less_iff [simp]: "pow2 a < pow2 b \<longleftrightarrow> a < b"
  using pow2_le_iff [of b a] by linarith

lemma pow2_code [code]:
  "pow2 e = (if 0 \<le> e then of_int (2 ^ nat e) else inverse (of_int (2 ^ nat (- e))))"
  by (simp add: pow2_def power_int_def power_one_over inverse_eq_divide)

text \<open>A power of two that divides another one: the quotient is an integer.\<close>

lemma pow2_quotient_int: "v \<le> e \<Longrightarrow> pow2 e / pow2 v = of_int (2 ^ nat (e - v))"
  by (simp add: pow2_diff [symmetric] pow2_nat)

section \<open>Exponent and rounding of a magnitude\<close>

definition ilog2 :: "rat \<Rightarrow> int" where
  "ilog2 a = (if 1 \<le> a then bitlen \<lfloor>a\<rfloor> - 1 else - bitlen (\<lceil>1 / a\<rceil> - 1))"

lemma bitlen_pow2_bounds:
  assumes "0 < n"
  shows "pow2 (bitlen n - 1) \<le> of_int n" "of_int (n + 1) \<le> pow2 (bitlen n)" "0 < bitlen n"
proof -
  have pos: "0 < bitlen n"
    using assms bitlen_nonneg [of n] bitlen_eq_zero_iff [of n] by linarith
  have b: "2 ^ nat (bitlen n - 1) \<le> n" "n < 2 ^ nat (bitlen n)"
    using bitlen_bounds [OF assms] by auto
  from b(1) have "of_int (2 ^ nat (bitlen n - 1)) \<le> (of_int n :: rat)"
    by (simp only: of_int_le_iff)
  with pos show "pow2 (bitlen n - 1) \<le> of_int n" by (simp add: pow2_nat)
  from b(2) have "n + 1 \<le> 2 ^ nat (bitlen n)" by simp
  then have "of_int (n + 1) \<le> (of_int (2 ^ nat (bitlen n)) :: rat)"
    by (simp only: of_int_le_iff)
  with pos show "of_int (n + 1) \<le> pow2 (bitlen n)" by (simp add: pow2_nat)
  show "0 < bitlen n" by (rule pos)
qed

lemma ilog2_bounds:
  assumes "0 < a"
  shows "pow2 (ilog2 a) \<le> a" "a < pow2 (ilog2 a + 1)"
proof -
  have "pow2 (ilog2 a) \<le> a \<and> a < pow2 (ilog2 a + 1)"
  proof (cases "1 \<le> a")
    case True
    then have n: "0 < \<lfloor>a\<rfloor>" by (simp add: zero_less_floor)
    have "of_int \<lfloor>a\<rfloor> \<le> a" "a < of_int (\<lfloor>a\<rfloor> + 1)" by linarith+
    with bitlen_pow2_bounds [OF n] have "pow2 (bitlen \<lfloor>a\<rfloor> - 1) \<le> a" "a < pow2 (bitlen \<lfloor>a\<rfloor>)"
      by linarith+
    with True show ?thesis by (simp add: ilog2_def)
  next
    case False
    let ?c = "\<lceil>1 / a\<rceil>"
    from False assms have "1 < 1 / a" by simp
    then have c: "0 < ?c - 1" by linarith
    have r: "of_int (?c - 1) < 1 / a" "1 / a \<le> of_int (?c - 1 + 1)" by linarith+
    have "1 / a \<le> pow2 (bitlen (?c - 1))" "pow2 (bitlen (?c - 1) - 1) < 1 / a"
      using bitlen_pow2_bounds [OF c] r by linarith+
    then have "1 / pow2 (bitlen (?c - 1)) \<le> a" "a < 1 / pow2 (bitlen (?c - 1) - 1)"
      using assms by (simp_all add: field_simps)
    moreover have "1 / pow2 (bitlen (?c - 1)) = pow2 (ilog2 a)"
      using False by (simp add: ilog2_def pow2_def power_int_minus_divide)
    moreover have "1 / pow2 (bitlen (?c - 1) - 1) = pow2 (ilog2 a + 1)"
      using False pow2_diff [of 0 "bitlen (?c - 1) - 1"]
      by (simp add: ilog2_def pow2_def)
    ultimately show ?thesis by simp
  qed
  then show "pow2 (ilog2 a) \<le> a" "a < pow2 (ilog2 a + 1)" by simp_all
qed

lemma ilog2_le: "0 < a \<Longrightarrow> a < pow2 (e + 1) \<Longrightarrow> ilog2 a \<le> e"
proof -
  assume "0 < a" "a < pow2 (e + 1)"
  then have "pow2 (ilog2 a) < pow2 (e + 1)" using ilog2_bounds(1) [of a] by linarith
  then show "ilog2 a \<le> e" by simp
qed

lemma ilog2_mono: "0 < a \<Longrightarrow> a \<le> b \<Longrightarrow> ilog2 a \<le> ilog2 b"
  using ilog2_bounds [of b] by (intro ilog2_le) auto

text \<open>Nearest integer, ties to even.\<close>

definition rne :: "rat \<Rightarrow> int" where
  "rne x = (let n = \<lfloor>x\<rfloor>; d = x - of_int n in
     if d < 1 / 2 then n else if 1 / 2 < d then n + 1 else if even n then n else n + 1)"

lemma rne_of_int [simp]: "rne (of_int n) = n"
  by (simp add: rne_def)

lemma rne_error: "\<bar>of_int (rne x) - x\<bar> \<le> 1 / 2"
proof -
  have "of_int \<lfloor>x\<rfloor> \<le> x" "x < of_int \<lfloor>x\<rfloor> + 1" by linarith+
  then show ?thesis by (auto simp: rne_def Let_def abs_le_iff)
qed

lemma rne_mono:
  assumes "x \<le> y"
  shows "rne x \<le> rne y"
proof (cases "\<lfloor>x\<rfloor> = \<lfloor>y\<rfloor>")
  case True
  with assms show ?thesis by (simp add: rne_def Let_def)
next
  case False
  with assms have "\<lfloor>x\<rfloor> + 1 \<le> \<lfloor>y\<rfloor>" using floor_mono [OF assms] by linarith
  then show ?thesis by (simp add: rne_def Let_def)
qed

lemma rne_le: "x \<le> of_int n \<Longrightarrow> rne x \<le> n"
  using rne_mono [of x "of_int n"] by simp

lemma rne_ge: "of_int n \<le> x \<Longrightarrow> n \<le> rne x"
  using rne_mono [of "of_int n" x] by simp

text \<open>
  The unit of the last place of a magnitude: 52 binary places below its exponent, but never
  below \<open>2^-1074\<close> (gradual underflow).
\<close>

definition ulp_exp :: "rat \<Rightarrow> int" where
  "ulp_exp a = max (ilog2 a - 52) (- 1074)"

definition round_mag :: "rat \<Rightarrow> rat" where
  "round_mag a = of_int (rne (a / pow2 (ulp_exp a))) * pow2 (ulp_exp a)"

lemma ulp_exp_ge: "- 1074 \<le> ulp_exp a"
  by (simp add: ulp_exp_def)

lemma round_mag_exact:
  assumes a: "a = of_int m * pow2 e" and m: "0 < m" "m \<le> 2 ^ 53" and e: "- 1074 \<le> e"
  shows "round_mag a = a"
proof -
  have apos: "0 < a" using a m by simp
  have "a \<le> 2 ^ 53 * pow2 e"
  proof -
    from m(2) have "(of_int m :: rat) \<le> of_int (2 ^ 53)" by (simp only: of_int_le_iff)
    then show ?thesis using a by (simp add: mult_right_mono)
  qed
  then have le: "a \<le> pow2 (53 + e)" by (simp add: pow2_add) (simp add: pow2_def)
  then have "pow2 (ilog2 a) \<le> pow2 (53 + e)" using ilog2_bounds(1) [OF apos] by linarith
  then have lg: "ilog2 a \<le> 53 + e" by simp
  have "\<exists>k. a / pow2 (ulp_exp a) = of_int k"
  proof (cases "ulp_exp a \<le> e")
    case True
    then show ?thesis using a pow2_quotient_int [OF True]
      by (intro exI [of _ "m * 2 ^ nat (e - ulp_exp a)"]) (simp add: field_simps)
  next
    case False
    with lg e have u: "ulp_exp a = e + 1" "ilog2 a = 53 + e"
      by (auto simp: ulp_exp_def max_def split: if_splits)
    with le ilog2_bounds(1) [OF apos] have "a = pow2 (53 + e)" by simp
    with u show ?thesis using pow2_quotient_int [of "e + 1" "53 + e"] by auto
  qed
  then obtain k where "a / pow2 (ulp_exp a) = of_int k" ..
  then show ?thesis by (simp add: round_mag_def) (simp add: field_simps)
qed

lemma round_mag_shape:
  assumes "0 < a"
  shows "\<exists>n. round_mag a = of_int n * pow2 (ulp_exp a) \<and> 0 \<le> n \<and> n \<le> 2 ^ 53"
proof -
  let ?n = "rne (a / pow2 (ulp_exp a))"
  have "a < pow2 (ilog2 a + 1)" by (rule ilog2_bounds(2) [OF assms])
  also have "\<dots> \<le> pow2 (ulp_exp a + 53)" by (simp add: ulp_exp_def)
  finally have "a / pow2 (ulp_exp a) \<le> of_int (2 ^ 53)"
    by (simp add: pow2_add field_simps) (simp add: pow2_def)
  then have "?n \<le> 2 ^ 53" by (rule rne_le)
  moreover have "0 \<le> ?n" using assms by (intro rne_ge) simp
  ultimately show ?thesis by (auto simp: round_mag_def)
qed

lemma round_mag_idem: "0 < a \<Longrightarrow> 0 < round_mag a \<Longrightarrow> round_mag (round_mag a) = round_mag a"
  using round_mag_shape [of a] ulp_exp_ge [of a]
  by (auto intro!: round_mag_exact simp: zero_less_mult_iff)

lemma round_mag_nonneg: "0 < a \<Longrightarrow> 0 \<le> round_mag a"
  using round_mag_shape [of a] by auto

lemma round_mag_pow2: "- 1074 \<le> e \<Longrightarrow> round_mag (pow2 e) = pow2 e"
  by (rule round_mag_exact [of _ 1]) simp_all

lemma round_mag_mono:
  assumes "0 < a" "a \<le> b"
  shows "round_mag a \<le> round_mag b"
proof (cases "ulp_exp a = ulp_exp b")
  case True
  from assms have "a / pow2 (ulp_exp b) \<le> b / pow2 (ulp_exp b)" by (simp add: divide_right_mono)
  with True show ?thesis by (simp add: round_mag_def rne_mono)
next
  case False
  from assms have b: "0 < b" by simp
  from False ilog2_mono [OF assms] have u: "ulp_exp b = ilog2 b - 52" "ilog2 a + 1 \<le> ilog2 b"
    "ulp_exp a + 53 \<le> ilog2 b"
    by (auto simp: ulp_exp_def max_def split: if_splits)
  have "round_mag a \<le> pow2 (ulp_exp a + 53)"
  proof -
    obtain n where n: "round_mag a = of_int n * pow2 (ulp_exp a)" "n \<le> 2 ^ 53"
      using round_mag_shape [OF assms(1)] by auto
    from n(2) have "(of_int n :: rat) \<le> of_int (2 ^ 53)" by (simp only: of_int_le_iff)
    then have "of_int n * pow2 (ulp_exp a) \<le> 2 ^ 53 * pow2 (ulp_exp a)"
      by (intro mult_right_mono) simp_all
    with n(1) show ?thesis by (simp add: pow2_add) (simp add: pow2_def)
  qed
  also have "\<dots> \<le> pow2 (ilog2 b)" using u(3) by simp
  also have "\<dots> \<le> round_mag b"
  proof -
    have q: "pow2 (ilog2 b) / pow2 (ulp_exp b) = of_int (2 ^ 52)"
      using pow2_quotient_int [of "ulp_exp b" "ilog2 b"] u(1) by simp
    have "pow2 (ilog2 b) / pow2 (ulp_exp b) \<le> b / pow2 (ulp_exp b)"
      using ilog2_bounds(1) [OF b] by (simp add: divide_right_mono)
    then have "2 ^ 52 \<le> rne (b / pow2 (ulp_exp b))" using q by (intro rne_ge) simp
    then have "(of_int (2 ^ 52) :: rat) \<le> of_int (rne (b / pow2 (ulp_exp b)))"
      by (simp only: of_int_le_iff)
    then have "of_int (2 ^ 52) * pow2 (ulp_exp b) \<le> round_mag b"
      unfolding round_mag_def by (intro mult_right_mono) simp_all
    with q show ?thesis by (simp add: field_simps)
  qed
  finally show ?thesis .
qed

lemma round_mag_error_ulp: "0 < a \<Longrightarrow> \<bar>round_mag a - a\<bar> \<le> pow2 (ulp_exp a) / 2"
proof -
  let ?u = "pow2 (ulp_exp a)"
  have "round_mag a - a = (of_int (rne (a / ?u)) - a / ?u) * ?u"
    by (simp add: round_mag_def field_simps)
  then have "\<bar>round_mag a - a\<bar> = \<bar>of_int (rne (a / ?u)) - a / ?u\<bar> * ?u"
    by (simp add: abs_mult)
  also have "\<dots> \<le> 1 / 2 * ?u" by (rule mult_right_mono [OF rne_error]) simp
  finally show ?thesis by simp
qed

text \<open>
  The relative error of rounding a multiple of the smallest subnormal is at most \<open>2^-53\<close>:
  in the subnormal range such a value is exact, above it the exponent bounds the error.
\<close>

lemma round_mag_rel_error:
  assumes "0 < a" "a = of_int m * pow2 (- 1074)"
  shows "\<bar>round_mag a - a\<bar> \<le> a * pow2 (- 53)"
proof (cases "ulp_exp a = ilog2 a - 52")
  case True
  have "\<bar>round_mag a - a\<bar> \<le> pow2 (ulp_exp a) / 2" by (rule round_mag_error_ulp [OF assms(1)])
  also have "\<dots> = pow2 (ilog2 a) * pow2 (- 53)"
    using pow2_Suc [of "ilog2 a - 53"] pow2_add [of "ilog2 a" "- 53"] True by simp
  also have "\<dots> \<le> a * pow2 (- 53)"
    using ilog2_bounds(1) [OF assms(1)] by (intro mult_right_mono) simp_all
  finally show ?thesis .
next
  case False
  then have "ulp_exp a = - 1074" by (auto simp: ulp_exp_def max_def split: if_splits)
  then have "a / pow2 (ulp_exp a) = of_int m" using assms(2) by simp
  then have "round_mag a = a" using assms(2) \<open>ulp_exp a = - 1074\<close> by (simp add: round_mag_def)
  then show ?thesis using assms(1) by simp
qed

section \<open>Values and rounding\<close>

fun val :: "f64 \<Rightarrow> rat" where
  "val (Fin q) = q"
| "val _ = 0"

fun is_fin :: "f64 \<Rightarrow> bool" where
  "is_fin (Fin q) = True"
| "is_fin NegZero = True"
| "is_fin _ = False"

fun is_inf :: "f64 \<Rightarrow> bool" where
  "is_inf PosInf = True"
| "is_inf NegInf = True"
| "is_inf _ = False"

text \<open>The sign bit.\<close>

fun neg :: "f64 \<Rightarrow> bool" where
  "neg (Fin q) = (q < 0)"
| "neg NegZero = True"
| "neg NegInf = True"
| "neg _ = False"

definition is_zero :: "f64 \<Rightarrow> bool" where
  "is_zero x \<longleftrightarrow> is_fin x \<and> val x = 0"

definition zero64 :: "bool \<Rightarrow> f64" where
  "zero64 s = (if s then NegZero else Fin 0)"

definition inf64 :: "bool \<Rightarrow> f64" where
  "inf64 s = (if s then NegInf else PosInf)"

definition round64 :: "bool \<Rightarrow> rat \<Rightarrow> f64" where
  "round64 s q =
     (if q = 0 then zero64 s
      else let r = round_mag \<bar>q\<bar> in
        if pow2 1024 \<le> r then inf64 (q < 0)
        else if r = 0 then zero64 (q < 0)
        else Fin (sgn q * r))"

text \<open>For evaluation: the overflow test by exponent.\<close>

lemma round64_code [code]:
  "round64 s q =
     (if q = 0 then zero64 s
      else let r = round_mag \<bar>q\<bar> in
        if r = 0 then zero64 (q < 0)
        else if 1024 \<le> ilog2 r then inf64 (q < 0)
        else Fin (sgn q * r))"
proof -
  have "pow2 1024 \<le> r \<longleftrightarrow> 1024 \<le> ilog2 r" if "0 < r" for r
  proof
    assume "pow2 1024 \<le> r"
    also have "r < pow2 (ilog2 r + 1)" using ilog2_bounds [OF that] by simp
    finally have "1024 < ilog2 r + 1" by (simp only: pow2_less_iff)
    then show "1024 \<le> ilog2 r" by simp
  next
    assume "1024 \<le> ilog2 r"
    then have "pow2 1024 \<le> pow2 (ilog2 r)" by (simp only: pow2_le_iff)
    also have "\<dots> \<le> r" using ilog2_bounds [OF that] by simp
    finally show "pow2 1024 \<le> r" .
  qed
  moreover have "q \<noteq> 0 \<Longrightarrow> 0 \<le> round_mag \<bar>q\<bar>" using round_mag_nonneg [of "\<bar>q\<bar>"] by simp
  ultimately show ?thesis
    by (cases "q = 0"; cases "round_mag \<bar>q\<bar> = 0") (auto simp: round64_def Let_def less_le)
qed

lemma zero64_simps [simp]: "is_fin (zero64 s)" "val (zero64 s) = 0" "zero64 False = Fin 0"
  by (simp_all add: zero64_def)

lemma inf64_simps [simp]: "\<not> is_fin (inf64 s)" "val (inf64 s) = 0"
  by (simp_all add: inf64_def)

text \<open>The rationals that are values of the format, and the well-formed \<open>f64\<close>.\<close>

definition fits :: "rat \<Rightarrow> bool" where
  "fits q \<longleftrightarrow> (\<exists>m e. q = of_int m * pow2 e \<and> \<bar>m\<bar> \<le> 2 ^ 53 \<and> - 1074 \<le> e) \<and> \<bar>q\<bar> < pow2 1024"

fun wf64 :: "f64 \<Rightarrow> bool" where
  "wf64 (Fin q) = fits q"
| "wf64 _ = True"

lemma fits_0 [simp]: "fits 0"
  by (auto simp: fits_def intro!: exI [of _ 0])

lemma fits_minus [simp]: "fits (- q) = fits q"
proof -
  have "fits (- q)" if "fits q" for q
  proof -
    from that obtain m e where "q = of_int m * pow2 e" "\<bar>m\<bar> \<le> 2 ^ 53" "- 1074 \<le> e" "\<bar>q\<bar> < pow2 1024"
      by (auto simp: fits_def)
    then show ?thesis unfolding fits_def
      by (intro conjI exI [of _ "- m"] exI [of _ e]) simp_all
  qed
  from this [of q] this [of "- q"] show ?thesis by auto
qed

lemma fits_int: "\<bar>n\<bar> \<le> 2 ^ 53 \<Longrightarrow> fits (of_int n)"
proof -
  assume n: "\<bar>n\<bar> \<le> 2 ^ 53"
  then have "\<bar>of_int n :: rat\<bar> \<le> of_int (2 ^ 53)" by (simp only: of_int_abs [symmetric] of_int_le_iff)
  also have "of_int (2 ^ 53) = pow2 53" by (simp add: pow2_nat)
  also have "pow2 53 < pow2 1024" by simp
  finally show ?thesis using n
    unfolding fits_def by (intro conjI exI [of _ n] exI [of _ 0]) (simp_all add: pow2_def)
qed

lemma fits_grid: "fits q \<Longrightarrow> \<exists>m. q = of_int m * pow2 (- 1074)"
proof -
  assume "fits q"
  then obtain m e where q: "q = of_int m * pow2 e" "- 1074 \<le> e" by (auto simp: fits_def)
  then have "q = of_int (m * 2 ^ nat (e - - 1074)) * pow2 (- 1074)"
    using pow2_quotient_int [OF q(2)] by (simp add: field_simps)
  then show ?thesis ..
qed

lemma round_mag_fits:
  assumes "fits q" "q \<noteq> 0"
  shows "round_mag \<bar>q\<bar> = \<bar>q\<bar>"
proof -
  from assms(1) obtain m e where q: "q = of_int m * pow2 e" "\<bar>m\<bar> \<le> 2 ^ 53" "- 1074 \<le> e"
    by (auto simp: fits_def)
  from q(1) have "\<bar>q\<bar> = of_int \<bar>m\<bar> * pow2 e" by (simp add: abs_mult)
  moreover have "0 < \<bar>m\<bar>" using q(1) assms(2) by auto
  ultimately show ?thesis using q by (intro round_mag_exact [of _ "\<bar>m\<bar>" e])
qed

lemma round64_exact:
  assumes "fits q"
  shows "round64 s q = (if q = 0 then zero64 s else Fin q)"
proof (cases "q = 0")
  case False
  with round_mag_fits [OF assms False] assms show ?thesis
    by (auto simp: round64_def Let_def fits_def mult_sgn_abs)
qed (simp add: round64_def)

lemma round64_wf [simp]: "wf64 (round64 s q)"
proof (cases "q = 0 \<or> round_mag \<bar>q\<bar> = 0 \<or> pow2 1024 \<le> round_mag \<bar>q\<bar>")
  case True
  then show ?thesis by (auto simp: round64_def Let_def zero64_def inf64_def)
next
  case False
  then have q: "0 < \<bar>q\<bar>" "0 < round_mag \<bar>q\<bar>" "round_mag \<bar>q\<bar> < pow2 1024"
    using round_mag_nonneg [of "\<bar>q\<bar>"] by auto
  obtain n where n: "round_mag \<bar>q\<bar> = of_int n * pow2 (ulp_exp \<bar>q\<bar>)" "0 \<le> n" "n \<le> 2 ^ 53"
    using round_mag_shape [OF q(1)] by auto
  have "fits (round_mag \<bar>q\<bar>)"
    unfolding fits_def
  proof (intro conjI exI)
    show "\<bar>round_mag \<bar>q\<bar>\<bar> < pow2 1024" using q by simp
    show "\<bar>n\<bar> \<le> 2 ^ 53" using n by simp
  qed (use n ulp_exp_ge in auto)
  then have "fits (sgn q * round_mag \<bar>q\<bar>)" by (cases "0 < q") (use q in \<open>auto simp: sgn_if\<close>)
  with False show ?thesis by (auto simp: round64_def Let_def)
qed

lemma round64_val:
  assumes "\<bar>q\<bar> \<le> pow2 1023"
  shows "is_fin (round64 s q)" "val (round64 s q) = (if q = 0 then 0 else sgn q * round_mag \<bar>q\<bar>)"
proof -
  have "round_mag \<bar>q\<bar> < pow2 1024" if "q \<noteq> 0"
  proof -
    have "round_mag \<bar>q\<bar> \<le> round_mag (pow2 1023)"
      using assms that by (intro round_mag_mono) auto
    also have "\<dots> < pow2 1024" by (simp add: round_mag_pow2)
    finally show ?thesis .
  qed
  then show "is_fin (round64 s q)" "val (round64 s q) = (if q = 0 then 0 else sgn q * round_mag \<bar>q\<bar>)"
    by (cases "q = 0"; auto simp: round64_def Let_def)+
qed

section \<open>Arithmetic\<close>

fun fneg :: "f64 \<Rightarrow> f64" where
  "fneg NaN = NaN"
| "fneg PosInf = NegInf"
| "fneg NegInf = PosInf"
| "fneg NegZero = Fin 0"
| "fneg (Fin q) = (if q = 0 then NegZero else Fin (- q))"

definition fadd :: "f64 \<Rightarrow> f64 \<Rightarrow> f64" where
  "fadd x y =
     (if x = NaN \<or> y = NaN then NaN
      else if is_inf x \<and> is_inf y then (if x = y then x else NaN)
      else if is_inf x then x
      else if is_inf y then y
      else round64 (x = NegZero \<and> y = NegZero) (val x + val y))"

definition fsub :: "f64 \<Rightarrow> f64 \<Rightarrow> f64" where
  "fsub x y = fadd x (fneg y)"

definition fmul :: "f64 \<Rightarrow> f64 \<Rightarrow> f64" where
  "fmul x y =
     (if x = NaN \<or> y = NaN then NaN
      else let s = (neg x \<noteq> neg y) in
        if is_inf x \<or> is_inf y then (if is_zero x \<or> is_zero y then NaN else inf64 s)
        else round64 s (val x * val y))"

definition fdiv :: "f64 \<Rightarrow> f64 \<Rightarrow> f64" where
  "fdiv x y =
     (if x = NaN \<or> y = NaN then NaN
      else let s = (neg x \<noteq> neg y) in
        if is_inf x \<and> is_inf y \<or> is_zero x \<and> is_zero y then NaN
        else if is_inf x \<or> is_zero y then inf64 s
        else if is_inf y then zero64 s
        else round64 s (val x / val y))"

definition flt :: "f64 \<Rightarrow> f64 \<Rightarrow> bool" where
  "flt x y \<longleftrightarrow>
     (if x = NaN \<or> y = NaN \<or> x = PosInf \<or> y = NegInf then False
      else if y = PosInf \<or> x = NegInf then True
      else val x < val y)"

definition feq :: "f64 \<Rightarrow> f64 \<Rightarrow> bool" where
  "feq x y \<longleftrightarrow> x \<noteq> NaN \<and> (x = y \<or> is_fin x \<and> is_fin y \<and> val x = val y)"

text \<open>\<open>float64(n)\<close> of an integer.\<close>

definition f64_of_int :: "int \<Rightarrow> f64" where
  "f64_of_int n = round64 False (of_int n)"

definition trunc_rat :: "rat \<Rightarrow> int" where
  "trunc_rat q = (if 0 \<le> q then \<lfloor>q\<rfloor> else \<lceil>q\<rceil>)"

text \<open>
  \<open>int64(x)\<close> truncates. When the value does not fit, the language leaves the result to the
  implementation: the model takes it as the argument \<open>cvt\<close>.
\<close>

definition f64_to_int64 :: "(f64 \<Rightarrow> int) \<Rightarrow> f64 \<Rightarrow> int" where
  "f64_to_int64 cvt x =
     (if is_fin x \<and> in64 (trunc_rat (val x)) then trunc_rat (val x) else cvt x)"

text \<open>\<open>math.Round\<close>: to the nearest integer, ties away from zero.\<close>

fun fround :: "f64 \<Rightarrow> f64" where
  "fround (Fin q) =
     (let n = \<lfloor>\<bar>q\<bar> + 1 / 2\<rfloor> in if n = 0 then zero64 (q < 0) else Fin (sgn q * of_int n))"
| "fround x = x"

lemma fneg_simps [simp]: "val (fneg x) = - val x" "is_fin (fneg x) = is_fin x"
  by (cases x; simp)+

lemma wf64_fneg [simp]: "wf64 (fneg x) = wf64 x"
  by (cases x) auto

lemma wf64_fadd [simp]: "wf64 x \<Longrightarrow> wf64 y \<Longrightarrow> wf64 (fadd x y)"
  by (auto simp: fadd_def)

lemma wf64_fsub [simp]: "wf64 x \<Longrightarrow> wf64 y \<Longrightarrow> wf64 (fsub x y)"
  by (simp add: fsub_def)

lemma wf64_zero64 [simp]: "wf64 (zero64 s)" and wf64_inf64 [simp]: "wf64 (inf64 s)"
  by (simp_all add: zero64_def inf64_def)

lemma wf64_fmul [simp]: "wf64 (fmul x y)"
  by (auto simp: fmul_def Let_def)

lemma wf64_fdiv [simp]: "wf64 (fdiv x y)"
  by (auto simp: fdiv_def Let_def)

lemma wf64_of_int [simp]: "wf64 (f64_of_int n)"
  by (simp add: f64_of_int_def)

lemma f64_of_int_exact: "\<bar>n\<bar> \<le> 2 ^ 53 \<Longrightarrow> f64_of_int n = Fin (of_int n)"
  by (simp add: f64_of_int_def round64_exact fits_int)

lemma fin_fadd: "is_fin x \<Longrightarrow> is_fin y \<Longrightarrow>
    fadd x y = round64 (x = NegZero \<and> y = NegZero) (val x + val y)"
  by (cases x; cases y) (simp_all add: fadd_def)

lemma wf64_fits: "is_fin x \<Longrightarrow> wf64 x \<Longrightarrow> fits (val x)"
  by (cases x) auto

lemma fadd_exact:
  assumes "is_fin x" "is_fin y" "fits (val x + val y)"
  shows "is_fin (fadd x y)" "val (fadd x y) = val x + val y"
  using assms by (auto simp: fin_fadd round64_exact)

section \<open>Accumulated sums\<close>

text \<open>One unit of relative rounding error.\<close>

abbreviation eps :: rat where
  "eps \<equiv> pow2 (- 53)"

lemma fadd_error:
  assumes "is_fin x" "is_fin y" "wf64 x" "wf64 y" "\<bar>val x + val y\<bar> \<le> pow2 1023"
  shows "is_fin (fadd x y)"
    and "\<bar>val (fadd x y) - (val x + val y)\<bar> \<le> \<bar>val x + val y\<bar> * eps"
proof -
  let ?q = "val x + val y"
  obtain m n where mn: "val x = of_int m * pow2 (- 1074)" "val y = of_int n * pow2 (- 1074)"
    using assms(1-4) wf64_fits fits_grid by metis
  have eq: "fadd x y = round64 (x = NegZero \<and> y = NegZero) ?q"
    using assms(1,2) by (rule fin_fadd)
  show "is_fin (fadd x y)" unfolding eq by (rule round64_val(1) [OF assms(5)])
  show "\<bar>val (fadd x y) - ?q\<bar> \<le> \<bar>?q\<bar> * eps"
  proof (cases "?q = 0")
    case True
    then show ?thesis unfolding eq by (simp add: round64_def)
  next
    case False
    have "\<bar>?q\<bar> = of_int \<bar>m + n\<bar> * pow2 (- 1074)"
      using mn by (simp add: distrib_right [symmetric] abs_mult)
    with False have "\<bar>round_mag \<bar>?q\<bar> - \<bar>?q\<bar>\<bar> \<le> \<bar>?q\<bar> * eps"
      by (intro round_mag_rel_error [of _ "\<bar>m + n\<bar>"]) auto
    moreover have "val (fadd x y) - ?q = sgn ?q * (round_mag \<bar>?q\<bar> - \<bar>?q\<bar>)"
      unfolding eq using False by (simp add: round64_val(2) [OF assms(5)] right_diff_distrib mult_sgn_abs)
    ultimately show ?thesis using False by (simp add: abs_mult)
  qed
qed

definition fsum :: "f64 list \<Rightarrow> f64 \<Rightarrow> f64" where
  "fsum xs s = fold (\<lambda>x t. fadd t x) xs s"

lemma fsum_simps [simp]: "fsum [] s = s" "fsum (x # xs) s = fsum xs (fadd s x)"
  by (simp_all add: fsum_def)

lemma fsum_append [simp]: "fsum (xs @ ys) s = fsum ys (fsum xs s)"
  by (simp add: fsum_def)

lemma wf64_fsum: "(\<And>x. x \<in> set xs \<Longrightarrow> wf64 x) \<Longrightarrow> wf64 s \<Longrightarrow> wf64 (fsum xs s)"
  by (induction xs arbitrary: s) auto

text \<open>
  The classical forward bound: after \<open>n\<close> additions the computed sum differs from the exact
  one by at most \<open>((1 + eps)^n - 1)\<close> times the sum of the magnitudes, whatever the order.
\<close>

lemma sum_abs_nonneg [simp]: "0 \<le> (\<Sum>x\<leftarrow>xs. \<bar>f x :: rat\<bar>)"
  by (induction xs) auto

lemma one_le_growth: "1 \<le> (1 + eps) ^ n"
  by (intro one_le_power) simp

lemma fsum_error:
  assumes "is_fin s" "wf64 s" "\<And>x. x \<in> set xs \<Longrightarrow> is_fin x \<and> wf64 x"
    and "(1 + eps) ^ length xs * (\<bar>val s\<bar> + (\<Sum>x\<leftarrow>xs. \<bar>val x\<bar>)) \<le> pow2 1023"
  shows "is_fin (fsum xs s)
    \<and> \<bar>val (fsum xs s) - (val s + (\<Sum>x\<leftarrow>xs. val x))\<bar>
        \<le> ((1 + eps) ^ length xs - 1) * (\<bar>val s\<bar> + (\<Sum>x\<leftarrow>xs. \<bar>val x\<bar>))"
  using assms
proof (induction xs arbitrary: s)
  case (Cons x xs)
  define A where "A = \<bar>val s\<bar> + \<bar>val x\<bar>"
  define B where "B = (\<Sum>y\<leftarrow>xs. \<bar>val y\<bar>)"
  define G where "G = (1 + eps) ^ length xs"
  have G: "1 \<le> G" unfolding G_def by (rule one_le_growth)
  have AB: "0 \<le> A" "0 \<le> B" "\<bar>val s + val x\<bar> \<le> A"
    unfolding A_def B_def by (auto simp: sum_abs_nonneg)
  have e0: "0 \<le> eps" by simp
  have bnd: "(1 + eps) * G * (A + B) \<le> pow2 1023"
    using Cons.prems(4) by (simp add: A_def B_def G_def add.assoc)
  have G1: "1 \<le> (1 + eps) * G" using mult_mono [of 1 "1 + eps" 1 G] G e0 by linarith
  have AB1: "A + B \<le> (1 + eps) * G * (A + B)"
    using mult_right_mono [OF G1, of "A + B"] AB by simp
  let ?t = "fadd s x"
  have x: "is_fin x" "wf64 x" using Cons.prems(3) by auto
  have small: "\<bar>val s + val x\<bar> \<le> pow2 1023" using AB AB1 bnd by linarith
  note t = fadd_error [OF Cons.prems(1) x(1) Cons.prems(2) x(2) small]
  have err: "\<bar>val ?t - (val s + val x)\<bar> \<le> eps * A"
    using t(2) mult_right_mono [OF AB(3) e0] by (simp only: mult.commute)
  then have tA: "\<bar>val ?t\<bar> \<le> (1 + eps) * A" using AB by (simp add: algebra_simps)
  have step: "\<bar>val ?t\<bar> + B \<le> (1 + eps) * (A + B)"
  proof -
    have "(1 + eps) * (A + B) = (1 + eps) * A + B + eps * B" by (simp add: algebra_simps)
    then show ?thesis using tA mult_nonneg_nonneg [OF e0 AB(2)] by linarith
  qed
  have IH: "is_fin (fsum xs ?t) \<and> \<bar>val (fsum xs ?t) - (val ?t + (\<Sum>y\<leftarrow>xs. val y))\<bar>
      \<le> (G - 1) * (\<bar>val ?t\<bar> + B)"
    unfolding G_def B_def
  proof (rule Cons.IH)
    show "is_fin ?t" by (rule t(1))
    show "wf64 ?t" using Cons.prems(2) x by simp
    show "\<And>y. y \<in> set xs \<Longrightarrow> is_fin y \<and> wf64 y" using Cons.prems(3) by auto
    have "G * (\<bar>val ?t\<bar> + B) \<le> G * ((1 + eps) * (A + B))"
      using G step by (intro mult_left_mono) auto
    also have "\<dots> = (1 + eps) * G * (A + B)" by (simp only: ac_simps)
    also note bnd
    finally show "(1 + eps) ^ length xs * (\<bar>val ?t\<bar> + (\<Sum>y\<leftarrow>xs. \<bar>val y\<bar>)) \<le> pow2 1023"
      by (simp add: G_def B_def)
  qed
  have "\<bar>val (fsum xs ?t) - (val s + val x + (\<Sum>y\<leftarrow>xs. val y))\<bar>
      \<le> (G - 1) * (\<bar>val ?t\<bar> + B) + eps * A"
    using IH err by linarith
  also have "\<dots> \<le> (G - 1) * ((1 + eps) * A + B) + eps * A"
    using G tA by (intro add_right_mono mult_left_mono) auto
  also have "\<dots> \<le> ((1 + eps) * G - 1) * (A + B)"
  proof -
    have "((1 + eps) * G - 1) * (A + B) = (G - 1) * ((1 + eps) * A + B) + eps * A + eps * G * B"
      by (simp add: algebra_simps)
    moreover have "0 \<le> eps * G * B" using G AB e0 by (intro mult_nonneg_nonneg) auto
    ultimately show ?thesis by linarith
  qed
  finally show ?case using IH by (simp add: A_def B_def G_def add.assoc)
qed simp

text \<open>On a common grid the sum is exact, so no order can change it.\<close>

definition on_grid :: "int \<Rightarrow> f64 \<Rightarrow> bool" where
  "on_grid e x \<longleftrightarrow> is_fin x \<and> (\<exists>m::int. val x = of_int m * pow2 e)"

lemma grid_fits:
  assumes "- 1074 \<le> e" "e \<le> 970" "q = of_int m * pow2 e" "\<bar>q\<bar> \<le> 2 ^ 53 * pow2 e"
  shows "fits q"
  unfolding fits_def
proof (intro conjI exI)
  show "q = of_int m * pow2 e" by (rule assms(3))
  have "\<bar>of_int m\<bar> \<le> (2 ^ 53 :: rat)" using assms(3,4) by (simp add: abs_mult)
  then have "(of_int \<bar>m\<bar> :: rat) \<le> of_int (2 ^ 53)" by simp
  then show "\<bar>m\<bar> \<le> 2 ^ 53" by (simp only: of_int_le_iff)
  show "- 1074 \<le> e" by (rule assms(1))
  have "\<bar>q\<bar> \<le> pow2 (53 + e)" using assms(4) by (simp add: pow2_add) (simp add: pow2_def)
  also have "\<dots> < pow2 1024" using assms(2) by simp
  finally show "\<bar>q\<bar> < pow2 1024" .
qed

lemma fsum_grid:
  assumes "- 1074 \<le> e" "e \<le> 970" "on_grid e s" "\<And>x. x \<in> set xs \<Longrightarrow> on_grid e x"
    and "\<bar>val s\<bar> + (\<Sum>x\<leftarrow>xs. \<bar>val x\<bar>) \<le> 2 ^ 53 * pow2 e"
  shows "on_grid e (fsum xs s) \<and> val (fsum xs s) = val s + (\<Sum>x\<leftarrow>xs. val x)"
  using assms
proof (induction xs arbitrary: s)
  case (Cons x xs)
  obtain m n where mn: "val s = of_int m * pow2 e" "val x = of_int n * pow2 e"
    using Cons.prems(3) Cons.prems(4) [of x] by (auto simp: on_grid_def)
  note nn = sum_abs_nonneg [of val xs]
  have sum: "val s + val x = of_int (m + n) * pow2 e" using mn by (simp add: distrib_right)
  have "\<bar>val s + val x\<bar> \<le> 2 ^ 53 * pow2 e"
    using Cons.prems(5) nn abs_triangle_ineq [of "val s" "val x"] unfolding sum_list.Cons list.map
    by linarith
  then have "fits (val s + val x)" by (rule grid_fits [OF Cons.prems(1,2) sum])
  then have a: "is_fin (fadd s x)" "val (fadd s x) = val s + val x"
    using Cons.prems(3,4) by (auto simp: on_grid_def intro: fadd_exact)
  have "on_grid e (fadd s x)" using a sum unfolding on_grid_def by metis
  moreover have "\<bar>val (fadd s x)\<bar> + (\<Sum>y\<leftarrow>xs. \<bar>val y\<bar>) \<le> 2 ^ 53 * pow2 e"
    using Cons.prems(5) a by simp
  ultimately show ?case using Cons.IH [of "fadd s x"] Cons.prems(1,2,4) a by simp
qed simp

end
