(* ===== verification/Go_Strings.thy ===== *)
theory Go_Strings
  imports Prelude
begin

text \<open>
  The functions of Go's \<open>strings\<close> and \<open>strconv\<close> packages that the adapter calls. A Go string
  is its list of bytes. \<open>to_lower\<close> maps the ASCII letters, as the package does on ASCII
  input. Conversions return what the Go functions return on every branch, including the
  clamped value that \<open>ParseInt\<close> returns together with a range error.
\<close>

section \<open>Prefixes, suffixes, trimming\<close>

definition has_prefix :: "string \<Rightarrow> string \<Rightarrow> bool" where
  "has_prefix s p \<longleftrightarrow> take (length p) s = p"

definition trim_prefix :: "string \<Rightarrow> string \<Rightarrow> string" where
  "trim_prefix s p = (if has_prefix s p then drop (length p) s else s)"

definition has_suffix :: "string \<Rightarrow> string \<Rightarrow> bool" where
  "has_suffix s p \<longleftrightarrow> has_prefix (rev s) (rev p)"

definition trim_suffix :: "string \<Rightarrow> string \<Rightarrow> string" where
  "trim_suffix s p = (if has_suffix s p then take (length s - length p) s else s)"

text \<open>\<open>strings.Trim(s, cutset)\<close>.\<close>

definition trim :: "string \<Rightarrow> string \<Rightarrow> string" where
  "trim s cutset =
     rev (dropWhile (\<lambda>c. c \<in> set cutset) (rev (dropWhile (\<lambda>c. c \<in> set cutset) s)))"

text \<open>\<open>strings.TrimSpace\<close> on ASCII input.\<close>

definition white :: string where
  "white = [CHR '' '', CHR 0x09, CHR 0x0A, CHR 0x0B, CHR 0x0C, CHR 0x0D]"

definition trim_space :: "string \<Rightarrow> string" where
  "trim_space s = trim s white"

lemma has_prefix_iff: "has_prefix s p \<longleftrightarrow> (\<exists>t. s = p @ t)"
  unfolding has_prefix_def by (metis append_eq_conv_conj append_take_drop_id)

lemma has_prefix_append [simp]: "has_prefix (p @ s) p"
  by (simp add: has_prefix_def)

lemma has_prefix_Nil [simp]: "has_prefix s []"
  by (simp add: has_prefix_def)

lemma trim_prefix_append [simp]: "trim_prefix (p @ s) p = s"
  by (simp add: trim_prefix_def)

lemma has_prefix_recompose: "has_prefix s p \<Longrightarrow> p @ trim_prefix s p = s"
  by (auto simp: has_prefix_iff)

lemma trim_id: "s = [] \<or> hd s \<notin> set cs \<and> last s \<notin> set cs \<Longrightarrow> trim s cs = s"
proof (cases s rule: rev_cases)
  case (snoc ys y)
  assume "s = [] \<or> hd s \<notin> set cs \<and> last s \<notin> set cs"
  with snoc have h: "hd s \<notin> set cs" "y \<notin> set cs" by auto
  have "dropWhile (\<lambda>c. c \<in> set cs) s = s" using h(1) by (simp add: dropWhile_eq_self_iff)
  then show ?thesis using h(2) snoc by (simp add: trim_def)
qed (simp add: trim_def)

section \<open>Splitting and joining\<close>

text \<open>What precedes and what follows the first occurrence of \<open>sep\<close>.\<close>

fun cut_str :: "string \<Rightarrow> string \<Rightarrow> (string \<times> string) option" where
  "cut_str sep [] = (if sep = [] then Some ([], []) else None)"
| "cut_str sep (c # s) =
     (if has_prefix (c # s) sep then Some ([], drop (length sep) (c # s))
      else map_option (\<lambda>(a, b). (c # a, b)) (cut_str sep s))"

lemma cut_str_Some: "cut_str sep s = Some (a, b) \<Longrightarrow> s = a @ sep @ b"
proof (induction s arbitrary: a)
  case (Cons c s)
  then show ?case
    using has_prefix_recompose [of "c # s" sep]
    by (auto simp: trim_prefix_def split: if_splits)
qed (auto split: if_splits)

lemma cut_str_length: "sep \<noteq> [] \<Longrightarrow> cut_str sep s = Some (a, b) \<Longrightarrow> length b < length s"
  using cut_str_Some [of sep s a b] by auto

text \<open>\<open>strings.Split\<close>, \<open>strings.SplitN(s, sep, 2)\<close>, \<open>strings.Join\<close>, \<open>strings.Replace(\<dots>, -1)\<close>.\<close>

function split_str :: "string \<Rightarrow> string \<Rightarrow> string list" where
  "split_str s sep =
     (if sep = [] then map (\<lambda>c. [c]) s
      else case cut_str sep s of None \<Rightarrow> [s] | Some (a, b) \<Rightarrow> a # split_str b sep)"
  by pat_completeness auto
termination
  by (relation "measure (\<lambda>(s, sep). length s)") (auto dest: cut_str_length)

declare split_str.simps [simp del]

definition split_n2 :: "string \<Rightarrow> string \<Rightarrow> string list" where
  "split_n2 s sep = (case cut_str sep s of None \<Rightarrow> [s] | Some (a, b) \<Rightarrow> [a, b])"

fun join :: "string \<Rightarrow> string list \<Rightarrow> string" where
  "join sep [] = []"
| "join sep [x] = x"
| "join sep (x # y # zs) = x @ sep @ join sep (y # zs)"

definition replace_all :: "string \<Rightarrow> string \<Rightarrow> string \<Rightarrow> string" where
  "replace_all s old new = join new (split_str s old)"

definition contains :: "string \<Rightarrow> string \<Rightarrow> bool" where
  "contains s sub \<longleftrightarrow> cut_str sub s \<noteq> None"

lemma split_str_ne [simp]: "sep \<noteq> [] \<Longrightarrow> split_str s sep \<noteq> []"
  by (subst split_str.simps) (simp split: option.split)

lemma join_split: "sep \<noteq> [] \<Longrightarrow> join sep (split_str s sep) = s"
proof (induction s sep rule: split_str.induct)
  case (1 s sep)
  show ?case
  proof (cases "cut_str sep s")
    case None
    then show ?thesis using 1 by (subst split_str.simps) simp
  next
    case (Some ab)
    obtain a b where ab: "cut_str sep s = Some (a, b)" using Some by (cases ab) auto
    have "join sep (split_str b sep) = b" using 1 ab by simp
    moreover have "split_str s sep = a # split_str b sep"
      using 1 ab by (subst split_str.simps) simp
    ultimately show ?thesis
      using cut_str_Some [OF ab] 1 by (cases "split_str b sep") auto
  qed
qed

lemma contains_iff: "contains s sub \<longleftrightarrow> (\<exists>a b. s = a @ sub @ b)"
proof
  assume "\<exists>a b. s = a @ sub @ b"
  then obtain a b where s: "s = a @ sub @ b" by auto
  have "cut_str sub (a @ sub @ b) \<noteq> None"
  proof (induction a)
    case Nil
    show ?case
      by (cases "sub @ b") (use has_prefix_append [of sub b] in \<open>auto split: if_splits\<close>)
  qed auto
  then show "contains s sub" by (simp add: contains_def s)
qed (auto simp: contains_def dest: cut_str_Some)

lemma cut_str_char: "c \<notin> set a \<Longrightarrow> cut_str [c] (a @ c # b) = Some (a, b)"
  by (induction a) (auto simp: has_prefix_def)

lemma cut_str_char_None: "c \<notin> set a \<Longrightarrow> cut_str [c] a = None"
  by (induction a) (auto simp: has_prefix_def)

lemma split_join_char:
  "xs \<noteq> [] \<Longrightarrow> \<forall>x \<in> set xs. c \<notin> set x \<Longrightarrow> split_str (join [c] xs) [c] = xs"
proof (induction xs rule: induct_list012)
  case (2 x)
  then show ?case by (subst split_str.simps) (simp add: cut_str_char_None)
next
  case (3 x y zs)
  then show ?case by (subst split_str.simps) (simp add: cut_str_char)
qed simp

section \<open>Case conversion\<close>

definition lower_char :: "char \<Rightarrow> char" where
  "lower_char c =
     (let n = of_char c :: nat in if 65 \<le> n \<and> n \<le> 90 then char_of (n + 32) else c)"

definition to_lower :: "string \<Rightarrow> string" where
  "to_lower s = map lower_char s"

section \<open>Decimal conversion\<close>

definition is_digit :: "char \<Rightarrow> bool" where
  "is_digit c \<longleftrightarrow> 48 \<le> (of_char c :: nat) \<and> (of_char c :: nat) \<le> 57"

definition dval :: "char \<Rightarrow> nat" where
  "dval c = of_char c - 48"

definition digit :: "nat \<Rightarrow> char" where
  "digit n = char_of (48 + n)"

fun dec :: "nat \<Rightarrow> string" where
  "dec n = (if n < 10 then [digit n] else dec (n div 10) @ [digit (n mod 10)])"

declare dec.simps [simp del]

text \<open>\<open>%d\<close> and \<open>strconv.Itoa\<close>.\<close>

definition itoa :: "int \<Rightarrow> string" where
  "itoa i = (if i < 0 then CHR ''-'' # dec (nat (- i)) else dec (nat i))"

datatype num_err = ErrSyntax | ErrRange

fun parse_uint :: "nat \<Rightarrow> string \<Rightarrow> nat \<times> num_err option" where
  "parse_uint n [] = (n, None)"
| "parse_uint n (c # s) =
     (if \<not> is_digit c then (0, Some ErrSyntax)
      else let m = 10 * n + dval c in
        if 2 ^ 64 \<le> m then (2 ^ 64 - 1, Some ErrRange) else parse_uint m s)"

text \<open>\<open>strconv.ParseInt(s, 10, 64)\<close> and \<open>strconv.Atoi\<close>: the value and the error.\<close>

definition parse_int :: "string \<Rightarrow> int \<times> num_err option" where
  "parse_int s =
     (let neg = (s \<noteq> [] \<and> hd s = CHR ''-'');
          t = (if s \<noteq> [] \<and> (hd s = CHR ''-'' \<or> hd s = CHR ''+'') then tl s else s);
          (u, e) = parse_uint 0 t
      in if t = [] \<or> e = Some ErrSyntax then (0, Some ErrSyntax)
         else if \<not> neg \<and> 2 ^ 63 \<le> u then (maxInt64, Some ErrRange)
         else if neg \<and> 2 ^ 63 < u then (minInt64, Some ErrRange)
         else (if neg then - int u else int u, e))"

definition parse_bool :: "string \<Rightarrow> bool option" where
  "parse_bool s =
     (if s \<in> set [''1'', ''t'', ''T'', ''TRUE'', ''true'', ''True''] then Some True
      else if s \<in> set [''0'', ''f'', ''F'', ''FALSE'', ''false'', ''False''] then Some False
      else None)"

lemma digit_props [simp]:
  assumes "n < 10"
  shows "is_digit (digit n)" "dval (digit n) = n"
  using assms by (simp_all add: is_digit_def dval_def digit_def)

lemma digit_chars:
  "digit 0 = CHR ''0''" "digit (Suc 0) = CHR ''1''" "digit 1 = CHR ''1''" "digit 2 = CHR ''2''"
  "digit 3 = CHR ''3''" "digit 4 = CHR ''4''" "digit 5 = CHR ''5''" "digit 6 = CHR ''6''"
  "digit 7 = CHR ''7''" "digit 8 = CHR ''8''" "digit 9 = CHR ''9''"
  by code_simp+

lemmas dec_eval = dec.simps digit_chars

lemma dec_ne [simp]: "dec n \<noteq> []"
  by (subst dec.simps) simp

lemma dec_digits: "\<forall>c \<in> set (dec n). is_digit c"
proof (induction n rule: dec.induct)
  case (1 n)
  then show ?case by (subst dec.simps) auto
qed

text \<open>The value of a digit string.\<close>

definition digits_val :: "string \<Rightarrow> nat" where
  "digits_val s = foldl (\<lambda>n c. 10 * n + dval c) 0 s"

lemma digits_val_snoc [simp]: "digits_val (s @ [c]) = 10 * digits_val s + dval c"
  by (simp add: digits_val_def)

lemma digits_val_Nil [simp]: "digits_val [] = 0"
  by (simp add: digits_val_def)

lemma digits_val_dec [simp]: "digits_val (dec n) = n"
proof (induction n rule: dec.induct)
  case (1 n)
  then show ?case
    using digits_val_snoc [of "[]" "digit n"] by (subst dec.simps) auto
qed

lemma foldl_digits_ge: "n \<le> foldl (\<lambda>n c. 10 * n + dval c) n s"
proof (induction s arbitrary: n)
  case (Cons c s)
  from Cons.IH [of "10 * n + dval c"] show ?case by simp
qed simp

lemma parse_uint_digits:
  "\<forall>c \<in> set s. is_digit c \<Longrightarrow> n < 2 ^ 64 \<Longrightarrow>
   parse_uint n s =
     (let v = foldl (\<lambda>n c. 10 * n + dval c) n s in
       if v < 2 ^ 64 then (v, None) else (2 ^ 64 - 1, Some ErrRange))"
proof (induction s arbitrary: n)
  case (Cons c s)
  let ?m = "10 * n + dval c"
  show ?case
  proof (cases "?m < 2 ^ 64")
    case True
    with Cons show ?thesis by simp
  next
    case False
    with foldl_digits_ge [of ?m s] have "\<not> foldl (\<lambda>n c. 10 * n + dval c) ?m s < 2 ^ 64"
      by linarith
    with False Cons.prems show ?thesis by simp
  qed
qed simp

text \<open>On a digit string \<open>ParseInt\<close> yields the value, clamped with a range error.\<close>

lemma parse_int_digits:
  assumes "s \<noteq> []" "\<forall>c \<in> set s. is_digit c"
  shows "parse_int s =
    (if digits_val s < 2 ^ 63 then (int (digits_val s), None) else (maxInt64, Some ErrRange))"
proof -
  obtain c t where s: "s = c # t" using assms(1) by (cases s) auto
  have c: "is_digit c" using assms(2) s by simp
  have "c \<noteq> CHR ''-''" "c \<noteq> CHR ''+''" using c by (auto simp: is_digit_def)
  moreover have "parse_uint 0 s =
      (if digits_val s < 2 ^ 64 then (digits_val s, None) else (2 ^ 64 - 1, Some ErrRange))"
    using parse_uint_digits [OF assms(2), of 0] by (simp add: digits_val_def Let_def)
  ultimately show ?thesis using s by (simp add: parse_int_def)
qed

lemma parse_int_itoa:
  assumes "in64 n"
  shows "parse_int (itoa n) = (n, None)"
proof (cases "n < 0")
  case False
  then show ?thesis
    using assms parse_int_digits [of "dec (nat n)"] dec_digits [of "nat n"]
    by (simp add: itoa_def in64_def)
next
  case True
  have "nat (- n) < 18446744073709551616"
    using assms True by (simp add: in64_def nat_less_iff)
  then have "parse_uint 0 (dec (nat (- n))) = (nat (- n), None)"
    using parse_uint_digits [OF dec_digits [of "nat (- n)"], of 0] digits_val_dec [of "nat (- n)"] assms
    by (simp add: digits_val_def in64_def Let_def)
  then show ?thesis using True assms by (simp add: itoa_def parse_int_def in64_def)
qed

end
