(* ===== verification/Go_Time_Format.thy ===== *)
theory Go_Time_Format
  imports Go_Time
begin

text \<open>
  Clock lemmas and the two layouts the adapter prints and parses: \<open>20060102150405\<close>
  (\<open>format_window\<close>, \<open>parse_window_time\<close>) and RFC 3339 (\<open>format_rfc3339\<close>, \<open>parse_rfc_z\<close>).
  \<open>parse_window_format\<close> is the round trip between a time and its window string.
\<close>

section \<open>Clock lemmas\<close>

lemma zero_ns_days: "zero_ns = - 719162 * (24 * hour)"
  by (simp add: zero_ns_def)

lemma truncate_day: "ns (truncate_to t (24 * hour)) = ns t - ns t mod (24 * hour)"
proof -
  have "(ns t - zero_ns) mod (24 * hour) = (ns t + 719162 * (24 * hour)) mod (24 * hour)"
    by (simp add: zero_ns_days)
  also have "\<dots> = ns t mod (24 * hour)" by (rule mod_mult_self1)
  finally show ?thesis by (simp add: truncate_to_def)
qed

lemma truncate_to_zone [simp]: "zone (truncate_to t d) = zone t"
  by (simp add: truncate_to_def)

lemma time_add_simps [simp]:
  "ns (time_add t d) = ns t + d" "zone (time_add t d) = zone t"
  by (simp_all add: time_add_def)

lemma in_utc_simps [simp]: "ns (in_utc t) = ns t" "zone (in_utc t) = utc"
  "unix_sec (in_utc t) = unix_sec t" "local_sec (in_utc t) = unix_sec t"
  by (simp_all add: in_utc_def unix_sec_def local_sec_def utc_def)

lemma local_sec_mod_hour: "local_sec t mod 86400 mod 3600 = local_sec t mod 3600"
  by (simp add: mod_mod_cancel)

lemma local_sec_mod_minute: "local_sec t mod 3600 mod 60 = local_sec t mod 60"
  by (simp add: mod_mod_cancel)

lemma local_sec_split:
  "local_sec t = local_day t * 86400 + hour_of t * 3600 + minute_of t * 60 + second_of t"
  using div_mult_mod_eq [of "local_sec t" 86400] div_mult_mod_eq [of "local_sec t mod 86400" 3600]
    div_mult_mod_eq [of "local_sec t mod 3600" 60]
  unfolding local_sec_mod_hour local_sec_mod_minute local_day_def hour_of_def minute_of_def second_of_def
  by linarith

lemma clock_bounds:
  "0 \<le> hour_of t" "hour_of t \<le> 23" "0 \<le> minute_of t" "minute_of t \<le> 59"
  "0 \<le> second_of t" "second_of t \<le> 59"
proof -
  have "0 \<le> local_sec t mod 86400" "local_sec t mod 86400 < 86400" by simp_all
  then show "0 \<le> hour_of t" "hour_of t \<le> 23" unfolding hour_of_def by linarith+
  have "0 \<le> local_sec t mod 3600" "local_sec t mod 3600 < 3600" by simp_all
  then show "0 \<le> minute_of t" "minute_of t \<le> 59" unfolding minute_of_def by linarith+
  have "0 \<le> local_sec t mod 60" "local_sec t mod 60 < 60" by simp_all
  then show "0 \<le> second_of t" "second_of t \<le> 59" unfolding second_of_def by linarith+
qed

section \<open>Printing\<close>

definition pad :: "nat \<Rightarrow> int \<Rightarrow> string" where
  "pad w n =
     (let s = dec (nat \<bar>n\<bar>); z = replicate (w - length s) (CHR ''0'') @ s
      in if n < 0 then CHR ''-'' # z else z)"

definition format_window :: "gotime \<Rightarrow> string" where
  "format_window t =
     pad 4 (year_of t) @ pad 2 (month_of t) @ pad 2 (day_of t) @
     pad 2 (hour_of t) @ pad 2 (minute_of t) @ pad 2 (second_of t)"

definition format_zone :: "int \<Rightarrow> string" where
  "format_zone off =
     (if off = 0 then ''Z''
      else let z = quo off 60 in
        (if z < 0 then ''-'' else ''+'') @ pad 2 (\<bar>z\<bar> div 60) @ '':'' @ pad 2 (\<bar>z\<bar> mod 60))"

definition format_rfc3339 :: "gotime \<Rightarrow> string" where
  "format_rfc3339 t =
     pad 4 (year_of t) @ ''-'' @ pad 2 (month_of t) @ ''-'' @ pad 2 (day_of t) @ ''T'' @
     pad 2 (hour_of t) @ '':'' @ pad 2 (minute_of t) @ '':'' @ pad 2 (second_of t) @
     format_zone (zone t (unix_sec t))"

lemma dec_one: "n < 10 \<Longrightarrow> dec n = [digit n]"
  by (subst dec.simps) simp

lemma dec_more: "\<not> n < 10 \<Longrightarrow> dec n = dec (n div 10) @ [digit (n mod 10)]"
  by (subst dec.simps) simp

lemma digit_0: "CHR ''0'' = digit 0"
  by code_simp

lemma pad2: "0 \<le> n \<Longrightarrow> n \<le> 99 \<Longrightarrow> pad 2 n = [digit (nat n div 10), digit (nat n mod 10)]"
  by (cases "n < 10") (simp_all add: pad_def Let_def dec_one dec_more digit_0 nat_less_iff)

lemma div_100: "k div 10 div 10 = k div (100::nat)" and div_1000: "k div 100 div 10 = k div (1000::nat)"
  by (simp_all add: div_mult2_eq [symmetric])

lemma pad4_nat:
  assumes "k \<le> 9999"
  shows "replicate (4 - length (dec k)) (CHR ''0'') @ dec k =
    [digit (k div 1000), digit (k div 100 mod 10), digit (k div 10 mod 10), digit (k mod 10)]"
proof -
  consider "k < 10" | "10 \<le> k" "k < 100" | "100 \<le> k" "k < 1000" | "1000 \<le> k" by linarith
  then show ?thesis
  proof cases
    case 1
    then show ?thesis unfolding digit_0 by (simp add: dec_one numeral_3_eq_3)
  next
    case 2
    then have "dec k = [digit (k div 10), digit (k mod 10)]"
      using dec_more [of k] dec_one [of "k div 10"] by simp
    moreover have "k div 10 < 10" using 2 by simp
    ultimately show ?thesis using 2 unfolding digit_0 by (simp add: numeral_2_eq_2)
  next
    case 3
    then have "dec k = [digit (k div 100), digit (k div 10 mod 10), digit (k mod 10)]"
      using dec_more [of k] dec_more [of "k div 10"] dec_one [of "k div 100"] by (simp add: div_100)
    moreover have "k div 100 < 10" using 3 by simp
    ultimately show ?thesis using 3 unfolding digit_0 by simp
  next
    case 4
    have "k div 1000 < 10" using assms by simp
    with 4 have "dec k = [digit (k div 1000), digit (k div 100 mod 10), digit (k div 10 mod 10), digit (k mod 10)]"
      using dec_more [of k] dec_more [of "k div 10"] dec_more [of "k div 100"] dec_one [of "k div 1000"]
      by (simp add: div_100 div_1000)
    then show ?thesis by simp
  qed
qed

lemma pad4:
  assumes "0 \<le> n" "n \<le> 9999"
  shows "pad 4 n = [digit (nat n div 1000), digit (nat n div 100 mod 10),
    digit (nat n div 10 mod 10), digit (nat n mod 10)]"
  using assms pad4_nat [of "nat n"] by (simp add: pad_def Let_def nat_le_iff)

lemma decimal4: "k = 1000 * (k div 1000) + 100 * (k div 100 mod 10) + 10 * (k div 10 mod 10) + k mod (10::nat)"
  using div_mult_mod_eq [of k 10] div_mult_mod_eq [of "k div 10" 10] div_mult_mod_eq [of "k div 100" 10]
  unfolding div_100 div_1000 by linarith

section \<open>Parsing\<close>

text \<open>Two digits; four digits; a fraction of a second after the seconds.\<close>

fun getnum2 :: "string \<Rightarrow> (int \<times> string) option" where
  "getnum2 (a # b # s) =
     (if is_digit a \<and> is_digit b then Some (int (10 * dval a + dval b), s) else None)"
| "getnum2 _ = None"

definition getyear :: "string \<Rightarrow> (int \<times> string) option" where
  "getyear s =
     (if 4 \<le> length s \<and> list_all is_digit (take 4 s)
      then Some (int (digits_val (take 4 s)), drop 4 s) else None)"

definition getfrac :: "string \<Rightarrow> (int \<times> string) option" where
  "getfrac s =
     (if 2 \<le> length s \<and> hd s = CHR ''.'' \<and> is_digit (s ! 1)
      then let ds = takeWhile is_digit (tl s); v = digits_val ds in
        if 1000000000 \<le> v then None
        else Some (int (v * 10 ^ (9 - length ds)), dropWhile is_digit (tl s))
      else Some (0, s))"

definition check :: "bool \<Rightarrow> 'a \<Rightarrow> 'a option" where
  "check b x = (if b then Some x else None)"

text \<open>\<open>time.Date(y, m, d, h, mi, s, f, time.UTC)\<close> once every field is in range.\<close>

definition date_utc :: "int \<Rightarrow> int \<Rightarrow> int \<Rightarrow> int \<Rightarrow> int \<Rightarrow> int \<Rightarrow> int \<Rightarrow> gotime option" where
  "date_utc y m d h mi s f =
     (if 1 \<le> m \<and> m \<le> 12 \<and> h < 24 \<and> mi < 60 \<and> s < 60 \<and> 1 \<le> d \<and> d \<le> days_in y m
      then Some \<lparr>ns = (days_of_date y m d * 86400 + h * 3600 + mi * 60 + s) * second + f, zone = utc\<rparr>
      else None)"

text \<open>\<open>time.Parse("20060102150405", v)\<close>; \<open>None\<close> is the error.\<close>

definition parse_window_time :: "string \<Rightarrow> gotime option" where
  "parse_window_time v =
     Option.bind (getyear v) (\<lambda>(y, v).
     Option.bind (getnum2 v) (\<lambda>(m, v).
     Option.bind (getnum2 v) (\<lambda>(d, v).
     Option.bind (getnum2 v) (\<lambda>(h, v).
     Option.bind (getnum2 v) (\<lambda>(mi, v).
     Option.bind (getnum2 v) (\<lambda>(s, v).
     Option.bind (getfrac v) (\<lambda>(f, v).
       if v = [] then date_utc y m d h mi s f else None)))))))"

text \<open>
  \<open>time.Parse(time.RFC3339, v)\<close> on the strings the window syntax admits, of the shape
  \<open>dddd-dd-ddTdd:dd:ddZ\<close>.
\<close>

definition parse_rfc_z :: "string \<Rightarrow> gotime option" where
  "parse_rfc_z v =
     Option.bind (getyear v) (\<lambda>(y, v).
     Option.bind (getnum2 (drop 1 v)) (\<lambda>(m, v).
     Option.bind (getnum2 (drop 1 v)) (\<lambda>(d, v).
     Option.bind (getnum2 (drop 1 v)) (\<lambda>(h, v).
     Option.bind (getnum2 (drop 1 v)) (\<lambda>(mi, v).
     Option.bind (getnum2 (drop 1 v)) (\<lambda>(s, v).
       date_utc y m d h mi s 0))))))"

lemma getnum2_pad:
  assumes "0 \<le> n" "n \<le> 99"
  shows "getnum2 (pad 2 n @ s) = Some (n, s)"
proof -
  have "nat n div 10 < 10" using assms by (simp add: nat_less_iff)
  then show ?thesis using assms by (simp add: pad2)
qed

lemma getyear_pad:
  assumes "0 \<le> n" "n \<le> 9999"
  shows "getyear (pad 4 n @ s) = Some (n, s)"
proof -
  have "nat n div 1000 < 10" using assms by (simp add: nat_less_iff)
  then have "getyear (pad 4 n @ s) = Some (int (1000 * (nat n div 1000) + 100 * (nat n div 100 mod 10)
      + 10 * (nat n div 10 mod 10) + nat n mod 10), s)"
    unfolding pad4 [OF assms] by (simp add: getyear_def digits_val_def algebra_simps)
  then show ?thesis using assms unfolding decimal4 [symmetric] by simp
qed

lemma getfrac_Nil [simp]: "getfrac [] = Some (0, [])"
  by (simp add: getfrac_def)

text \<open>
  Printing a time in the window layout and parsing the string yields the wall clock of the
  time, to the second, read as UTC: the zone is lost.
\<close>

lemma parse_window_format:
  assumes "0 \<le> year_of t" "year_of t \<le> 9999"
  shows "parse_window_time (format_window t) = Some \<lparr>ns = local_sec t * second, zone = utc\<rparr>"
proof -
  obtain y m d where dd: "date_of_days (local_day t) = (y, m, d)" by (cases "date_of_days (local_day t)")
  have v: "valid_date y m d" "days_of_date y m d = local_day t"
    using date_of_days_props [OF dd] by auto
  have eq: "year_of t = y" "month_of t = m" "day_of t = d"
    by (simp_all add: year_of_def month_of_def day_of_def dd)
  have b: "1 \<le> m" "m \<le> 12" "1 \<le> d" "d \<le> days_in y m" "d \<le> 31"
    using v(1) by (auto simp: valid_date_def days_in_def split: if_splits)
  have y: "0 \<le> y" "y \<le> 9999" using assms eq by auto
  note cb = clock_bounds [of t]
  have "parse_window_time (format_window t) =
    date_utc y m d (hour_of t) (minute_of t) (second_of t) 0"
    unfolding parse_window_time_def format_window_def eq
    using b y cb getnum2_pad [of "second_of t" "[]"] by (simp add: getyear_pad getnum2_pad)
  also have "\<dots> = Some \<lparr>ns = local_sec t * second, zone = utc\<rparr>"
    using b cb v(2) local_sec_split [of t] by (simp add: date_utc_def)
  finally show ?thesis .
qed

end
