(* ===== verification/Time_Util.thy ===== *)
theory Time_Util
  imports Float64 Go_Time_Format
begin

text \<open>
  \<open>pkg/metrics/costv2/util/timeutil.go\<close>: durations printed for Prometheus
  (\<open>DurationString\<close>, \<open>ResolutionStringAndSeconds\<close>), the duration parser lifted from Go's
  library with days and weeks added (\<open>ParseDuration\<close>), and the clock shift \<open>GetUTCTime\<close>.
  The lemmas give the value of the parser on any sequence of numbers and units, its errors
  on overflow, and the round trip between \<open>DurationString\<close> and \<open>ParseDuration\<close>.
\<close>

section \<open>Constants\<close>

definition SecsPerMin :: int where "SecsPerMin = 60"
definition SecsPerHour :: int where "SecsPerHour = 3600"
definition SecsPerDay :: int where "SecsPerDay = 86400"

definition Day :: duration where "Day = hour * 24"
definition Week :: duration where "Week = Day * 7"

lemmas unit_defs = SecsPerMin_def SecsPerHour_def SecsPerDay_def Day_def Week_def

section \<open>Printing durations\<close>

text \<open>
  \<open>int64(x)\<close> for a \<open>float64\<close> out of the \<open>int64\<close> range is implementation-dependent; on amd64 it
  is the least \<open>int64\<close>. \<open>d.Seconds()\<close> adds the whole seconds and the rest over \<open>1e9\<close>.
\<close>

definition trunc64 :: "f64 \<Rightarrow> int" where
  "trunc64 x = f64_to_int64 (\<lambda>_. minInt64) x"

definition Seconds :: "duration \<Rightarrow> f64" where
  "Seconds d = fadd (f64_of_int (quo d second)) (fdiv (f64_of_int (rmd d second)) (Fin 1000000000))"

definition DurationString :: "duration \<Rightarrow> string" where
  "DurationString d =
     (let durSecs = trunc64 (Seconds d) in
      if durSecs > 0 then
        if rmd durSecs SecsPerDay = 0 then itoa (quo durSecs SecsPerDay) @ ''d''
        else if rmd durSecs SecsPerHour = 0 then itoa (quo durSecs SecsPerHour) @ ''h''
        else if rmd durSecs SecsPerMin = 0 then itoa (quo durSecs SecsPerMin) @ ''m''
        else if durSecs > 0 then itoa durSecs @ ''s'' else []
      else [])"

definition ResolutionStringAndSeconds :: "duration \<Rightarrow> string \<times> string" where
  "ResolutionStringAndSeconds d =
     (let durSecs = trunc64 (Seconds d) in
      if durSecs > SecsPerHour then (''1h'', ''3600'')
      else if durSecs > SecsPerMin * 10 then (''10m'', ''600'')
      else if durSecs > SecsPerMin then (''1m'', ''60'')
      else if durSecs > 10 then (''10s'', ''10'')
      else (''1s'', ''1''))"

section \<open>The clock shift\<close>

text \<open>\<open>now\<close> is what \<open>time.Now()\<close> returned.\<close>

definition GetUTCTime :: "gotime \<Rightarrow> gotime \<Rightarrow> gotime" where
  "GetUTCTime now t =
     (let offHr = hour_of (in_utc now) - hour_of now in time_add t (dur_mul offHr hour))"

section \<open>Parsing durations\<close>

definition CleanDurationString :: "string \<Rightarrow> string" where
  "CleanDurationString duration = trim_prefix (trim_space duration) ''offset ''"

text \<open>The micro sign and the Greek letter mu are two bytes of UTF-8 each.\<close>

definition unitMap :: "(string, int) gomap" where
  "unitMap = map_of
     [(''ns'', 1), (''us'', microsecond), ([CHR 0xC2, CHR 0xB5, CHR ''s''], microsecond),
      ([CHR 0xCE, CHR 0xBC, CHR ''s''], microsecond), (''ms'', millisecond), (''s'', second),
      (''m'', minute), (''h'', hour), (''d'', Day), (''w'', Week)]"

definition hex_digit :: "nat \<Rightarrow> char" where
  "hex_digit n = ''0123456789abcdef'' ! n"

text \<open>
  \<open>quote\<close> walks the runes and escapes every byte of a rune that is not printable ASCII. All
  bytes of such a multi-byte rune, and every byte that is not UTF-8, are at least 128, so
  the walk escapes exactly the bytes below 32 and above 127.
\<close>

definition quote_byte :: "char \<Rightarrow> string" where
  "quote_byte c =
     (let b = of_char c :: nat in
      if 128 \<le> b \<or> b < 32 then [CHR 0x5C, CHR ''x'', hex_digit (b div 16), hex_digit (b mod 16)]
      else if c = CHR 0x22 \<or> c = CHR 0x5C then [CHR 0x5C, c]
      else [c])"

definition quote :: "string \<Rightarrow> string" where
  "quote s = CHR 0x22 # concat (map quote_byte s) @ [CHR 0x22]"

text \<open>\<open>leadingInt\<close> with the accumulator \<open>x\<close>; \<open>None\<close> is \<open>errLeadingInt\<close>.\<close>

fun leadingInt :: "int \<Rightarrow> string \<Rightarrow> (int \<times> string) option" where
  "leadingInt x [] = Some (x, [])"
| "leadingInt x (c # s) =
     (if \<not> is_digit c then Some (x, c # s)
      else if x > maxInt64 div 10 then None
      else let y = wrap64 (x * 10 + int (dval c)) in if y < 0 then None else leadingInt y s)"

fun leadingFraction :: "int \<Rightarrow> f64 \<Rightarrow> bool \<Rightarrow> string \<Rightarrow> int \<times> f64 \<times> string" where
  "leadingFraction x scale overflow [] = (x, scale, [])"
| "leadingFraction x scale overflow (c # s) =
     (if \<not> is_digit c then (x, scale, c # s)
      else if overflow then leadingFraction x scale overflow s
      else if x > maxInt64 div 10 then leadingFraction x scale True s
      else let y = wrap64 (x * 10 + int (dval c)) in
        if y < 0 then leadingFraction x scale True s
        else leadingFraction y (fmul scale (Fin 10)) overflow s)"

definition invalid_duration :: "string \<Rightarrow> error" where
  "invalid_duration orig = Err (''time: invalid duration '' @ quote orig)"

definition unit_char :: "char \<Rightarrow> bool" where
  "unit_char c \<longleftrightarrow> \<not> (c = CHR ''.'' \<or> is_digit c)"

text \<open>\<open>(\.[0-9]*)?\<close>: fraction, scale, the rest, and whether a digit was consumed.\<close>

definition fraction_part :: "string \<Rightarrow> int \<times> f64 \<times> string \<times> bool" where
  "fraction_part s =
     (if s \<noteq> [] \<and> hd s = CHR ''.''
      then let (f, scale, r) = leadingFraction 0 (Fin 1) False (tl s)
           in (f, scale, r, length (tl s) \<noteq> length r)
      else (0, Fin 1, s, False))"

text \<open>The unit and the value in nanoseconds, from the parts of one item.\<close>

definition item_value :: "string \<Rightarrow> int \<Rightarrow> int \<Rightarrow> f64 \<Rightarrow> string \<Rightarrow> int res" where
  "item_value orig v f scale u =
     (if u = [] then Inl (Err (''time: missing unit in duration '' @ quote orig))
      else case unitMap u of
        None \<Rightarrow> Inl (Err (''time: unknown unit '' @ quote u @ '' in duration '' @ quote orig))
      | Some unit \<Rightarrow>
          if v > quo maxInt64 unit then Inl (invalid_duration orig)
          else let v1 = wrap64 (v * unit) in
            if f > 0 then
              let v2 = wrap64 (v1 + trunc64 (fmul (f64_of_int f) (fdiv (f64_of_int unit) scale)))
              in if v2 < 0 then Inl (invalid_duration orig) else Inr v2
            else Inr v1)"

text \<open>One turn of the parser's loop: the value of the next item and what follows it.\<close>

definition duration_item :: "string \<Rightarrow> string \<Rightarrow> (int \<times> string) res" where
  "duration_item orig s =
     (if \<not> (s \<noteq> [] \<and> (hd s = CHR ''.'' \<or> is_digit (hd s))) then Inl (invalid_duration orig)
      else case leadingInt 0 s of
        None \<Rightarrow> Inl (invalid_duration orig)
      | Some (v, s1) \<Rightarrow>
          let pre = (length s \<noteq> length s1); (f, scale, s2, post) = fraction_part s1 in
          if \<not> pre \<and> \<not> post then Inl (invalid_duration orig)
          else and_then (item_value orig v f scale (takeWhile unit_char s2))
                 (\<lambda>n. Inr (n, dropWhile unit_char s2)))"

lemma leadingInt_length: "leadingInt x s = Some (v, r) \<Longrightarrow> length r \<le> length s"
  by (induction x s rule: leadingInt.induct) (auto simp: Let_def split: if_splits)

lemma leadingFraction_length: "leadingFraction x sc ov s = (f, sc', r) \<Longrightarrow> length r \<le> length s"
  by (induction x sc ov s rule: leadingFraction.induct) (auto simp: Let_def split: if_splits)

lemma fraction_part_length: "fraction_part s = (f, sc, r, p) \<Longrightarrow> length r \<le> length s"
  using leadingFraction_length [of 0 "Fin 1" False "tl s"]
  by (cases s) (auto simp: fraction_part_def split: if_splits prod.splits intro: le_SucI)

lemma duration_item_length:
  assumes "duration_item orig s = Inr (n, r)"
  shows "length r < length s"
proof -
  obtain v s1 where l: "leadingInt 0 s = Some (v, s1)"
    using assms by (auto simp: duration_item_def split: if_splits option.splits)
  obtain f sc s2 p where fp: "fraction_part s1 = (f, sc, s2, p)" by (cases "fraction_part s1")
  have "takeWhile unit_char s2 \<noteq> []" and r: "r = dropWhile unit_char s2"
    using assms l fp by (auto simp: duration_item_def item_value_def and_then_eq_Inr split: if_splits)
  moreover have "length (takeWhile unit_char s2) + length (dropWhile unit_char s2) = length s2"
    by (metis length_append takeWhile_dropWhile_id)
  ultimately show ?thesis
    using leadingInt_length [OF l] fraction_part_length [OF fp] by (cases "takeWhile unit_char s2") auto
qed

function duration_items :: "string \<Rightarrow> string \<Rightarrow> int \<Rightarrow> int res" where
  "duration_items orig s d =
     (if s = [] then Inr d
      else case duration_item orig s of
        Inl e \<Rightarrow> Inl e
      | Inr (v, r) \<Rightarrow>
          let d' = wrap64 (d + v) in
          if d' < 0 then Inl (invalid_duration orig) else duration_items orig r d')"
  by pat_completeness auto
termination
  by (relation "measure (\<lambda>(orig, s, d). length s)") (auto dest: duration_item_length)

declare duration_items.simps [simp del]

definition goParseDuration :: "string \<Rightarrow> duration res" where
  "goParseDuration orig =
     (let neg = (orig \<noteq> [] \<and> hd orig = CHR ''-'');
          s = (if orig \<noteq> [] \<and> (hd orig = CHR ''-'' \<or> hd orig = CHR ''+'') then tl orig else orig)
      in if s = ''0'' then Inr 0
         else if s = [] then Inl (invalid_duration orig)
         else and_then (duration_items orig s 0) (\<lambda>d. Inr (if neg then wrap64 (- d) else d)))"

definition ParseDuration :: "string \<Rightarrow> duration res" where
  "ParseDuration duration = goParseDuration (CleanDurationString duration)"

text \<open>The regular expression is a constant that compiles, so the error branch is dead.\<close>

definition IsValidDurationString :: "string \<Rightarrow> bool res" where
  "IsValidDurationString s =
     Inr (s \<noteq> [] \<and> last s \<in> set ''wdhms'' \<and> butlast s \<noteq> [] \<and> list_all is_digit (butlast s))"

section \<open>The parser on well-formed input\<close>

lemma leadingInt_step:
  assumes "0 \<le> x" "x \<le> maxInt64" "is_digit c"
  shows "leadingInt x (c # s) =
    (if x * 10 + int (dval c) \<le> maxInt64 then leadingInt (x * 10 + int (dval c)) s else None)"
proof -
  have dv: "dval c \<le> 9" using assms(3) by (auto simp: is_digit_def dval_def)
  show ?thesis
  proof (cases "x > maxInt64 div 10")
    case True
    then show ?thesis using assms by simp
  next
    case False
    then have "x * 10 \<le> maxInt64" "in64 (x * 10)" using assms by (auto simp: in64_def)
    then have "wrap64 (x * 10 + int (dval c)) < 0 \<longleftrightarrow> maxInt64 < x * 10 + int (dval c)"
      using assms(1) dv by (intro wrap64_add_neg_iff) (auto simp: in64_def)
    moreover have "x * 10 + int (dval c) \<le> maxInt64 \<Longrightarrow> wrap64 (x * 10 + int (dval c)) = x * 10 + int (dval c)"
      using assms(1) by (intro wrap64_id in64_bounds) auto
    ultimately show ?thesis using False assms(3) by (auto simp: Let_def)
  qed
qed

lemma leadingInt_digits:
  assumes "\<forall>c \<in> set ds. is_digit c" "r = [] \<or> \<not> is_digit (hd r)"
  shows "leadingInt 0 (ds @ r) =
    (if int (digits_val ds) \<le> maxInt64 then Some (int (digits_val ds), r) else None)"
proof -
  have "leadingInt (int n) (ds @ r) =
    (let m = foldl (\<lambda>n c. 10 * n + dval c) n ds in if int m \<le> maxInt64 then Some (int m, r) else None)"
    if "int n \<le> maxInt64" for n
    using assms(1) that
  proof (induction ds arbitrary: n)
    case Nil
    then show ?case using assms(2) by (cases r) auto
  next
    case (Cons c ds)
    have eq: "int n * 10 + int (dval c) = int (10 * n + dval c)" by simp
    have ge: "int (10 * n + dval c) \<le> int (foldl (\<lambda>n c. 10 * n + dval c) (10 * n + dval c) ds)"
      using foldl_digits_ge [of "10 * n + dval c" ds] by linarith
    show ?case
    proof (cases "int (10 * n + dval c) \<le> maxInt64")
      case True
      then show ?thesis
        using Cons.IH [OF _ True] Cons.prems leadingInt_step [of "int n" c "ds @ r"]
        unfolding eq by simp
    next
      case False
      then show ?thesis
        using Cons.prems ge leadingInt_step [of "int n" c "ds @ r"] unfolding eq
        by (simp add: Let_def)
    qed
  qed
  from this [of 0] show ?thesis by (simp add: digits_val_def Let_def)
qed

text \<open>Units: their characters end a number, and their sizes are positive.\<close>

lemma unitMap_props:
  assumes "unitMap u = Some k"
  shows "0 < k" "u \<noteq> []" "\<forall>c \<in> set u. unit_char c"
proof -
  have "list_all (\<lambda>(u, k). 0 < k \<and> u \<noteq> [] \<and> list_all unit_char u)
     [(''ns'', 1), (''us'', microsecond), ([CHR 0xC2, CHR 0xB5, CHR ''s''], microsecond),
      ([CHR 0xCE, CHR 0xBC, CHR ''s''], microsecond), (''ms'', millisecond), (''s'', second),
      (''m'', minute), (''h'', hour), (''d'', Day), (''w'', Week)]"
    by code_simp
  then have "0 < k \<and> u \<noteq> [] \<and> list_all unit_char u"
    using map_of_SomeD [OF assms [unfolded unitMap_def]] unfolding list_all_iff by blast
  then show "0 < k" "u \<noteq> []" "\<forall>c \<in> set u. unit_char c" by (auto simp: list_all_iff)
qed

lemma not_unit_char: "is_digit c \<Longrightarrow> \<not> unit_char c" "unit_char c \<Longrightarrow> c \<noteq> CHR ''.''"
  by (auto simp: unit_char_def)

lemma div_less_int_iff:
  fixes k m n :: int
  assumes "0 < k"
  shows "m div k < n \<longleftrightarrow> m < n * k"
proof
  assume "m div k < n"
  then have "(m div k + 1) * k \<le> n * k" using assms by (intro mult_right_mono) auto
  then show "m < n * k"
    using div_mult_mod_eq [of m k] pos_mod_bound [OF assms, of m] unfolding distrib_right by linarith
next
  assume l: "m < n * k"
  show "m div k < n"
  proof (rule ccontr)
    assume "\<not> m div k < n"
    then have "n * k \<le> m div k * k" using assms by (intro mult_right_mono) auto
    then show False using l div_mult_mod_eq [of m k] pos_mod_sign [OF assms, of m] by linarith
  qed
qed

text \<open>One item \<open>nu\<close> of a duration without fraction.\<close>

lemma duration_item_simple:
  assumes u: "unitMap u = Some k" and r: "r = [] \<or> is_digit (hd r)"
  shows "duration_item orig (dec n @ u @ r) =
    (if int n * k \<le> maxInt64 then Inr (int n * k, r) else Inl (invalid_duration orig))"
proof -
  note k = unitMap_props [OF u]
  have hd_digit: "is_digit (hd (dec n @ u @ r))"
    using dec_digits [of n] by (simp add: hd_append)
  have hd_unit: "unit_char (hd (u @ r))" using k by (simp add: hd_append)
  then have nd: "u @ r = [] \<or> \<not> is_digit (hd (u @ r))" using not_unit_char by blast
  have tw: "takeWhile unit_char (u @ r) = u" "dropWhile unit_char (u @ r) = r"
    using k(3) r not_unit_char(1) [of "hd r"]
    by (cases r; simp add: takeWhile_append2 dropWhile_append2)+
  have fp: "fraction_part (u @ r) = (0, Fin 1, u @ r, False)"
    using hd_unit not_unit_char(2) by (auto simp: fraction_part_def)
  have len: "length (dec n @ u @ r) \<noteq> length (u @ r)" by simp
  have "int n * k > maxInt64" if "int n > maxInt64"
    using that k(1) mult_left_mono [of 1 k "int n"] by linarith
  moreover have "int n > quo maxInt64 k \<longleftrightarrow> int n * k > maxInt64"
    using k(1) div_less_int_iff [of k maxInt64 "int n"] by simp
  moreover have "int n * k \<le> maxInt64 \<Longrightarrow> wrap64 (int n * k) = int n * k"
    using k(1) by (intro wrap64_id in64_bounds) auto
  ultimately show ?thesis
    using hd_digit leadingInt_digits [OF dec_digits nd, of n] len
    by (auto simp: duration_item_def fp tw item_value_def u k(2) Let_def)
qed

text \<open>A sequence of items, its text and its length in nanoseconds.\<close>

definition duration_text :: "(nat \<times> string) list \<Rightarrow> string" where
  "duration_text items = concat (map (\<lambda>(n, u). dec n @ u) items)"

definition duration_total :: "(nat \<times> string) list \<Rightarrow> int" where
  "duration_total items = (\<Sum>(n, u)\<leftarrow>items. int n * the (unitMap u))"

lemma duration_text_simps [simp]:
  "duration_text [] = []"
  "duration_text ((n, u) # items) = dec n @ u @ duration_text items"
  by (simp_all add: duration_text_def)

lemma duration_total_simps [simp]:
  "duration_total [] = 0"
  "duration_total ((n, u) # items) = int n * the (unitMap u) + duration_total items"
  by (simp_all add: duration_total_def)

lemma duration_text_hd:
  "items \<noteq> [] \<Longrightarrow> duration_text items \<noteq> [] \<and> is_digit (hd (duration_text items))"
proof (cases items)
  case (Cons x xs)
  then show ?thesis using dec_digits [of "fst x"] by (cases x) (simp add: hd_append)
qed simp

lemma duration_total_nonneg:
  "\<forall>(n, u) \<in> set items. unitMap u \<noteq> None \<Longrightarrow> 0 \<le> duration_total items"
proof (induction items)
  case (Cons x items)
  obtain n u where x: "x = (n, u)" by (cases x)
  with Cons.prems obtain k where "unitMap u = Some k" by auto
  with Cons x unitMap_props(1) [of u k] show ?case by simp
qed simp

lemma duration_items_text:
  assumes "\<forall>(n, u) \<in> set items. unitMap u \<noteq> None" "0 \<le> d" "d \<le> maxInt64"
  shows "duration_items orig (duration_text items) d =
    (if d + duration_total items \<le> maxInt64 then Inr (d + duration_total items)
     else Inl (invalid_duration orig))"
  using assms
proof (induction items arbitrary: d)
  case Nil
  then show ?case by (simp add: duration_items.simps)
next
  case (Cons nu items)
  obtain n u where nu [simp]: "nu = (n, u)" by (cases nu)
  from Cons.prems(1) obtain k where k: "unitMap u = Some k" by auto
  have rest: "\<forall>(n, u) \<in> set items. unitMap u \<noteq> None" using Cons.prems(1) by auto
  have hd: "duration_text items = [] \<or> is_digit (hd (duration_text items))"
    using duration_text_hd [of items] by (cases "items = []") auto
  have nn: "0 \<le> int n * k" "0 \<le> duration_total items"
    using unitMap_props(1) [OF k] duration_total_nonneg [OF rest] by auto
  note item = duration_item_simple [OF k hd, of orig n]
  have ne: "dec n @ u @ duration_text items \<noteq> []" by simp
  show ?case
  proof (cases "d + int n * k \<le> maxInt64")
    case True
    then have "wrap64 (d + int n * k) = d + int n * k" "int n * k \<le> maxInt64"
      using Cons.prems(2) nn by (auto intro!: wrap64_id in64_bounds)
    then show ?thesis
      using True Cons.IH [OF rest, of "d + int n * k"] Cons.prems(2) nn item k
      by (subst duration_items.simps) (simp add: ne Let_def add.assoc)
  next
    case False
    have "wrap64 (d + int n * k) < 0" if "int n * k \<le> maxInt64"
      using wrap64_add_neg_iff [of d "int n * k"] Cons.prems(2,3) nn that False
      by (auto simp: in64_bounds)
    then show ?thesis
      using False nn item k by (subst duration_items.simps) (simp add: ne Let_def)
  qed
qed

lemma goParseDuration_text:
  assumes "items \<noteq> []" "\<forall>(n, u) \<in> set items. unitMap u \<noteq> None"
  shows "goParseDuration (duration_text items) =
    (if duration_total items \<le> maxInt64 then Inr (duration_total items)
     else Inl (invalid_duration (duration_text items)))"
proof -
  let ?s = "duration_text items"
  have ne: "?s \<noteq> []" "is_digit (hd ?s)" using duration_text_hd [OF assms(1)] by auto
  have sgn: "hd ?s \<noteq> CHR ''-''" "hd ?s \<noteq> CHR ''+''" using ne(2) by (auto simp: is_digit_def)
  obtain n u items' where it: "items = (n, u) # items'" using assms(1) by (cases items) auto
  obtain k where "unitMap u = Some k" using assms(2) it by auto
  from unitMap_props(2) [OF this] have "2 \<le> length ?s"
    using dec_ne [of n] by (cases u; cases "dec n") (auto simp: it)
  then have "?s \<noteq> ''0''" by auto
  then show ?thesis
    using ne sgn duration_items_text [OF assms(2), of 0 ?s] by (simp add: goParseDuration_def Let_def)
qed

lemma CleanDurationString_text:
  assumes "unitMap u = Some k"
  shows "CleanDurationString (duration_text [(n, u)]) = duration_text [(n, u)]"
proof -
  let ?s = "dec n @ u"
  have h: "is_digit (hd ?s)" using dec_digits [of n] by (simp add: hd_append)
  have "u \<in> {u. unitMap u = Some k}" using assms by simp
  have "list_all (\<lambda>(u, k). last u \<notin> set white)
     [(''ns'', 1), (''us'', microsecond), ([CHR 0xC2, CHR 0xB5, CHR ''s''], microsecond),
      ([CHR 0xCE, CHR 0xBC, CHR ''s''], microsecond), (''ms'', millisecond), (''s'', second),
      (''m'', minute), (''h'', hour), (''d'', Day), (''w'', Week)]"
    by code_simp
  then have l: "last u \<notin> set white"
    using map_of_SomeD [OF assms [unfolded unitMap_def]] unfolding list_all_iff by blast
  have "hd ?s \<notin> set white" using h by (auto simp: white_def is_digit_def)
  then have "trim_space ?s = ?s"
    using l unitMap_props(2) [OF assms] unfolding trim_space_def by (intro trim_id) simp
  moreover have "\<not> has_prefix ?s ''offset ''"
    using h by (auto simp: has_prefix_iff is_digit_def simp del: hd_append2)
  ultimately show ?thesis by (simp add: CleanDurationString_def trim_prefix_def)
qed

section \<open>Whole seconds\<close>

lemma trunc64_Seconds:
  assumes "in64 (n * second)"
  shows "trunc64 (Seconds (n * second)) = n"
proof -
  have n: "\<bar>n\<bar> \<le> 9223372036" using assms by (auto simp: in64_def)
  have q: "quo (n * second) second = n" by (simp add: quo_def abs_mult sgn_mult mult_sgn_abs)
  have z: "fdiv (Fin 0) (Fin 1000000000) = Fin 0" by code_simp
  have "Seconds (n * second) = fadd (Fin (of_int n)) (Fin 0)"
    using n by (simp add: Seconds_def q rmd_def z f64_of_int_exact)
  also have "\<dots> = Fin (of_int n)"
    using n fits_int [of n] by (simp add: fadd_def round64_exact)
  finally show ?thesis
    using n by (auto simp: trunc64_def f64_to_int64_def trunc_rat_def in64_def)
qed

lemma DurationString_item:
  assumes "0 < n" "in64 (n * second)"
  obtains m u k where "DurationString (n * second) = dec (nat m) @ u" "unitMap u = Some k"
    "0 < m" "m * k = n * second"
proof -
  have t: "trunc64 (Seconds (n * second)) = n" by (rule trunc64_Seconds [OF assms(2)])
  have um: "unitMap ''d'' = Some Day" "unitMap ''h'' = Some hour" "unitMap ''m'' = Some minute"
    "unitMap ''s'' = Some second" by code_simp+
  have dv: "n mod k = 0 \<Longrightarrow> 0 < k \<Longrightarrow> 0 < n div k \<and> n div k * k = n" for k
    using assms(1) by (metis add.right_neutral div_mult_mod_eq less_le mult_zero_left pos_imp_zdiv_nonneg_iff)
  note def = DurationString_def [of "n * second", unfolded t Let_def unit_defs]
  consider "n mod 86400 = 0" | "n mod 86400 \<noteq> 0" "n mod 3600 = 0"
    | "n mod 86400 \<noteq> 0" "n mod 3600 \<noteq> 0" "n mod 60 = 0"
    | "n mod 86400 \<noteq> 0" "n mod 3600 \<noteq> 0" "n mod 60 \<noteq> 0" by blast
  then show ?thesis
  proof cases
    case 1
    note dv [OF this]
    then show ?thesis using that [of "n div 86400" "''d''" Day] 1 um assms(1)
      by (auto simp: def itoa_def Day_def)
  next
    case 2
    note dv [OF 2(2)]
    then show ?thesis using that [of "n div 3600" "''h''" hour] 2 um assms(1)
      by (auto simp: def itoa_def)
  next
    case 3
    note dv [OF 3(3)]
    then show ?thesis using that [of "n div 60" "''m''" minute] 3 um assms(1)
      by (auto simp: def itoa_def)
  next
    case 4
    then show ?thesis using that [of n "''s''" second] um assms(1)
      by (auto simp: def itoa_def)
  qed
qed

section \<open>The clock shift in a zone of whole minutes\<close>

lemma div_shift: "(a + k * b) div b = a div b + (k::int)" if "b \<noteq> 0"
  using that by simp

lemma hour_of_eq: "hour_of t = local_sec t div 3600 - 24 * local_day t"
proof -
  have "local_sec t mod 86400 = local_sec t + (- 24 * local_day t) * 3600"
    using div_mult_mod_eq [of "local_sec t" 86400] unfolding local_day_def by linarith
  then show ?thesis unfolding hour_of_def by (simp add: div_shift)
qed

lemma minute_of_eq: "minute_of t = local_sec t div 60 - 60 * (local_sec t div 3600)"
proof -
  have "local_sec t mod 3600 = local_sec t + (- 60 * (local_sec t div 3600)) * 60"
    using div_mult_mod_eq [of "local_sec t" 3600] by linarith
  then show ?thesis unfolding minute_of_def by (simp add: div_shift)
qed

text \<open>
  The difference of the UTC and local wall clocks, in minutes, is the negated offset plus a
  day for each day the local date is ahead.
\<close>

lemma clock_shift_minutes:
  assumes "zone t (unix_sec t) = 60 * m"
  shows "(minute_of (in_utc t) - minute_of t) + (hour_of (in_utc t) - hour_of t) * 60 =
    - m + 1440 * (local_day t - local_day (in_utc t))"
proof -
  have "local_sec t = unix_sec t + m * 60" using assms by (simp add: local_sec_def)
  then have "local_sec t div 60 = unix_sec t div 60 + m" by (simp add: div_shift)
  then show ?thesis unfolding hour_of_eq minute_of_eq by simp
qed

lemma clock_shift_hours:
  assumes "zone t (unix_sec t) = 3600 * h"
  shows "hour_of (in_utc t) - hour_of t = - h + 24 * (local_day t - local_day (in_utc t))"
proof -
  have "local_sec t = unix_sec t + h * 3600" using assms by (simp add: local_sec_def)
  then have "local_sec t div 3600 = unix_sec t div 3600 + h" by (simp add: div_shift)
  then show ?thesis unfolding hour_of_eq by simp
qed

section \<open>Properties\<close>

text \<open>
  C20. \<open>ParseDuration\<close> reads a sequence of numbers and units (such as \<open>2h45m\<close> or \<open>1w3d\<close>) as
  their sum in nanoseconds, for all the units of \<open>unitMap\<close> and whatever the number of items; when the
  sum leaves the \<open>int64\<close> range it is the error \<open>invalid duration\<close>, never a wrapped value.
\<close>

theorem ParseDuration_items:
  assumes "items \<noteq> []" "\<forall>(n, u) \<in> set items. unitMap u \<noteq> None"
    and "CleanDurationString s = duration_text items"
  shows "ParseDuration s =
    (if duration_total items \<le> maxInt64 then Inr (duration_total items)
     else Inl (Err (''time: invalid duration '' @ quote (duration_text items))))"
  using goParseDuration_text [OF assms(1,2)] assms(3)
  by (simp add: ParseDuration_def invalid_duration_def)

theorem ParseDuration_items_witness:
  "ParseDuration ''offset 2h45m'' = Inr (9900 * second)
   \<and> ParseDuration ''20000w'' = Inl (Err (''time: invalid duration '' @ quote ''20000w''))"
proof -
  have a: "[(2, ''h''), (45, ''m'')] \<noteq> []" "\<forall>(n, u) \<in> set [(2, ''h''), (45, ''m'')]. unitMap u \<noteq> None"
    "CleanDurationString ''offset 2h45m'' = duration_text [(2, ''h''), (45, ''m'')]" by code_simp+
  have d: "duration_text [(20000, ''w'')] = ''20000w''" by (simp add: dec_eval)
  have b: "[(20000, ''w'')] \<noteq> []" "\<forall>(n, u) \<in> set [(20000, ''w'')]. unitMap u \<noteq> None"
    "CleanDurationString ''20000w'' = duration_text [(20000, ''w'')]"
    by (code_simp, code_simp, unfold d, code_simp)
  have t: "duration_total [(2, ''h''), (45, ''m'')] = 9900 * second"
    "duration_total [(20000, ''w'')] = 12096000000000000000" by code_simp+
  show ?thesis using ParseDuration_items [OF a] ParseDuration_items [OF b] unfolding t d by simp
qed

text \<open>
  C21. Round trip: the string \<open>DurationString\<close> prints for a positive whole number of seconds is
  parsed back by \<open>ParseDuration\<close> to the same duration, although it is printed in the
  largest unit that divides it and the seconds pass through \<open>float64\<close>.
\<close>

theorem DurationString_roundtrip:
  assumes "0 < n" "in64 (n * second)"
  shows "ParseDuration (DurationString (n * second)) = Inr (n * second)"
proof -
  obtain m u k where mu: "DurationString (n * second) = dec (nat m) @ u" "unitMap u = Some k"
    "0 < m" "m * k = n * second" using DurationString_item [OF assms] .
  have d: "DurationString (n * second) = duration_text [(nat m, u)]" using mu(1) by simp
  have "CleanDurationString (DurationString (n * second)) = DurationString (n * second)"
    unfolding d using mu(2) by (rule CleanDurationString_text)
  moreover have "duration_total [(nat m, u)] = n * second" using mu by simp
  moreover have "n * second \<le> maxInt64" using assms(2) by (simp add: in64_def)
  ultimately show ?thesis
    using goParseDuration_text [of "[(nat m, u)]"] mu(2) unfolding ParseDuration_def d by simp
qed

theorem DurationString_roundtrip_witness:
  "ParseDuration (DurationString (604800 * second)) = Inr (604800 * second)"
  by (rule DurationString_roundtrip) (simp_all add: in64_def)

text \<open>
  \<open>GetUTCTime\<close> in a zone \<open>h\<close> hours east of UTC subtracts the offset from its argument, but
  only while the local date is the UTC date: on the hours of the day when the local date
  is ahead (behind), the result is 24 hours late (early), because the code subtracts
  hours of the day.
\<close>

theorem GetUTCTime_shift:
  assumes "zone now (unix_sec now) = 3600 * h"
  shows "ns (GetUTCTime now t) = ns t - h * hour + (local_day now - local_day (in_utc now)) * Day"
proof -
  have o: "hour_of (in_utc now) - hour_of now = - h + 24 * (local_day now - local_day (in_utc now))"
    by (rule clock_shift_hours [OF assms])
  have "\<bar>hour_of (in_utc now) - hour_of now\<bar> \<le> 23"
    using clock_bounds(1,2) [of now] clock_bounds(1,2) [of "in_utc now"] by linarith
  then have "dur_mul (hour_of (in_utc now) - hour_of now) hour = (hour_of (in_utc now) - hour_of now) * hour"
    unfolding dur_mul_def by (intro wrap64_id) (auto simp: in64_def abs_le_iff)
  then show ?thesis unfolding GetUTCTime_def Let_def o by (simp add: Day_def algebra_simps)
qed

theorem GetUTCTime_shift_witness:
  "ns (GetUTCTime \<lparr>ns = 82800 * second, zone = \<lambda>_. 28800\<rparr>
      \<lparr>ns = 82800 * second, zone = \<lambda>_. 28800\<rparr>) = 82800 * second + 16 * hour"
proof -
  have "local_day \<lparr>ns = 82800 * second, zone = \<lambda>_. 28800\<rparr> = 1"
    "local_day (in_utc \<lparr>ns = 82800 * second, zone = \<lambda>_. 28800\<rparr>) = 0" by code_simp+
  then show ?thesis
    using GetUTCTime_shift [of "\<lparr>ns = 82800 * second, zone = \<lambda>_. 28800\<rparr>" 8
        "\<lparr>ns = 82800 * second, zone = \<lambda>_. 28800\<rparr>"] by (simp add: Day_def)
qed

end
