(* ===== verification/Window_Model.thy ===== *)
theory Window_Model
  imports Time_Util
begin

text \<open>
  \<open>pkg/metrics/costv2/types/window.go\<close>: the time window of a cost query, its predicates, its
  JSON and label-selector texts, and the parser of window strings relative to a moment
  \<open>now\<close>. The regular expressions are read as recognisers of their languages. The lemmas
  give the start and end of each kind of window in a zone of whole minutes.
\<close>

section \<open>The window\<close>

record window =
  start :: "gotime option"
  "end" :: "gotime option"

definition NewWindow :: "gotime option \<Rightarrow> gotime option \<Rightarrow> window" where
  "NewWindow s e = \<lparr>start = s, end = e\<rparr>"

definition NewClosedWindow :: "gotime \<Rightarrow> gotime \<Rightarrow> window" where
  "NewClosedWindow s e = \<lparr>start = Some s, end = Some e\<rparr>"

definition IsOpen :: "window \<Rightarrow> bool" where
  "IsOpen w \<longleftrightarrow> start w = None \<or> end w = None"

definition IsNegative :: "window \<Rightarrow> bool" where
  "IsNegative w \<longleftrightarrow> \<not> IsOpen w \<and> before (the (end w)) (the (start w))"

definition Duration :: "window \<Rightarrow> duration" where
  "Duration w = (if IsOpen w then trunc64 PosInf else time_sub (the (end w)) (the (start w)))"

definition Equal :: "window \<Rightarrow> window \<Rightarrow> bool" where
  "Equal w that =
     (if start w \<noteq> None \<and> start that \<noteq> None \<and> \<not> time_equal (the (start w)) (the (start that)) then False
      else if end w \<noteq> None \<and> end that \<noteq> None \<and> \<not> time_equal (the (end w)) (the (end that)) then False
      else if start w = None \<and> start that \<noteq> None \<or> start w \<noteq> None \<and> start that = None then False
      else if end w = None \<and> end that \<noteq> None \<or> end w \<noteq> None \<and> end that = None then False
      else True)"

definition quoted :: "string \<Rightarrow> string" where
  "quoted s = CHR 0x22 # s @ [CHR 0x22]"

definition MarshalJSON :: "window \<Rightarrow> string" where
  "MarshalJSON w =
     ''{'' @
     (case start w of Some t \<Rightarrow> quoted ''start'' @ '':'' @ quoted (format_rfc3339 t) @ '',''
      | None \<Rightarrow> quoted ''start'' @ '':'' @ quoted ''null'' @ '','') @
     (case end w of Some t \<Rightarrow> quoted ''end'' @ '':'' @ quoted (format_rfc3339 t)
      | None \<Rightarrow> quoted ''end'' @ '':'' @ quoted ''null'') @
     ''}''"

definition WindowLayout :: string where
  "WindowLayout = ''20060102150405''"

definition GetLabelSelectorStr :: "window \<Rightarrow> string res" where
  "GetLabelSelectorStr w =
     and_then (deref (start w)) (\<lambda>s.
     and_then (deref (end w)) (\<lambda>e.
       Inr (''window_start='' @ format_window s @ '',window_end='' @ format_window e @
            '',window_layout='' @ WindowLayout)))"

section \<open>The regular expressions\<close>

text \<open>\<open>^(\d+)(m|h|d|w)$\<close>\<close>

definition durationRegex :: "string \<Rightarrow> (string \<times> char) option" where
  "durationRegex s =
     (let ds = takeWhile is_digit s in
      case dropWhile is_digit s of
        [u] \<Rightarrow> if ds \<noteq> [] \<and> u \<in> set ''mhdw'' then Some (ds, u) else None
      | _ \<Rightarrow> None)"

text \<open>\<open>^(\d+)(m|h|d|w) offset (\d+)(m|h|d|w)$\<close>\<close>

definition durationOffsetRegex :: "string \<Rightarrow> (string \<times> char \<times> string \<times> char) option" where
  "durationOffsetRegex s =
     (let ds = takeWhile is_digit s in
      case dropWhile is_digit s of
        u # r \<Rightarrow>
          if ds \<noteq> [] \<and> u \<in> set ''mhdw'' \<and> has_prefix r '' offset ''
          then map_option (\<lambda>(os, ou). (ds, u, os, ou)) (durationRegex (trim_prefix r '' offset ''))
          else None
      | [] \<Rightarrow> None)"

text \<open>\<open>^(\d+)[,|-](\d+)$\<close>\<close>

definition timestampPairRegex :: "string \<Rightarrow> (string \<times> string) option" where
  "timestampPairRegex s =
     (let ds = takeWhile is_digit s in
      case dropWhile is_digit s of
        c # r \<Rightarrow>
          if ds \<noteq> [] \<and> c \<in> set '',|-'' \<and> r \<noteq> [] \<and> list_all is_digit r then Some (ds, r) else None
      | [] \<Rightarrow> None)"

text \<open>\<open>rfc3339\<close> is 20 characters; the pair is searched for anywhere, the leftmost match wins.\<close>

definition rfc3339 :: "string \<Rightarrow> bool" where
  "rfc3339 s \<longleftrightarrow>
     list_all2 (\<lambda>p c. if p = CHR ''d'' then is_digit c else c = p) ''dddd-dd-ddTdd:dd:ddZ'' s"

fun rfcRegex :: "string \<Rightarrow> (string \<times> string) option" where
  "rfcRegex [] = None"
| "rfcRegex (c # s) =
     (if rfc3339 (take 20 (c # s)) \<and> has_prefix (drop 20 (c # s)) '','' \<and>
         rfc3339 (take 20 (drop 21 (c # s)))
      then Some (take 20 (c # s), take 20 (drop 21 (c # s)))
      else rfcRegex s)"

section \<open>Parsing\<close>

text \<open>The unit of a duration and, with the code's other factor for weeks, of an offset.\<close>

definition dur_unit :: "char \<Rightarrow> duration" where
  "dur_unit u =
     (if u = CHR ''w'' then Week else if u = CHR ''d'' then 24 * hour
      else if u = CHR ''h'' then hour else minute)"

definition off_unit :: "char \<Rightarrow> duration" where
  "off_unit u =
     (if u = CHR ''w'' then 24 * Week else if u = CHR ''d'' then 24 * hour
      else if u = CHR ''h'' then hour else minute)"

text \<open>\<open>offset\<close>, and \<open>now\<close> truncated to the day and shifted by it.\<close>

definition now_offset :: "gotime \<Rightarrow> duration" where
  "now_offset now =
     (let offHr = hour_of (in_utc now) - hour_of now;
          offMin = (minute_of (in_utc now) - minute_of now) + offHr * 60
      in dur_mul offMin minute)"

definition day_start :: "gotime \<Rightarrow> gotime" where
  "day_start now = time_add (truncate_to now (hour * 24)) (now_offset now)"

text \<open>\<open>start.Add(-24 * time.Hour * time.Duration(n))\<close>\<close>

definition days_back :: "int \<Rightarrow> gotime \<Rightarrow> gotime" where
  "days_back n t = time_add t (dur_mul (- 24 * hour) n)"

definition daysSinceMonday :: "gotime \<Rightarrow> int" where
  "daysSinceMonday t = rmd (weekday t + 6) 7"

definition parse_time_rfc :: "string \<Rightarrow> gotime" where
  "parse_time_rfc s = (case parse_rfc_z s of Some t \<Rightarrow> t | None \<Rightarrow> zero_time)"

definition parseWindow :: "string \<Rightarrow> gotime \<Rightarrow> window res" where
  "parseWindow window now =
     (if window = ''today'' then Inr (NewClosedWindow (day_start now) now)
      else if window = ''yesterday'' then
        let s = days_back 1 (day_start now) in Inr (NewClosedWindow s (time_add s (hour * 24)))
      else if window = ''week'' then
        let s = day_start now in Inr (NewClosedWindow (days_back (daysSinceMonday s) s) now)
      else if window = ''lastweek'' then
        let s = day_start now; s = days_back (daysSinceMonday s + 7) s
        in Inr (NewClosedWindow s (time_add s (7 * 24 * hour)))
      else if window = ''month'' then
        let s = day_start now in Inr (NewClosedWindow (days_back (day_of s - 1) s) now)
      else if window = ''lastmonth'' then
        let e = day_start now; e = days_back (day_of e - 1) e;
            s = time_add e (- 24 * hour)
        in Inr (NewClosedWindow (days_back (day_of s - 1) s) e)
      else case durationRegex window of
        Some (ds, u) \<Rightarrow>
          let num = fst (parse_int ds);
              s = time_add now (dur_mul (dur_neg num) (dur_unit u));
              s = (if u = CHR ''d'' \<or> u = CHR ''w''
                   then time_add (time_add (truncate_to s Day) Day) (now_offset now) else s)
          in Inr (NewClosedWindow s now)
      | None \<Rightarrow> (case durationOffsetRegex window of
        Some (ds, u, os, ou) \<Rightarrow>
          let offNum = fst (parse_int os);
              e = time_add now (dur_mul (dur_neg offNum) (off_unit ou));
              durNum = fst (parse_int ds)
          in Inr (NewClosedWindow (time_add e (dur_mul (dur_neg durNum) (dur_unit u))) e)
      | None \<Rightarrow> (case timestampPairRegex window of
        Some (a, b) \<Rightarrow>
          Inr (NewClosedWindow (unix_utc (fst (parse_int a))) (unix_utc (fst (parse_int b))))
      | None \<Rightarrow> (case rfcRegex window of
        Some (a, b) \<Rightarrow> Inr (NewClosedWindow (parse_time_rfc a) (parse_time_rfc b))
      | None \<Rightarrow> Inl (Err (''illegal window: '' @ window))))))"

text \<open>\<open>now\<close> is what \<open>time.Now()\<close> returned.\<close>

definition ParseWindowWithOffset :: "gotime \<Rightarrow> string \<Rightarrow> duration \<Rightarrow> window res" where
  "ParseWindowWithOffset now window offset =
     (let loc = (\<lambda>_. trunc64 (Seconds offset)) in parseWindow window (now\<lparr>zone := loc\<rparr>))"

definition ParseWindow :: "gotime \<Rightarrow> string \<Rightarrow> window res" where
  "ParseWindow now window =
     and_then (parseWindow window now) (\<lambda>w.
       Inr (w\<lparr>start := map_option (\<lambda>t. truncate_to t second) (start w),
              end := map_option (\<lambda>t. truncate_to t second) (end w)\<rparr>))"

section \<open>Calendar arithmetic\<close>

lemma div_pred:
  fixes y k :: int
  assumes "1 < k"
  shows "(y - 1) div k = y div k - (if y mod k = 0 then 1 else 0)"
proof -
  have y: "y - 1 = (y mod k - 1) + (y div k) * k" using div_mult_mod_eq [of y k] by linarith
  have "(y - 1) div k = (y mod k - 1) div k + y div k" unfolding y by (rule div_shift) (use assms in simp)
  moreover have "(y mod k - 1) div k = (if y mod k = 0 then - 1 else 0)"
  proof (cases "y mod k = 0")
    case True
    have "(- 1) div k = - 1" using assms by (simp add: div_eq_minus1)
    with True show ?thesis by simp
  next
    case False
    then have "0 \<le> y mod k - 1" "y mod k - 1 < k"
      using pos_mod_sign [of k y] pos_mod_bound [of k y] assms by linarith+
    with False show ?thesis by simp
  qed
  ultimately show ?thesis by simp
qed

text \<open>Days before 1 March of the year \<open>y\<close>.\<close>

definition year_days :: "int \<Rightarrow> int" where
  "year_days y = 365 * y + y div 4 - y div 100 + y div 400"

lemma year_days_split:
  "(y div 400) * 146097 + (y mod 400 * 365 + y mod 400 div 4 - y mod 400 div 100) = year_days y"
proof -
  define e r where "e = y div 400" and "r = y mod 400"
  have y: "y = r + e * 100 * 4" "y = r + e * 4 * 100" "y = r + e * 400" unfolding e_def r_def by simp_all
  have "y div 4 = r div 4 + e * 100" unfolding y(1) by (rule div_shift) simp
  moreover have "y div 100 = r div 100 + e * 4" unfolding y(2) by (rule div_shift) simp
  ultimately show ?thesis
    unfolding year_days_def e_def [symmetric] r_def [symmetric] using y(3) by linarith
qed

lemma leap_count:
  fixes y :: int
  assumes "a' = a - (if P then 1 else 0)" "b' = b - (if Q then 1 else 0)"
    "c' = c - (if R then 1 else 0)" "Q \<Longrightarrow> P" "R \<Longrightarrow> Q"
  shows "365 * (y - 1) + a' - b' + c' = 365 * y + a - b + c - (if P \<and> (\<not> Q \<or> R) then 366 else 365)"
  unfolding assms(1-3) using assms(4,5) by (cases P; cases Q; cases R) simp_all

lemma year_days_pred: "year_days (y - 1) = year_days y - (if is_leap y then 366 else 365)"
  unfolding year_days_def is_leap_def
proof (rule leap_count)
  show "y mod 100 = 0 \<Longrightarrow> y mod 4 = 0" using mod_mod_cancel [of 4 100 y] by auto
  show "y mod 400 = 0 \<Longrightarrow> y mod 100 = 0" using mod_mod_cancel [of 100 400 y] by auto
qed (rule div_pred; simp)+

lemma days_of_date_eq:
  "days_of_date y m d = year_days (if m \<le> 2 then y - 1 else y) + (153 * ((m + 9) mod 12) + 2) div 5 + d - 719469"
  unfolding days_of_date_def Let_def using year_days_split [of "if m \<le> 2 then y - 1 else y"] by simp

text \<open>The month before a month, and the day before its first day.\<close>

definition prev_month :: "int \<Rightarrow> int \<Rightarrow> int \<times> int" where
  "prev_month y m = (if m = 1 then (y - 1, 12) else (y, m - 1))"

lemma month_range: "1 \<le> m \<Longrightarrow> m \<le> 12 \<Longrightarrow> m \<in> {1, 2, 3, 4, 5, 6, 7, 8, 9, 10, 11, 12 :: int}"
  by (simp add: atLeastAtMost_iff) presburger

lemma day_before_month:
  assumes "1 \<le> m" "m \<le> 12" "prev_month y m = (y', m')"
  shows "days_of_date y m 1 - 1 = days_of_date y' m' (days_in y' m')" "valid_date y' m' (days_in y' m')"
proof -
  show "days_of_date y m 1 - 1 = days_of_date y' m' (days_in y' m')"
    using month_range [OF assms(1,2)] assms(3)
    by (elim insertE emptyE) (auto simp: prev_month_def days_of_date_eq days_in_def year_days_pred)
  have "1 \<le> m'" "m' \<le> 12" using assms by (auto simp: prev_month_def split: if_splits)
  then show "valid_date y' m' (days_in y' m')" by (auto simp: valid_date_def days_in_def)
qed

lemma date_before_month:
  assumes "1 \<le> m" "m \<le> 12" "prev_month y m = (y', m')"
  shows "date_of_days (days_of_date y m 1 - 1) = (y', m', days_in y' m')"
  using day_before_month [OF assms] date_of_days_of_date by simp

lemma days_of_date_first: "days_of_date y m d - (d - 1) = days_of_date y m 1"
  by (simp add: days_of_date_eq)

section \<open>Midnights\<close>

text \<open>
  The midnight that starts day \<open>D\<close> by the offset in force at \<open>now\<close>, as the code reckons it: the local midnight of
  that day unless the zone changes its offset in between.
\<close>

definition local_midnight :: "gotime \<Rightarrow> int \<Rightarrow> gotime" where
  "local_midnight now D = now\<lparr>ns := (86400 * D - zone now (unix_sec now)) * second\<rparr>"

lemma truncate_to_day: "ns (truncate_to t Day) = local_day (in_utc t) * Day"
proof -
  have "ns t div (24 * hour) = ns t div second div 86400"
    by (simp add: zdiv_zmult2_eq [symmetric])
  then have "ns t div (24 * hour) = local_day (in_utc t)" by (simp add: local_day_def unix_sec_def)
  then show ?thesis
    using truncate_day [of t] div_mult_mod_eq [of "ns t" "24 * hour"] by (simp add: Day_def)
qed

lemma now_offset_eq:
  assumes "zone now (unix_sec now) = 60 * m"
  shows "now_offset now = (- m + 1440 * (local_day now - local_day (in_utc now))) * minute"
proof -
  have "\<bar>(minute_of (in_utc now) - minute_of now) + (hour_of (in_utc now) - hour_of now) * 60\<bar> \<le> 1439"
  proof (rule abs_leI)
    note b = clock_bounds [of now] clock_bounds [of "in_utc now"]
    show "(minute_of (in_utc now) - minute_of now) + (hour_of (in_utc now) - hour_of now) * 60 \<le> 1439"
      using b by (simp del: in_utc_simps)
    show "- ((minute_of (in_utc now) - minute_of now) + (hour_of (in_utc now) - hour_of now) * 60) \<le> 1439"
      using b by (simp del: in_utc_simps)
  qed
  then show ?thesis
    unfolding now_offset_def Let_def dur_mul_def clock_shift_minutes [OF assms]
    by (intro wrap64_id) (auto simp: in64_def abs_le_iff)
qed

text \<open>Truncating to the UTC day \<open>k\<close> days ago and shifting gives a local midnight.\<close>

lemma truncate_shift:
  assumes "zone now (unix_sec now) = 60 * m"
    and "zone t = zone now" "local_day (in_utc t) = local_day (in_utc now) - k"
  shows "time_add (truncate_to t Day) (now_offset now) = local_midnight now (local_day now - k)"
proof (rule gotime.equality)
  show "ns (time_add (truncate_to t Day) (now_offset now)) = ns (local_midnight now (local_day now - k))"
    unfolding time_add_simps truncate_to_day now_offset_eq [OF assms(1)] assms(3)
    by (simp add: local_midnight_def assms(1) Day_def algebra_simps)
qed (simp_all add: local_midnight_def assms(2))

lemma day_start_eq:
  assumes "zone now (unix_sec now) = 60 * m"
  shows "day_start now = local_midnight now (local_day now)"
  using truncate_shift [OF assms, of now 0] by (simp add: day_start_def Day_def)

lemma days_back_midnight:
  assumes "\<bar>n\<bar> \<le> 100000"
  shows "days_back n (local_midnight now D) = local_midnight now (D - n)"
proof -
  have "dur_mul (- 24 * hour) n = - 24 * hour * n"
    unfolding dur_mul_def using assms by (intro wrap64_id) (auto simp: in64_def abs_le_iff)
  then show ?thesis by (simp add: days_back_def local_midnight_def time_add_def algebra_simps)
qed

lemma midnight_add: "time_add (local_midnight now D) (d * (24 * hour)) = local_midnight now (D + d)"
  by (simp add: local_midnight_def time_add_def algebra_simps)

lemma local_day_midnight:
  assumes "zone now = (\<lambda>_. off)"
  shows "local_day (local_midnight now D) = D"
  using assms by (simp add: local_day_def local_sec_def unix_sec_def local_midnight_def)

lemma midnight_unchanged:
  assumes "zone now = (\<lambda>_. off)"
  shows "local_sec (local_midnight now D) = 86400 * D"
  using assms by (simp add: local_sec_def unix_sec_def local_midnight_def)

section \<open>Duration strings\<close>

lemma durationRegex_dec:
  assumes "u \<in> set ''mhdw''"
  shows "durationRegex (dec n @ [u]) = Some (dec n, u)"
proof -
  have "\<not> is_digit u" using assms by (auto simp: is_digit_def)
  then have "takeWhile is_digit (dec n @ [u]) = dec n" "dropWhile is_digit (dec n @ [u]) = [u]"
    using dec_digits [of n] by (simp_all add: takeWhile_append2 dropWhile_append2)
  then show ?thesis using assms by (simp add: durationRegex_def Let_def)
qed

lemma parse_int_dec: "int n \<le> maxInt64 \<Longrightarrow> parse_int (dec n) = (int n, None)"
  using parse_int_itoa [of "int n"] by (simp add: itoa_def in64_bounds)

lemma digits_not_named:
  assumes "is_digit (hd s)"
  shows "s \<noteq> ''today''" "s \<noteq> ''yesterday''" "s \<noteq> ''week''" "s \<noteq> ''lastweek''" "s \<noteq> ''month''"
    "s \<noteq> ''lastmonth''"
  using assms by (auto simp: is_digit_def)

lemma dec_hd: "is_digit (hd (dec n @ s))"
  using dec_digits [of n] by (simp add: hd_append)

lemma parseWindow_digits:
  assumes "is_digit (hd s)"
  shows "parseWindow s now =
    (case durationRegex s of
        Some (ds, u) \<Rightarrow>
          let num = fst (parse_int ds);
              s = time_add now (dur_mul (dur_neg num) (dur_unit u));
              s = (if u = CHR ''d'' \<or> u = CHR ''w''
                   then time_add (time_add (truncate_to s Day) Day) (now_offset now) else s)
          in Inr (NewClosedWindow s now)
      | None \<Rightarrow> (case durationOffsetRegex s of
        Some (ds, u, os, ou) \<Rightarrow>
          let offNum = fst (parse_int os);
              e = time_add now (dur_mul (dur_neg offNum) (off_unit ou));
              durNum = fst (parse_int ds)
          in Inr (NewClosedWindow (time_add e (dur_mul (dur_neg durNum) (dur_unit u))) e)
      | None \<Rightarrow> (case timestampPairRegex s of
        Some (a, b) \<Rightarrow>
          Inr (NewClosedWindow (unix_utc (fst (parse_int a))) (unix_utc (fst (parse_int b))))
      | None \<Rightarrow> (case rfcRegex s of
        Some (a, b) \<Rightarrow> Inr (NewClosedWindow (parse_time_rfc a) (parse_time_rfc b))
      | None \<Rightarrow> Inl (Err (''illegal window: '' @ s))))))"
  unfolding parseWindow_def by (simp only: digits_not_named [OF assms] if_False)

lemma parseWindow_duration:
  assumes "u \<in> set ''mhdw''" "int n \<le> maxInt64"
  shows "parseWindow (dec n @ [u]) now =
    (let s = time_add now (dur_mul (dur_neg (int n)) (dur_unit u)) in
     Inr (NewClosedWindow (if u = CHR ''d'' \<or> u = CHR ''w''
       then time_add (time_add (truncate_to s Day) Day) (now_offset now) else s) now))"
  by (simp only: parseWindow_digits [OF dec_hd] durationRegex_dec [OF assms(1)] parse_int_dec [OF assms(2)]
      Let_def option.case prod.case fst_conv)

text \<open>A day window whose length does not overflow starts at a local midnight.\<close>

lemma duration_days:
  assumes "zone now (unix_sec now) = 60 * m" "0 \<le> k" "k \<le> 106751" "d = - (k * Day)"
  shows "time_add (time_add (truncate_to (time_add now d) Day) Day) (now_offset now) =
    local_midnight now (local_day now - (k - 1))"
proof -
  have "ns (time_add now d) div second = ns now div second + (- k * 86400)"
    using div_shift [of second "ns now" "- k * 86400"] by (simp add: assms(4) Day_def)
  then have "local_day (in_utc (time_add now d)) = local_day (in_utc now) - k"
    using div_shift [of 86400 "unix_sec now" "- k"] by (simp add: local_day_def unix_sec_def)
  then have "time_add (truncate_to (time_add now d) Day) (now_offset now) =
      local_midnight now (local_day now - k)"
    by (intro truncate_shift [OF assms(1)]) simp_all
  moreover have "time_add (time_add t Day) o' = time_add (time_add t o') (1 * (24 * hour))" for t o'
    by (simp add: time_add_def Day_def)
  ultimately show ?thesis by (simp only: midnight_add) (simp add: algebra_simps)
qed

lemma dur_mul_neg:
  assumes "in64 (n * d)" "0 \<le> n" "n \<le> maxInt64" "0 < d"
  shows "dur_mul (dur_neg n) d = - (n * d)"
proof -
  have "in64 (- n)" using assms by (simp add: in64_def)
  moreover have "in64 (- (n * d))"
    using assms mult_nonneg_nonneg [of n d] unfolding in64_def by linarith
  ultimately show ?thesis by (simp add: dur_mul_def dur_neg_def)
qed

lemma durationOffsetRegex_dec:
  assumes "u \<in> set ''mhdw''" "v \<in> set ''mhdw''"
  shows "durationOffsetRegex (dec a @ [u] @ '' offset '' @ dec b @ [v]) = Some (dec a, u, dec b, v)"
    and "durationRegex (dec a @ [u] @ '' offset '' @ dec b @ [v]) = None"
proof -
  let ?r = "[u] @ '' offset '' @ dec b @ [v]"
  have "\<not> is_digit u" using assms(1) by (auto simp: is_digit_def)
  then have tw: "takeWhile is_digit (dec a @ ?r) = dec a" "dropWhile is_digit (dec a @ ?r) = ?r"
    using dec_digits [of a] by (simp_all add: takeWhile_append2 dropWhile_append2)
  have "trim_prefix ('' offset '' @ dec b @ [v]) '' offset '' = dec b @ [v]"
    by (rule trim_prefix_append)
  then show "durationOffsetRegex (dec a @ ?r) = Some (dec a, u, dec b, v)"
    using assms(1) has_prefix_append [of "'' offset ''" "dec b @ [v]"]
    unfolding durationOffsetRegex_def Let_def tw
    by (simp add: durationRegex_dec [OF assms(2)] del: append_Cons append_Nil)
      (simp add: durationRegex_dec [OF assms(2)] has_prefix_def trim_prefix_def)
  show "durationRegex (dec a @ ?r) = None"
    unfolding durationRegex_def Let_def tw by simp
qed

text \<open>The Monday of the week of day \<open>D\<close>.\<close>

definition monday :: "int \<Rightarrow> int" where
  "monday D = D - (D + 3) mod 7"

lemma daysSinceMonday_midnight:
  assumes "zone now = (\<lambda>_. off)"
  shows "daysSinceMonday (local_midnight now D) = (D + 3) mod 7"
proof -
  have "((D + 4) mod 7 + 6) mod 7 = (D + 4 + 6) mod 7" by (rule mod_add_left_eq)
  also have "\<dots> = (D + 3 + 1 * 7) mod 7" by simp
  also have "\<dots> = (D + 3) mod 7" by (rule mod_mult_self1)
  finally show ?thesis
    by (simp add: daysSinceMonday_def weekday_def local_day_midnight [OF assms] rmd_nonneg)
qed

lemma monday_props: "(monday D + 4) mod 7 = 1" "monday D \<le> D" "D < monday D + 7"
proof -
  have "monday D + 4 = 1 + ((D + 3) div 7) * 7"
    using div_mult_mod_eq [of "D + 3" 7] unfolding monday_def by linarith
  then show "(monday D + 4) mod 7 = 1" by (simp only: mod_mult_self1) simp
  show "monday D \<le> D" "D < monday D + 7"
    using pos_mod_sign [of 7 "D + 3"] pos_mod_bound [of 7 "D + 3"] by (simp_all add: monday_def)
qed

section \<open>Properties\<close>

text \<open>
  C17. Day windows in a zone whose offset at \<open>now\<close> is in whole minutes. \<open>today\<close> runs from the midnight that started
  the local day of \<open>now\<close> to \<open>now\<close>; \<open>yesterday\<close> is the day before; \<open>kd\<close> runs from
  the midnight that started the day \<open>k - 1\<close> days ago to \<open>now\<close>. The midnights are those of the offset in force at \<open>now\<close>, which in a
  zone that never changes its offset are the local ones; they are not those of UTC, nor does the window end at one, as the
  comment on \<open>the past X days\<close> has it. The truncation is to UTC days, so
  this needs the offset the code adds to correct the date as well as the clock.
\<close>

theorem parseWindow_days:
  assumes "zone now (unix_sec now) = 60 * m" "k \<le> 106751"
  defines "D \<equiv> local_day now"
  shows "parseWindow ''today'' now = Inr (NewClosedWindow (local_midnight now D) now)
    \<and> parseWindow ''yesterday'' now =
        Inr (NewClosedWindow (local_midnight now (D - 1)) (local_midnight now D))
    \<and> parseWindow (dec k @ ''d'') now =
        Inr (NewClosedWindow (local_midnight now (D - (int k - 1))) now)
    \<and> (if zone now = (\<lambda>_. 60 * m) then local_sec (local_midnight now (D - (int k - 1))) = 86400 * (D - (int k - 1)) else True)"
proof (intro conjI)
  show "parseWindow ''today'' now = Inr (NewClosedWindow (local_midnight now D) now)"
    by (simp add: parseWindow_def day_start_eq [OF assms(1)] D_def)
  show "parseWindow ''yesterday'' now =
      Inr (NewClosedWindow (local_midnight now (D - 1)) (local_midnight now D))"
    using midnight_add [of now "D - 1" 1]
    by (simp add: parseWindow_def day_start_eq [OF assms(1)] days_back_midnight Let_def D_def)
  have "in64 (int k * Day)" using assms(2) by (simp add: in64_def Day_def)
  then have "dur_mul (dur_neg (int k)) Day = - (int k * Day)"
    using assms(2) by (intro dur_mul_neg) (simp_all add: Day_def)
  then show "parseWindow (dec k @ ''d'') now =
      Inr (NewClosedWindow (local_midnight now (D - (int k - 1))) now)"
    using duration_days [OF assms(1), of "int k" "- (int k * Day)"] parseWindow_duration [of "CHR ''d''" k now] assms(2)
    by (simp add: dur_unit_def Day_def D_def)
  show "if zone now = (\<lambda>_. 60 * m) then local_sec (local_midnight now (D - (int k - 1))) = 86400 * (D - (int k - 1)) else True"
    using midnight_unchanged by simp
qed

theorem parseWindow_days_witness:
  "parseWindow ''today'' \<lparr>ns = 82800 * second, zone = \<lambda>_. 28800\<rparr> =
     Inr (NewClosedWindow (local_midnight \<lparr>ns = 82800 * second, zone = \<lambda>_. 28800\<rparr> 1)
       \<lparr>ns = 82800 * second, zone = \<lambda>_. 28800\<rparr>)"
proof -
  have "local_day \<lparr>ns = 82800 * second, zone = \<lambda>_. 28800\<rparr> = 1" by code_simp
  then show ?thesis
    using parseWindow_days [of "\<lparr>ns = 82800 * second, zone = \<lambda>_. 28800\<rparr>" 480 7] by simp
qed

text \<open>
  C18. Week windows in a fixed zone of whole minutes: \<open>week\<close> starts at the local midnight of the
  Monday of the current week (a day at most six days before the local day) and ends at
  \<open>now\<close>; \<open>lastweek\<close> is the seven days before that Monday.
\<close>

theorem parseWindow_weeks:
  assumes "zone now = (\<lambda>_. 60 * m)"
  defines "M \<equiv> monday (local_day now)"
  shows "weekday (local_midnight now M) = 1 \<and> M \<le> local_day now \<and> local_day now < M + 7
    \<and> parseWindow ''week'' now = Inr (NewClosedWindow (local_midnight now M) now)
    \<and> parseWindow ''lastweek'' now =
        Inr (NewClosedWindow (local_midnight now (M - 7)) (local_midnight now M))"
proof (intro conjI)
  have off: "zone now (unix_sec now) = 60 * m" by (simp add: assms(1))
  note ds = day_start_eq [OF off] daysSinceMonday_midnight [OF assms(1)]
  have r: "\<bar>(local_day now + 3) mod 7\<bar> \<le> 100000" "\<bar>(local_day now + 3) mod 7 + 7\<bar> \<le> 100000"
    using pos_mod_sign [of 7 "local_day now + 3"] pos_mod_bound [of 7 "local_day now + 3"] by linarith+
  show "weekday (local_midnight now M) = 1"
    using monday_props(1) by (simp add: weekday_def local_day_midnight [OF assms(1)] M_def)
  show "M \<le> local_day now" "local_day now < M + 7" unfolding M_def by (rule monday_props)+
  show "parseWindow ''week'' now = Inr (NewClosedWindow (local_midnight now M) now)"
    by (simp add: parseWindow_def Let_def ds days_back_midnight [OF r(1)] M_def monday_def)
  show "parseWindow ''lastweek'' now =
      Inr (NewClosedWindow (local_midnight now (M - 7)) (local_midnight now M))"
    using midnight_add [of now "M - 7" 7]
    by (simp add: parseWindow_def Let_def ds days_back_midnight [OF r(2)] M_def monday_def diff_diff_eq [symmetric])
qed

theorem parseWindow_weeks_witness:
  "parseWindow ''week'' \<lparr>ns = 82800 * second, zone = \<lambda>_. 28800\<rparr> =
     Inr (NewClosedWindow (local_midnight \<lparr>ns = 82800 * second, zone = \<lambda>_. 28800\<rparr> (- 3))
       \<lparr>ns = 82800 * second, zone = \<lambda>_. 28800\<rparr>)"
proof -
  have "monday (local_day \<lparr>ns = 82800 * second, zone = \<lambda>_. 28800\<rparr>) = - 3" by code_simp
  then show ?thesis
    using parseWindow_weeks [of "\<lparr>ns = 82800 * second, zone = \<lambda>_. 28800\<rparr>" 480] by simp
qed

text \<open>
  C19. Month windows in a fixed zone of whole minutes: \<open>month\<close> starts at the local midnight of the
  first day of the current month; \<open>lastmonth\<close> is exactly the previous calendar month, its
  first day included and its end the first of the current month, leap years and the
  change of year included.
\<close>

theorem parseWindow_months:
  assumes "zone now = (\<lambda>_. 60 * m)"
    and "prev_month (year_of now) (month_of now) = (y', m')"
  defines "F \<equiv> days_of_date (year_of now) (month_of now) 1"
  shows "parseWindow ''month'' now = Inr (NewClosedWindow (local_midnight now F) now)
    \<and> parseWindow ''lastmonth'' now =
        Inr (NewClosedWindow (local_midnight now (days_of_date y' m' 1)) (local_midnight now F))
    \<and> F = days_of_date y' m' 1 + days_in y' m'"
proof -
  define D where "D = local_day now"
  obtain y mo d where dd: "date_of_days D = (y, mo, d)" by (cases "date_of_days D")
  have ymd: "year_of now = y" "month_of now = mo" using dd by (simp_all add: year_of_def month_of_def D_def)
  have v: "valid_date y mo d" "days_of_date y mo d = D" using date_of_days_props [OF dd] by auto
  have b: "1 \<le> mo" "mo \<le> 12" "1 \<le> d" "d \<le> 31"
    using v(1) by (auto simp: valid_date_def days_in_def split: if_splits)
  have F: "D - (d - 1) = F" using days_of_date_first [of y mo d] v(2) ymd by (simp add: F_def)
  have pm: "prev_month y mo = (y', m')" using assms(2) ymd by simp
  have di: "1 \<le> days_in y' m'" "days_in y' m' \<le> 31" by (simp_all add: days_in_def)
  have off: "zone now (unix_sec now) = 60 * m" by (simp add: assms(1))
  have bk: "\<bar>d - 1\<bar> \<le> 100000" "\<bar>days_in y' m' - 1\<bar> \<le> 100000" using b di by linarith+
  have day1: "day_of (local_midnight now D) = d"
    by (simp add: day_of_def local_day_midnight [OF assms(1)] dd)
  have "date_of_days (F - 1) = (y', m', days_in y' m')"
    using date_before_month [OF b(1,2) pm] ymd by (simp add: F_def)
  then have day2: "day_of (local_midnight now (F - 1)) = days_in y' m'"
    by (simp add: day_of_def local_day_midnight [OF assms(1)])
  have Fp: "F - 1 - (days_in y' m' - 1) = days_of_date y' m' 1"
    using day_before_month(1) [OF b(1,2) pm] days_of_date_first [of y' m' "days_in y' m'"] ymd
    by (simp add: F_def)
  have "parseWindow ''month'' now = Inr (NewClosedWindow (local_midnight now F) now)"
    by (simp add: parseWindow_def Let_def day_start_eq [OF off] D_def [symmetric] day1
        days_back_midnight [OF bk(1)] F)
  moreover have "parseWindow ''lastmonth'' now =
      Inr (NewClosedWindow (local_midnight now (days_of_date y' m' 1)) (local_midnight now F))"
    using midnight_add [of now F "- 1"] days_back_midnight [OF bk(2), of now "F - 1"]
    by (simp add: parseWindow_def Let_def day_start_eq [OF off] D_def [symmetric] day1
        days_back_midnight [OF bk(1)] F day2 Fp)
  ultimately show ?thesis using Fp by simp
qed

theorem parseWindow_months_witness:
  "parseWindow ''lastmonth'' \<lparr>ns = 1709164800000000000, zone = \<lambda>_. 28800\<rparr> =
     Inr (NewClosedWindow (local_midnight \<lparr>ns = 1709164800000000000, zone = \<lambda>_. 28800\<rparr> 19723)
       (local_midnight \<lparr>ns = 1709164800000000000, zone = \<lambda>_. 28800\<rparr> 19754))"
proof -
  have d: "year_of \<lparr>ns = 1709164800000000000, zone = \<lambda>_. 28800\<rparr> = 2024"
    "month_of \<lparr>ns = 1709164800000000000, zone = \<lambda>_. 28800\<rparr> = 2" by code_simp+
  have "prev_month 2024 2 = (2024, 1)" "days_of_date 2024 1 1 = 19723" "days_of_date 2024 2 1 = 19754"
    by code_simp+
  then show ?thesis
    using parseWindow_months [of "\<lparr>ns = 1709164800000000000, zone = \<lambda>_. 28800\<rparr>" 480 2024 1]
    by (simp add: d)
qed

text \<open>
  \<open>a\<close> units offset \<open>b\<close> units: the window ends \<open>b\<close> offset units before \<open>now\<close> and is \<open>a\<close> units
  long. For minutes, hours and days the offset unit is the duration unit; a week of offset is counted as 24 weeks.
\<close>

theorem parseWindow_offset:
  assumes "u \<in> set ''mhdw''" "v \<in> set ''mhdw''"
    and "in64 (int a * dur_unit u)" "in64 (int b * off_unit v)"
  shows "parseWindow (dec a @ [u] @ '' offset '' @ dec b @ [v]) now =
      Inr (NewClosedWindow (time_add (time_add now (- (int b * off_unit v))) (- (int a * dur_unit u)))
        (time_add now (- (int b * off_unit v))))
    \<and> off_unit v = (if v = CHR ''w'' then 24 * dur_unit v else dur_unit v)"
proof -
  have pos: "0 < dur_unit u" "0 < off_unit v" "1 \<le> dur_unit u" "1 \<le> off_unit v"
    by (auto simp: dur_unit_def off_unit_def unit_defs)
  have le: "int a \<le> maxInt64" "int b \<le> maxInt64"
    using assms(3,4) mult_left_mono [OF pos(3), of "int a"] mult_left_mono [OF pos(4), of "int b"]
    by (simp_all add: in64_def)
  note dm = dur_mul_neg [OF assms(3) _ le(1) pos(1)] dur_mul_neg [OF assms(4) _ le(2) pos(2)]
  have "parseWindow (dec a @ [u] @ '' offset '' @ dec b @ [v]) now =
      Inr (NewClosedWindow (time_add (time_add now (- (int b * off_unit v))) (- (int a * dur_unit u)))
        (time_add now (- (int b * off_unit v))))"
    unfolding parseWindow_digits [OF dec_hd] durationOffsetRegex_dec [OF assms(1,2)]
    by (simp add: parse_int_dec [OF le(1)] parse_int_dec [OF le(2)] dm Let_def)
  then show ?thesis by (simp add: dur_unit_def off_unit_def)
qed

theorem parseWindow_offset_witness:
  "parseWindow (dec 45 @ ''m'' @ '' offset '' @ dec 1 @ ''w'') \<lparr>ns = 1709164800 * second, zone = utc\<rparr> =
     Inr (NewClosedWindow \<lparr>ns = 1694646900 * second, zone = utc\<rparr> \<lparr>ns = 1694649600 * second, zone = utc\<rparr>)"
  using parseWindow_offset [of "CHR ''m''" "CHR ''w''" 45 1 "\<lparr>ns = 1709164800 * second, zone = utc\<rparr>"]
  by (simp add: dur_unit_def off_unit_def unit_defs in64_def time_add_def)

lemma ParseWindow_result:
  "case ParseWindow now s of
     Inl e \<Rightarrow> e = Err (''illegal window: '' @ s)
   | Inr w \<Rightarrow> \<not> IsOpen w \<and> (\<exists>sel. GetLabelSelectorStr w = Inr sel)
       \<and> ns (the (start w)) mod second = 0 \<and> ns (the (end w)) mod second = 0"
proof -
  have sec: "ns (truncate_to t second) mod second = 0" for t
  proof -
    have "ns t - (ns t - zero_ns) mod second = zero_ns + (ns t - zero_ns) div second * second"
      using div_mult_mod_eq [of "ns t - zero_ns" second] by linarith
    then show ?thesis by (simp add: truncate_to_def zero_ns_def)
  qed
  have "case parseWindow s now of Inl e \<Rightarrow> e = Err (''illegal window: '' @ s) | Inr w \<Rightarrow> \<not> IsOpen w"
    unfolding parseWindow_def
    by (auto simp: Let_def NewClosedWindow_def IsOpen_def split: option.splits prod.splits)
  then show ?thesis
    by (auto simp: ParseWindow_def IsOpen_def GetLabelSelectorStr_def sec split: sum.splits)
qed

text \<open>
  C40. The parser fails only with \<open>illegal window\<close>, naming the string; whatever else it returns is a
  closed window with both ends set, so the callers that read the ends of a parsed window
  without a nil test (\<open>GetLabelSelectorStr\<close>, the handlers) cannot dereference nil.
\<close>

theorem ParseWindow_closed:
  "case ParseWindow now s of
     Inl e \<Rightarrow> e = Err (''illegal window: '' @ s)
   | Inr w \<Rightarrow> \<not> IsOpen w \<and> (\<exists>sel. GetLabelSelectorStr w = Inr sel)
       \<and> ns (the (start w)) mod second = 0 \<and> ns (the (end w)) mod second = 0"
  by (rule ParseWindow_result)

text \<open>
  The label selector of a window carries its two wall clocks: each timestamp, read back in the
  layout it names, is the local time of that end of the window, to the second.
\<close>

theorem GetLabelSelectorStr_roundtrip:
  assumes "0 \<le> year_of s" "year_of s \<le> 9999" "0 \<le> year_of e" "year_of e \<le> 9999"
  shows "\<exists>a b. GetLabelSelectorStr (NewClosedWindow s e) =
      Inr (''window_start='' @ a @ '',window_end='' @ b @ '',window_layout=20060102150405'')
    \<and> parse_window_time a = Some \<lparr>ns = local_sec s * second, zone = utc\<rparr>
    \<and> parse_window_time b = Some \<lparr>ns = local_sec e * second, zone = utc\<rparr>"
  using parse_window_format [OF assms(1,2)] parse_window_format [OF assms(3,4)]
  by (auto simp: GetLabelSelectorStr_def NewClosedWindow_def WindowLayout_def)

theorem GetLabelSelectorStr_roundtrip_witness:
  "\<exists>a b. GetLabelSelectorStr (NewClosedWindow \<lparr>ns = 0, zone = utc\<rparr> \<lparr>ns = second, zone = utc\<rparr>) =
      Inr (''window_start='' @ a @ '',window_end='' @ b @ '',window_layout=20060102150405'')
    \<and> parse_window_time a = Some \<lparr>ns = 0, zone = utc\<rparr>
    \<and> parse_window_time b = Some \<lparr>ns = second, zone = utc\<rparr>"
proof -
  have y: "year_of \<lparr>ns = 0, zone = utc\<rparr> = 1970" "year_of \<lparr>ns = second, zone = utc\<rparr> = 1970"
    "local_sec \<lparr>ns = 0, zone = utc\<rparr> = 0" "local_sec \<lparr>ns = second, zone = utc\<rparr> = 1"
    by code_simp+
  show ?thesis
    using GetLabelSelectorStr_roundtrip [of "\<lparr>ns = 0, zone = utc\<rparr>" "\<lparr>ns = second, zone = utc\<rparr>"]
    unfolding y by simp
qed

text \<open>
  The length of a day window is a wrapped \<open>int64\<close> product: \<open>106752d\<close> is accepted and denotes a
  window that starts after it ends.
\<close>

theorem parseWindow_overflow:
  "case ParseWindow \<lparr>ns = 1709164800 * second, zone = utc\<rparr> ''106752d'' of
     Inl e \<Rightarrow> False | Inr w \<Rightarrow> IsNegative w \<and> Duration w < 0"
  by code_simp

end
