(* ===== verification/Go_JSON.thy ===== *)
theory Go_JSON
  imports Time_Util
begin

text \<open>
  What the sources of metrics use of \<open>encoding/json\<close> and \<open>strconv.ParseFloat\<close>: writing strings, reading a
  JSON text into a tree, and storing an array of objects in a slice of structs. The lemmas show that a written tree reads
  back as itself.
\<close>

section \<open>Writing strings\<close>

text \<open>
  JSON strings as \<open>encoding/json\<close> of Go 1.16 writes them, for text in which every byte from 0x80 on belongs to a
  valid UTF-8 sequence other than U+2028 and U+2029.
\<close>

definition quote_char :: char where "quote_char = CHR 0x22"

definition json_hex :: "nat \<Rightarrow> string" where
  "json_hex n = CHR 0x5C # ''u00'' @ [hex_digit (n div 16), hex_digit (n mod 16)]"

definition json_char :: "char \<Rightarrow> string" where
  "json_char c =
     (if c = quote_char \<or> c = CHR 0x5C then [CHR 0x5C, c]
      else if c = CHR 0x0A then [CHR 0x5C, CHR ''n'']
      else if c = CHR 0x0D then [CHR 0x5C, CHR ''r'']
      else if c = CHR 0x09 then [CHR 0x5C, CHR ''t'']
      else if of_char c < (32 :: nat) \<or> c \<in> set ''<>&'' then json_hex (of_char c)
      else [c])"

definition json_string :: "string \<Rightarrow> string" where
  "json_string s = quote_char # concat (map json_char s) @ [quote_char]"

definition json_field :: "string \<Rightarrow> string \<Rightarrow> string" where
  "json_field k v = json_string k @ '':'' @ v"

definition hex_val :: "char \<Rightarrow> nat" where
  "hex_val c = (if is_digit c then dval c else of_char c - 87)"

lemma hex_val_digit [simp]: "k < 16 \<Longrightarrow> hex_val (hex_digit k) = k"
proof -
  assume "k < 16"
  then have "k \<in> set [0..<16]" by simp
  moreover have "list_all (\<lambda>k. hex_val (hex_digit k) = k) [0..<16]" by code_simp
  ultimately show ?thesis by (simp add: list_all_iff)
qed

lemma char_code: "of_char c < (256 :: nat)"
  using mod_less_divisor [of 256 "of_char c :: nat"] by simp

section \<open>Decimal floating-point numbers\<close>

text \<open>
  \<open>strconv.ParseFloat(s, 64)\<close> on decimal text: digits with at most one point and an optional exponent, rounded to
  the nearest value; a magnitude too large is an infinity and a range error. The callers pass JSON numbers and texts of digits and
  points, never the hexadecimal form, underscores or the names of the special values.
\<close>

definition pow10 :: "int \<Rightarrow> rat" where
  "pow10 e = (if 0 \<le> e then 10 ^ nat e else 1 / 10 ^ nat (- e))"

definition signed_digits :: "string \<Rightarrow> int option" where
  "signed_digits s =
     (let t = (if s \<noteq> [] \<and> hd s \<in> set ''+-'' then tl s else s) in
      if t = [] \<or> \<not> list_all is_digit t then None
      else Some (if hd s = CHR ''-'' then - int (digits_val t) else int (digits_val t)))"

definition decimal_value :: "string \<Rightarrow> (bool \<times> rat) option" where
  "decimal_value s =
     (let t = (if s \<noteq> [] \<and> hd s \<in> set ''+-'' then tl s else s);
          ip = takeWhile is_digit t; u = dropWhile is_digit t;
          (fr, v) = (if u \<noteq> [] \<and> hd u = CHR ''.'' then (takeWhile is_digit (tl u), dropWhile is_digit (tl u)) else ([], u));
          e = (if v = [] then Some 0 else if hd v \<in> set ''eE'' then signed_digits (tl v) else None)
      in if ip @ fr = [] then None
         else map_option (\<lambda>e. (hd s = CHR ''-'', of_nat (digits_val (ip @ fr)) * pow10 (e - int (length fr)))) e)"

definition parse_float :: "string \<Rightarrow> f64 \<times> num_err option" where
  "parse_float s =
     (case decimal_value s of
        None \<Rightarrow> (Fin 0, Some ErrSyntax)
      | Some (n, q) \<Rightarrow> (let x = round64 n (if n then - q else q) in (x, if is_inf x then Some ErrRange else None)))"

section \<open>Trees\<close>

text \<open>A number is kept as it is written. The members of an object stay in the order of the text.\<close>

datatype json =
    JNull
  | JBool bool
  | JNum string
  | JStr string
  | JArr "json list"
  | JObj "(string \<times> json) list"

section \<open>Reading\<close>

definition skip_space :: "string \<Rightarrow> string" where
  "skip_space = dropWhile (\<lambda>c. c \<in> {CHR 0x20, CHR 0x09, CHR 0x0A, CHR 0x0D})"

text \<open>A number literal: its text and the rest.\<close>

definition scan_fraction :: "string \<Rightarrow> (string \<times> string) option" where
  "scan_fraction s =
     (if s \<noteq> [] \<and> hd s = CHR ''.'' then
        (let d = takeWhile is_digit (tl s) in if d = [] then None else Some (CHR ''.'' # d, dropWhile is_digit (tl s)))
      else Some ([], s))"

definition scan_exponent :: "string \<Rightarrow> (string \<times> string) option" where
  "scan_exponent s =
     (if s \<noteq> [] \<and> hd s \<in> set ''eE'' then
        (let sg = takeWhile (\<lambda>c. c \<in> set ''+-'') (take 1 (tl s)); t = drop (length sg) (tl s); d = takeWhile is_digit t in
         if d = [] then None else Some (hd s # sg @ d, dropWhile is_digit t))
      else Some ([], s))"

definition int_part :: "string \<Rightarrow> string" where
  "int_part t = (let d = takeWhile is_digit t in if d \<noteq> [] \<and> hd d = CHR ''0'' then ''0'' else d)"

definition minus_sign :: "string \<Rightarrow> string" where
  "minus_sign s = takeWhile (\<lambda>c. c = CHR ''-'') (take 1 s)"

definition scan_number :: "string \<Rightarrow> (string \<times> string) option" where
  "scan_number s =
     (let sg = minus_sign s; t = drop (length sg) s; ip = int_part t in
      if ip = [] then None
      else Option.bind (scan_fraction (drop (length ip) t)) (\<lambda>(fr, u).
           map_option (\<lambda>(ex, v). (sg @ ip @ fr @ ex, v)) (scan_exponent u)))"

text \<open>
  The text of a string: bytes, and code units written as an escape. A pair of surrogates is one rune, any
  other surrogate is U+FFFD.
\<close>

definition utf8 :: "nat \<Rightarrow> string" where
  "utf8 n =
     (if n < 0x80 then [char_of n]
      else if n < 0x800 then [char_of (0xC0 + n div 64), char_of (0x80 + n mod 64)]
      else if n < 0x10000 then [char_of (0xE0 + n div 4096), char_of (0x80 + n div 64 mod 64), char_of (0x80 + n mod 64)]
      else [char_of (0xF0 + n div 262144), char_of (0x80 + n div 4096 mod 64), char_of (0x80 + n div 64 mod 64),
            char_of (0x80 + n mod 64)])"

fun units_text :: "(nat + char) list \<Rightarrow> string" where
  "units_text [] = []"
| "units_text (Inr c # us) = c # units_text us"
| "units_text (Inl u # us) =
     (if 0xD800 \<le> u \<and> u < 0xE000 then
        (case us of
           Inl v # vs \<Rightarrow>
             if u < 0xDC00 \<and> 0xDC00 \<le> v \<and> v < 0xE000
             then utf8 (0x10000 + 1024 * (u - 0xD800) + (v - 0xDC00)) @ units_text vs
             else utf8 0xFFFD @ units_text us
         | _ \<Rightarrow> utf8 0xFFFD @ units_text us)
      else utf8 u @ units_text us)"

definition hex_of :: "char \<Rightarrow> nat option" where
  "hex_of c = (let d = lower_char c in
     if is_digit d \<or> 97 \<le> (of_char d :: nat) \<and> (of_char d :: nat) \<le> 102 then Some (hex_val d) else None)"

definition escaped_char :: "char \<Rightarrow> char option" where
  "escaped_char = map_of
     [(CHR 0x22, CHR 0x22), (CHR 0x5C, CHR 0x5C), (CHR ''/'', CHR ''/''), (CHR ''b'', CHR 0x08), (CHR ''f'', CHR 0x0C),
      (CHR ''n'', CHR 0x0A), (CHR ''r'', CHR 0x0D), (CHR ''t'', CHR 0x09)]"

definition hex4 :: "char \<Rightarrow> char \<Rightarrow> char \<Rightarrow> char \<Rightarrow> nat option" where
  "hex4 a b c d =
     (case (hex_of a, hex_of b, hex_of c, hex_of d) of
        (Some a, Some b, Some c, Some d) \<Rightarrow> Some (4096 * a + 256 * b + 16 * c + d) | _ \<Rightarrow> None)"

text \<open>From after the opening quote to after the closing one.\<close>

fun scan_units :: "string \<Rightarrow> ((nat + char) list \<times> string) option" where
  "scan_units [] = None"
| "scan_units (c # s) =
     (if c = quote_char then Some ([], s)
      else if c = CHR 0x5C then
        (case s of
           [] \<Rightarrow> None
         | e # t \<Rightarrow>
             if e = CHR ''u'' then
               (case t of
                  h1 # h2 # h3 # h4 # u \<Rightarrow>
                    Option.bind (hex4 h1 h2 h3 h4) (\<lambda>n. map_option (\<lambda>(us, r). (Inl n # us, r)) (scan_units u))
                | _ \<Rightarrow> None)
             else Option.bind (escaped_char e) (\<lambda>d. map_option (\<lambda>(us, r). (Inr d # us, r)) (scan_units t)))
      else if (of_char c :: nat) < 32 then None
      else map_option (\<lambda>(us, r). (Inr c # us, r)) (scan_units s))"

definition scan_string :: "string \<Rightarrow> (string \<times> string) option" where
  "scan_string s = map_option (\<lambda>(us, r). (units_text us, r)) (scan_units s)"

text \<open>The next character after spaces, when it is the expected one.\<close>

definition expect :: "char \<Rightarrow> string \<Rightarrow> string option" where
  "expect c s = (let t = skip_space s in if t \<noteq> [] \<and> hd t = c then Some (tl t) else None)"

text \<open>
  Values, the elements after an opening bracket and the members after an opening brace. The fuel bounds the number of nested
  calls; every second call consumes a character.
\<close>

fun scan_value :: "nat \<Rightarrow> string \<Rightarrow> (json \<times> string) option"
  and scan_elems :: "nat \<Rightarrow> string \<Rightarrow> (json list \<times> string) option"
  and scan_members :: "nat \<Rightarrow> string \<Rightarrow> ((string \<times> json) list \<times> string) option" where
  "scan_value 0 s = None"
| "scan_value (Suc n) s =
     (case skip_space s of
        [] \<Rightarrow> None
      | c # t \<Rightarrow>
          if c = CHR ''{'' then
            (case expect (CHR ''}'') t of
               Some r \<Rightarrow> Some (JObj [], r)
             | None \<Rightarrow> map_option (\<lambda>(ms, r). (JObj ms, r)) (scan_members n t))
          else if c = CHR ''['' then
            (case expect (CHR '']'') t of
               Some r \<Rightarrow> Some (JArr [], r)
             | None \<Rightarrow> map_option (\<lambda>(js, r). (JArr js, r)) (scan_elems n t))
          else if c = quote_char then map_option (\<lambda>(x, r). (JStr x, r)) (scan_string t)
          else if has_prefix (c # t) ''null'' then Some (JNull, drop 4 (c # t))
          else if has_prefix (c # t) ''true'' then Some (JBool True, drop 4 (c # t))
          else if has_prefix (c # t) ''false'' then Some (JBool False, drop 5 (c # t))
          else map_option (\<lambda>(x, r). (JNum x, r)) (scan_number (c # t)))"
| "scan_elems 0 s = None"
| "scan_elems (Suc n) s =
     Option.bind (scan_value n s) (\<lambda>(j, r).
       case expect (CHR '','') r of
         Some r' \<Rightarrow> map_option (\<lambda>(js, r). (j # js, r)) (scan_elems n r')
       | None \<Rightarrow> map_option (\<lambda>r. ([j], r)) (expect (CHR '']'') r))"
| "scan_members 0 s = None"
| "scan_members (Suc n) s =
     Option.bind (expect quote_char s) (\<lambda>t. Option.bind (scan_string t) (\<lambda>(k, t).
     Option.bind (expect (CHR '':'') t) (\<lambda>t. Option.bind (scan_value n t) (\<lambda>(j, r).
       case expect (CHR '','') r of
         Some r' \<Rightarrow> map_option (\<lambda>(ms, r). ((k, j) # ms, r)) (scan_members n r')
       | None \<Rightarrow> map_option (\<lambda>r. ([(k, j)], r)) (expect (CHR ''}'') r)))))"

text \<open>Objects and arrays may be nested up to 10000 deep.\<close>

fun depth :: "json \<Rightarrow> nat" where
  "depth (JArr js) = Suc (Max (set (0 # map depth js)))"
| "depth (JObj ms) = Suc (Max (set (0 # map (depth \<circ> snd) ms)))"
| "depth j = 0"

definition parse_json :: "string \<Rightarrow> json option" where
  "parse_json s =
     (case scan_value (2 * length s + 2) s of
        Some (j, r) \<Rightarrow> if skip_space r = [] \<and> depth j \<le> 10000 then Some j else None
      | None \<Rightarrow> None)"

section \<open>Storing an array of objects in a slice of structs\<close>

text \<open>
  A struct field has a name and a way to store a value, which may be the wrong kind of value. A member goes to the
  field of its name, else to the first one with that name in other letter case, else nowhere. A value of the wrong kind is
  skipped and makes the call fail at the end.
\<close>

type_synonym 'r field = "string \<times> (json \<Rightarrow> 'r \<Rightarrow> 'r option)"

definition field_for :: "'r field list \<Rightarrow> string \<Rightarrow> (json \<Rightarrow> 'r \<Rightarrow> 'r option) option" where
  "field_for fs k =
     (case map_of fs k of
        Some f \<Rightarrow> Some f
      | None \<Rightarrow> map_option snd (find (\<lambda>(n, f). to_lower n = to_lower k) fs))"

definition store_member :: "'r field list \<Rightarrow> string \<times> json \<Rightarrow> 'r \<times> bool \<Rightarrow> 'r \<times> bool" where
  "store_member fs m x =
     (case field_for fs (fst m) of
        None \<Rightarrow> x
      | Some f \<Rightarrow> (case f (snd m) (fst x) of None \<Rightarrow> (fst x, False) | Some r \<Rightarrow> (r, snd x)))"

definition store_object :: "'r field list \<Rightarrow> 'r \<Rightarrow> json \<Rightarrow> 'r \<times> bool" where
  "store_object fs zero j =
     (case j of
        JNull \<Rightarrow> (zero, True)
      | JObj ms \<Rightarrow> fold (store_member fs) ms (zero, True)
      | _ \<Rightarrow> (zero, False))"

text \<open>\<open>json.Unmarshal\<close> into a slice: \<open>None\<close> is an error.\<close>

definition unmarshal_slice :: "'r field list \<Rightarrow> 'r \<Rightarrow> string \<Rightarrow> 'r list option" where
  "unmarshal_slice fs zero s =
     (case parse_json s of
        Some JNull \<Rightarrow> Some []
      | Some (JArr js) \<Rightarrow>
          if list_all (snd \<circ> store_object fs zero) js then Some (map (fst \<circ> store_object fs zero) js) else None
      | _ \<Rightarrow> None)"

text \<open>\<open>json.Unmarshal\<close> into a struct.\<close>

definition unmarshal_struct :: "'r field list \<Rightarrow> 'r \<Rightarrow> string \<Rightarrow> 'r option" where
  "unmarshal_struct fs zero s =
     Option.bind (parse_json s) (\<lambda>j. let (r, ok) = store_object fs zero j in if ok then Some r else None)"

definition float_field :: "((f64 \<Rightarrow> f64) \<Rightarrow> 'r \<Rightarrow> 'r) \<Rightarrow> json \<Rightarrow> 'r \<Rightarrow> 'r option" where
  "float_field upd j r =
     (case j of
        JNull \<Rightarrow> Some r
      | JNum x \<Rightarrow> (case parse_float x of (v, None) \<Rightarrow> Some (upd (\<lambda>_. v) r) | _ \<Rightarrow> None)
      | _ \<Rightarrow> None)"

definition int_field :: "((int \<Rightarrow> int) \<Rightarrow> 'r \<Rightarrow> 'r) \<Rightarrow> json \<Rightarrow> 'r \<Rightarrow> 'r option" where
  "int_field upd j r =
     (case j of
        JNull \<Rightarrow> Some r
      | JNum x \<Rightarrow> (case parse_int x of (v, None) \<Rightarrow> Some (upd (\<lambda>_. v) r) | _ \<Rightarrow> None)
      | _ \<Rightarrow> None)"

definition string_field :: "((string \<Rightarrow> string) \<Rightarrow> 'r \<Rightarrow> 'r) \<Rightarrow> json \<Rightarrow> 'r \<Rightarrow> 'r option" where
  "string_field upd j r =
     (case j of JNull \<Rightarrow> Some r | JStr x \<Rightarrow> Some (upd (\<lambda>_. x) r) | _ \<Rightarrow> None)"

section \<open>A written tree reads back\<close>

fun json_text :: "json \<Rightarrow> string" where
  "json_text JNull = ''null''"
| "json_text (JBool b) = (if b then ''true'' else ''false'')"
| "json_text (JNum x) = x"
| "json_text (JStr s) = json_string s"
| "json_text (JArr js) = ''['' @ join '','' (map json_text js) @ '']''"
| "json_text (JObj ms) = ''{'' @ join '','' (map (\<lambda>(k, j). json_field k (json_text j)) ms) @ ''}''"

definition json_number :: "string \<Rightarrow> bool" where
  "json_number x \<longleftrightarrow> scan_number x = Some (x, [])"

fun wf_json :: "json \<Rightarrow> bool" where
  "wf_json (JNum x) = json_number x"
| "wf_json (JArr js) = list_all wf_json js"
| "wf_json (JObj ms) = list_all (wf_json \<circ> snd) ms"
| "wf_json j = True"

text \<open>What may come after a number.\<close>

definition follow :: "string \<Rightarrow> bool" where
  "follow r \<longleftrightarrow> r = [] \<or> hd r \<in> set '',]}''"

lemma follow_simps [simp]: "follow []" "follow (CHR '','' # r)" "follow (CHR '']'' # r)" "follow (CHR ''}'' # r)"
  by (simp_all add: follow_def)

lemma while_follow:
  assumes "follow r" "\<And>c. c \<in> set '',]}'' \<Longrightarrow> \<not> P c"
  shows "takeWhile P (s @ r) = takeWhile P s" "dropWhile P (s @ r) = dropWhile P s @ r"
proof -
  have "takeWhile P r = [] \<and> dropWhile P r = r" using assms by (cases r) (auto simp: follow_def)
  then show "takeWhile P (s @ r) = takeWhile P s" "dropWhile P (s @ r) = dropWhile P s @ r"
    by (induction s) auto
qed

lemma not_digit_follow: "c \<in> set '',]}'' \<Longrightarrow> \<not> is_digit c"
  by (auto simp: is_digit_def)

lemmas digits_follow = while_follow [where P = is_digit, OF _ not_digit_follow]

lemma scan_fraction_append:
  assumes "follow r"
  shows "scan_fraction (s @ r) = map_option (\<lambda>(a, b). (a, b @ r)) (scan_fraction s)"
proof (cases s)
  case Nil
  then show ?thesis using assms by (auto simp: scan_fraction_def follow_def)
next
  case (Cons c t)
  then show ?thesis using digits_follow [OF assms, of t] by (auto simp: scan_fraction_def Let_def)
qed

lemma take1_append: "follow r \<Longrightarrow> c \<notin> set '',]}'' \<Longrightarrow> d \<notin> set '',]}'' \<Longrightarrow>
    takeWhile (\<lambda>x. x = c \<or> x = d) (take 1 (s @ r)) = takeWhile (\<lambda>x. x = c \<or> x = d) (take 1 s)"
  by (cases s; cases r) (auto simp: follow_def)

lemma length_takeWhile_take: "length (takeWhile P (take n s)) \<le> length s"
  using length_takeWhile_le [of P "take n s"] by simp

lemma scan_exponent_append:
  assumes "follow r"
  shows "scan_exponent (s @ r) = map_option (\<lambda>(a, b). (a, b @ r)) (scan_exponent s)"
proof (cases s)
  case Nil
  then show ?thesis using assms by (auto simp: scan_exponent_def follow_def)
next
  case (Cons c t)
  let ?sg = "takeWhile (\<lambda>c. c \<in> set ''+-'') (take 1 t)"
  have sg: "takeWhile (\<lambda>c. c \<in> set ''+-'') (take 1 (t @ r)) = ?sg"
    using take1_append [OF assms, of "CHR ''+''" "CHR ''-''" t] by simp
  have dr: "drop (length ?sg) (t @ r) = drop (length ?sg) t @ r" using length_takeWhile_take [of _ 1 t] by simp
  show ?thesis
    unfolding Cons scan_exponent_def
    by (simp only: append_Cons list.sel sg dr Let_def digits_follow [OF assms]) simp
qed

lemma int_part_append:
  assumes "follow r"
  shows "int_part (t @ r) = int_part t"
  unfolding int_part_def by (simp only: digits_follow [OF assms])

lemma int_part_length: "length (int_part t) \<le> length t"
  using length_takeWhile_le [of is_digit t] by (cases "takeWhile is_digit t") (auto simp: int_part_def Let_def)

lemma minus_sign_append: "follow r \<Longrightarrow> minus_sign (s @ r) = minus_sign s"
  using take1_append [of r "CHR ''-''" "CHR ''-''" s] by (simp add: minus_sign_def)

lemma minus_sign_length: "length (minus_sign s) \<le> length s"
  by (simp add: minus_sign_def length_takeWhile_take)

lemma scan_number_append:
  assumes "follow r"
  shows "scan_number (s @ r) = map_option (\<lambda>(a, b). (a, b @ r)) (scan_number s)"
proof -
  define t where "t = drop (length (minus_sign s)) s"
  have "drop (length (minus_sign s)) (s @ r) = t @ r" using minus_sign_length [of s] by (simp add: t_def)
  moreover have "drop (length (int_part t)) (t @ r) = drop (length (int_part t)) t @ r" using int_part_length [of t] by simp
  ultimately show ?thesis
    using assms
    by (cases "scan_fraction (drop (length (int_part t)) t)")
      (auto simp: scan_number_def Let_def minus_sign_append int_part_append t_def [symmetric] scan_fraction_append
        scan_exponent_append option.map_comp comp_def split_beta)
qed

definition char_unit :: "char \<Rightarrow> nat + char" where
  "char_unit c = (if json_char c = json_hex (of_char c) then Inl (of_char c) else Inr c)"

lemma hex_of_digit [simp]: "k < 16 \<Longrightarrow> hex_of (hex_digit k) = Some k"
proof -
  assume "k < 16"
  then have "k \<in> set [0..<16]" by simp
  moreover have "list_all (\<lambda>k. hex_of (hex_digit k) = Some k) [0..<16]" by code_simp
  ultimately show ?thesis by (simp add: list_all_iff)
qed

lemma scan_unit_escape:
  assumes "hex4 h1 h2 h3 h4 = Some n"
  shows "scan_units (CHR 0x5C # CHR ''u'' # h1 # h2 # h3 # h4 # t) = map_option (\<lambda>(us, r). (Inl n # us, r)) (scan_units t)"
  using assms by (subst scan_units.simps) (simp add: quote_char_def)

lemma scan_json_hex:
  "scan_units (json_hex (of_char c) @ t) = map_option (\<lambda>(us, r). (Inl (of_char c) # us, r)) (scan_units t)"
proof -
  have "of_char c div 16 < (16 :: nat)" by (rule less_mult_imp_div_less) (use char_code [of c] in simp)
  then have "hex_of (hex_digit (of_char c div 16)) = Some (of_char c div 16)"
    "hex_of (hex_digit (of_char c mod 16)) = Some (of_char c mod 16)" by simp_all
  moreover have "hex_of (CHR ''0'') = Some 0" by code_simp
  ultimately have "hex4 (CHR ''0'') (CHR ''0'') (hex_digit (of_char c div 16)) (hex_digit (of_char c mod 16)) = Some (of_char c)"
    unfolding hex4_def by (simp only: prod.case option.case) simp
  from scan_unit_escape [OF this] show ?thesis by (simp only: json_hex_def append_Cons append_Nil)
qed

lemma scan_json_char: "scan_units (json_char c @ t) = map_option (\<lambda>(us, r). (char_unit c # us, r)) (scan_units t)"
proof -
  let ?e = "[CHR 0x22, CHR 0x5C, CHR 0x0A, CHR 0x0D, CHR 0x09]"
  consider "c \<in> set ?e" | "c \<notin> set ?e" "of_char c < (32 :: nat) \<or> c \<in> set ''<>&''"
    | "c \<notin> set ?e" "\<not> (of_char c < (32 :: nat) \<or> c \<in> set ''<>&'')"
    by blast
  then show ?thesis
  proof cases
    case 1
    then show ?thesis by (auto simp: json_char_def escaped_char_def quote_char_def char_unit_def json_hex_def)
  next
    case 2
    then have "json_char c = json_hex (of_char c)" unfolding json_char_def quote_char_def by auto
    then show ?thesis by (simp add: scan_json_hex char_unit_def)
  next
    case 3
    then have "json_char c = [c]" unfolding json_char_def quote_char_def by auto
    with 3 show ?thesis by (simp add: char_unit_def json_hex_def quote_char_def)
  qed
qed

lemma json_char_hex: "json_char c = json_hex (of_char c) \<Longrightarrow> of_char c < (32 :: nat) \<or> c \<in> set ''<>&''"
  by (rule ccontr) (simp add: json_char_def json_hex_def split: if_splits)

lemma units_char: "units_text (char_unit c # us) = c # units_text us"
proof -
  have "utf8 (of_char c) = [c]" if "of_char c < (32 :: nat) \<or> c \<in> set ''<>&''"
    using that by (auto simp: utf8_def)
  moreover have "\<not> 0xD800 \<le> (of_char c :: nat)" unfolding not_le by (rule less_trans [OF char_code]) simp
  ultimately show ?thesis using json_char_hex [of c] unfolding char_unit_def by (cases "json_char c = json_hex (of_char c)") simp_all
qed

lemma scan_string_text: "scan_string (concat (map json_char s) @ quote_char # r) = Some (s, r)"
proof -
  have "scan_units (concat (map json_char s) @ quote_char # r) = Some (map char_unit s, r)"
    by (induction s) (simp_all add: scan_json_char)
  moreover have "units_text (map char_unit s) = s" by (induction s) (simp_all add: units_char)
  ultimately show ?thesis by (simp add: scan_string_def)
qed

text \<open>Expected characters, and the first character of a written value.\<close>

definition is_space :: "char \<Rightarrow> bool" where
  "is_space c \<longleftrightarrow> c \<in> {CHR 0x20, CHR 0x09, CHR 0x0A, CHR 0x0D}"

lemma skip_space_Cons [simp]: "\<not> is_space c \<Longrightarrow> skip_space (c # s) = c # s"
  by (simp add: skip_space_def is_space_def)

lemma expect_Cons: "\<not> is_space d \<Longrightarrow> expect c (d # s) = (if d = c then Some s else None)"
  by (simp add: expect_def)

lemma not_space [simp]:
  "\<not> is_space (CHR '','')" "\<not> is_space (CHR '']'')" "\<not> is_space (CHR ''}'')" "\<not> is_space (CHR '':'')"
  "\<not> is_space (CHR ''['')" "\<not> is_space (CHR ''{'')" "\<not> is_space quote_char" "\<not> is_space (CHR ''n'')"
  "\<not> is_space (CHR ''t'')" "\<not> is_space (CHR ''f'')"
  by (simp_all add: is_space_def quote_char_def)

lemma quote_char_neq [simp]:
  "quote_char \<noteq> CHR ''{''" "quote_char \<noteq> CHR ''[''" "quote_char \<noteq> CHR '']''" "quote_char \<noteq> CHR ''}''"
  by (simp_all add: quote_char_def)

lemma json_number_head:
  assumes "json_number x"
  obtains c t where "x = c # t" "c = CHR ''-'' \<or> is_digit c"
proof (cases x)
  case Nil
  then show ?thesis using assms by (simp add: json_number_def scan_number_def minus_sign_def int_part_def)
next
  case (Cons c t)
  have "int_part (c # t) = [] \<longleftrightarrow> \<not> is_digit c" by (simp add: int_part_def)
  then show ?thesis
    using assms that [OF Cons] by (auto simp: Cons json_number_def scan_number_def minus_sign_def split: if_splits)
qed

lemma digit_head:
  assumes "c = CHR ''-'' \<or> is_digit c"
  shows "\<not> is_space c" "c \<notin> set ''{}[]ntf,''" "c \<noteq> quote_char"
  using assms by (auto simp: is_space_def is_digit_def quote_char_def)

lemma text_head:
  assumes "wf_json j"
  obtains c t where "json_text j = c # t" "\<not> is_space c" "c \<noteq> CHR '']''" "c \<noteq> CHR ''}''"
proof (cases j)
  case (JNum x)
  then obtain c t where "x = c # t" "c = CHR ''-'' \<or> is_digit c" using assms json_number_head by auto
  with JNum that digit_head [of c] show ?thesis by auto
next
  case (JBool b)
  then show ?thesis using that by (cases b) auto
qed (use that in \<open>auto simp: json_string_def quote_char_def is_space_def\<close>)

text \<open>Values, elements and members at once, by induction on the tree.\<close>

lemma expect_text: "wf_json j \<Longrightarrow> expect (CHR '']'') (json_text j @ r) = None"
  by (erule text_head) (simp add: expect_Cons)

definition scans :: "json \<Rightarrow> bool" where
  "scans j \<longleftrightarrow> wf_json j \<and> (\<forall>n r. 2 * length (json_text j) \<le> n \<longrightarrow> follow r \<longrightarrow> scan_value n (json_text j @ r) = Some (j, r))"

lemma scans_value: "scans j \<Longrightarrow> 2 * length (json_text j) \<le> n \<Longrightarrow> follow r \<Longrightarrow> scan_value n (json_text j @ r) = Some (j, r)"
  by (simp add: scans_def)

lemma scan_elems_text:
  assumes "js \<noteq> []" "list_all scans js"
  shows "2 * length (join '','' (map json_text js)) + 1 \<le> n \<Longrightarrow>
    scan_elems n (join '','' (map json_text js) @ CHR '']'' # r) = Some (js, r)"
  using assms
proof (induction js arbitrary: n)
  case (Cons j js)
  then obtain m where m: "n = Suc m" by (cases n) auto
  show ?case
  proof (cases js)
    case Nil
    with Cons.prems have "scan_value m (json_text j @ CHR '']'' # r) = Some (j, CHR '']'' # r)"
      by (intro scans_value) (simp_all add: m)
    then show ?thesis by (simp add: Nil m expect_Cons)
  next
    case (Cons k ks)
    let ?rest = "join '','' (map json_text js) @ CHR '']'' # r"
    have "scan_value m (json_text j @ CHR '','' # ?rest) = Some (j, CHR '','' # ?rest)"
      using Cons.prems by (intro scans_value) (simp_all add: m Cons)
    moreover have "scan_elems m ?rest = Some (js, r)"
      by (rule Cons.IH) (use Cons.prems in \<open>simp_all add: m Cons\<close>)
    ultimately show ?thesis by (simp add: m Cons expect_Cons)
  qed
qed simp

lemma scan_members_text:
  assumes "ms \<noteq> []" "list_all (scans \<circ> snd) ms"
  shows "2 * length (join '','' (map (\<lambda>(k, j). json_field k (json_text j)) ms)) + 1 \<le> n \<Longrightarrow>
    scan_members n (join '','' (map (\<lambda>(k, j). json_field k (json_text j)) ms) @ CHR ''}'' # r) = Some (ms, r)"
  using assms
proof (induction ms arbitrary: n)
  case (Cons km ms)
  obtain k j where km: "km = (k, j)" by (cases km)
  from Cons.prems obtain m where m: "n = Suc m" by (cases n) auto
  have step: "scan_members (Suc m) (json_field k (json_text j) @ t) =
      (case scan_value m (json_text j @ t) of None \<Rightarrow> None
       | Some (j, r) \<Rightarrow> (case expect (CHR '','') r of
           Some r' \<Rightarrow> map_option (\<lambda>(ms, r). ((k, j) # ms, r)) (scan_members m r')
         | None \<Rightarrow> map_option (\<lambda>r. ([(k, j)], r)) (expect (CHR ''}'') r)))" for t
    by (simp add: json_field_def json_string_def expect_Cons scan_string_text split: option.split)
  show ?case
  proof (cases ms)
    case Nil
    with Cons.prems have "scan_value m (json_text j @ CHR ''}'' # r) = Some (j, CHR ''}'' # r)"
      by (intro scans_value) (simp_all add: m km json_field_def)
    then show ?thesis by (simp add: Nil m km step expect_Cons del: scan_members.simps)
  next
    case (Cons q qs)
    let ?rest = "join '','' (map (\<lambda>(k, j). json_field k (json_text j)) ms) @ CHR ''}'' # r"
    have "scan_value m (json_text j @ CHR '','' # ?rest) = Some (j, CHR '','' # ?rest)"
      using Cons.prems by (intro scans_value) (simp_all add: m km Cons json_field_def)
    moreover have "scan_members m ?rest = Some (ms, r)"
      by (rule Cons.IH) (use Cons.prems in \<open>simp_all add: m km Cons\<close>)
    ultimately show ?thesis by (simp add: m km Cons step expect_Cons del: scan_members.simps)
  qed
qed simp

lemma json_scans: "wf_json j \<Longrightarrow> scans j"
proof (induction j)
  case (JNum x)
  then obtain c t where x: "x = c # t" "c = CHR ''-'' \<or> is_digit c" by (auto elim: json_number_head)
  have "scan_value (Suc n) (x @ r) = Some (JNum x, r)" if "follow r" for n r
    using JNum x scan_number_append [OF that, of x] digit_head [OF x(2)]
    by (simp add: json_number_def has_prefix_def)
  moreover have "n = Suc (n - 1)" if "2 * length x \<le> n" for n using that x by simp
  ultimately have "scan_value n (x @ r) = Some (JNum x, r)" if "2 * length x \<le> n" "follow r" for n r
    using that by metis
  with JNum show ?case by (simp add: scans_def)
next
  case (JArr js)
  then have js: "list_all scans js" by (auto simp: list_all_iff)
  have "scan_value n (''['' @ join '','' (map json_text js) @ CHR '']'' # r) = Some (JArr js, r)"
    if n: "2 * length (join '','' (map json_text js)) + 4 \<le> n" for n r
  proof (cases js)
    case Nil
    with n show ?thesis by (cases n) (simp_all add: expect_Cons quote_char_def)
  next
    case (Cons k ks)
    obtain m where m: "n = Suc m" using n by (cases n) auto
    have "expect (CHR '']'') (join '','' (map json_text js) @ CHR '']'' # r) = None"
      using JArr.prems expect_text [of k] by (cases ks) (simp_all add: Cons)
    moreover have "scan_elems m (join '','' (map json_text js) @ CHR '']'' # r) = Some (js, r)"
      by (rule scan_elems_text [OF _ js]) (use n in \<open>simp_all add: Cons m\<close>)
    ultimately show ?thesis by (simp add: m)
  qed
  then show ?case using JArr.prems by (simp add: scans_def)
next
  case (JObj ms)
  let ?text = "join '','' (map (\<lambda>(k, j). json_field k (json_text j)) ms)"
  have ms: "list_all (scans \<circ> snd) ms" using JObj by (auto simp: list_all_iff snds.simps)
  have "scan_value n (''{'' @ ?text @ CHR ''}'' # r) = Some (JObj ms, r)" if n: "2 * length ?text + 4 \<le> n" for n r
  proof (cases ms)
    case Nil
    with n show ?thesis by (cases n) (simp_all add: expect_Cons)
  next
    case (Cons k ks)
    obtain m where m: "n = Suc m" using n by (cases n) auto
    obtain t where "?text = quote_char # t"
      by (cases k; cases ks) (auto simp: Cons json_field_def json_string_def)
    then have "expect (CHR ''}'') (?text @ CHR ''}'' # r) = None" by (simp add: expect_Cons)
    moreover have "scan_members m (?text @ CHR ''}'' # r) = Some (ms, r)"
      by (rule scan_members_text [OF _ ms]) (use n in \<open>simp_all add: Cons m\<close>)
    ultimately show ?thesis by (simp add: m)
  qed
  then show ?case using JObj.prems by (simp add: scans_def)
next
  case (JStr s)
  have "scan_value (Suc n) (quote_char # t) = map_option (\<lambda>(x, r). (JStr x, r)) (scan_string t)" for n t
    by (subst scan_value.simps) (simp only: skip_space_Cons not_space list.case quote_char_neq if_False simp_thms if_True)
  then have "scan_value (Suc n) (json_string s @ r) = Some (JStr s, r)" for n r
    by (simp only: json_string_def append_Cons append_assoc append_Nil scan_string_text) simp
  then have "scan_value n (json_string s @ r) = Some (JStr s, r)" if "2 \<le> n" for n r
    using that by (cases n) (simp_all del: scan_value.simps)
  moreover have "2 \<le> n" if "2 * length (json_string s) \<le> n" for n
    using that by (simp add: json_string_def)
  ultimately show ?case unfolding scans_def json_text.simps wf_json.simps by blast
next
  case JNull
  have "scan_value n (''null'' @ r) = Some (JNull, r)" if "8 \<le> n" for n r
    using that by (cases n) (simp_all add: quote_char_def has_prefix_def)
  then show ?case by (simp add: scans_def)
next
  case (JBool b)
  have "scan_value n (''true'' @ r) = Some (JBool True, r)" "scan_value n (''false'' @ r) = Some (JBool False, r)"
    if "8 \<le> n" for n r
    using that by (cases n; simp add: quote_char_def has_prefix_def)+
  then show ?case by (simp add: scans_def)
qed

lemma parse_json_text: "wf_json j \<Longrightarrow> depth j \<le> 10000 \<Longrightarrow> parse_json (json_text j) = Some j"
  using scans_value [OF json_scans, of j "2 * length (json_text j) + 2" "[]"]
  by (simp add: parse_json_def skip_space_def)

end
