(* ===== verification/Window_JSON.thy ===== *)
theory Window_JSON
  imports Window_Model Go_JSON
begin

text \<open>
  The JSON reader of a window (\<open>UnmarshalJSON\<close> in \<open>pkg/metrics/costv2/types/window.go\<close>), with
  \<open>time.Parse(time.RFC3339, v)\<close> of Go 1.16 on any text. What a window's writer gives, the reader
  takes back: the same moments, to the second, at the same offsets.
\<close>

section \<open>Reading RFC 3339\<close>

text \<open>One or two digits; a number of two characters, which may be a sign and a digit; one expected character.\<close>

fun getnum :: "string \<Rightarrow> (int \<times> string) option" where
  "getnum [] = None"
| "getnum [a] = (if is_digit a then Some (int (dval a), []) else None)"
| "getnum (a # b # s) =
     (if \<not> is_digit a then None
      else if is_digit b then Some (int (10 * dval a + dval b), s) else Some (int (dval a), b # s))"

definition atoi2 :: "char \<Rightarrow> char \<Rightarrow> int option" where
  "atoi2 a b =
     (if \<not> is_digit b then None
      else if is_digit a then Some (int (10 * dval a + dval b))
      else if a = CHR ''+'' then Some (int (dval b))
      else if a = CHR ''-'' then Some (- int (dval b))
      else None)"

definition skip_char :: "char \<Rightarrow> string \<Rightarrow> string option" where
  "skip_char c s = (case s of d # r \<Rightarrow> check (d = c) r | [] \<Rightarrow> None)"

text \<open>\<open>Z\<close>, or an offset in seconds.\<close>

fun getzone :: "string \<Rightarrow> (int option \<times> string) option" where
  "getzone (sg # a # b # c # d # e # r) =
     (if sg = CHR ''Z'' then Some (None, a # b # c # d # e # r)
      else if c \<noteq> CHR '':'' then None
      else Option.bind (atoi2 a b) (\<lambda>hr. Option.bind (atoi2 d e) (\<lambda>mm.
        if sg = CHR ''+'' then Some (Some ((hr * 60 + mm) * 60), r)
        else if sg = CHR ''-'' then Some (Some (- ((hr * 60 + mm) * 60)), r)
        else None)))"
| "getzone (sg # r) = (if sg = CHR ''Z'' then Some (None, r) else None)"
| "getzone [] = None"

text \<open>A time with an offset is in the local zone when that has the offset then, else in a zone of that offset.\<close>

definition at_offset :: "(int \<Rightarrow> int) \<Rightarrow> int option \<Rightarrow> gotime \<Rightarrow> gotime" where
  "at_offset local z t =
     (case z of
        None \<Rightarrow> t
      | Some off \<Rightarrow>
          let t = time_add t (- (off * second)) in
          t\<lparr>zone := (if local (unix_sec t) = off then local else (\<lambda>_. off))\<rparr>)"

definition parse_rfc3339 :: "(int \<Rightarrow> int) \<Rightarrow> string \<Rightarrow> gotime option" where
  "parse_rfc3339 local v =
     Option.bind (getyear v) (\<lambda>(y, v).
     Option.bind (skip_char (CHR ''-'') v) (\<lambda>v.
     Option.bind (getnum2 v) (\<lambda>(m, v).
     Option.bind (skip_char (CHR ''-'') v) (\<lambda>v.
     Option.bind (getnum2 v) (\<lambda>(d, v).
     Option.bind (skip_char (CHR ''T'') v) (\<lambda>v.
     Option.bind (getnum v) (\<lambda>(h, v).
     Option.bind (skip_char (CHR '':'') v) (\<lambda>v.
     Option.bind (getnum2 v) (\<lambda>(mi, v).
     Option.bind (skip_char (CHR '':'') v) (\<lambda>v.
     Option.bind (getnum2 v) (\<lambda>(s, v).
     Option.bind (getfrac v) (\<lambda>(f, v).
     Option.bind (getzone v) (\<lambda>(z, v).
       if v = [] then map_option (at_offset local z) (date_utc y m d h mi s f) else None)))))))))))))"

section \<open>Reading a window\<close>

record pub_window =
  pubStart :: string
  pubEnd :: string

definition pub_fields :: "pub_window field list" where
  "pub_fields = [(''start'', string_field pubStart_update), (''end'', string_field pubEnd_update)]"

text \<open>Of the messages of \<open>json\<close> and \<open>time\<close> the first words are kept.\<close>

definition parse_bound :: "(int \<Rightarrow> int) \<Rightarrow> string \<Rightarrow> string \<Rightarrow> gotime option res" where
  "parse_bound local what v =
     (if v \<noteq> ''null'' then
        (case parse_rfc3339 local v of
           None \<Rightarrow> Inl (Err (''parsing '' @ what @ '' as RFC3339: parsing time''))
         | Some t \<Rightarrow> Inr (Some t))
      else Inr None)"

definition UnmarshalJSON :: "(int \<Rightarrow> int) \<Rightarrow> string \<Rightarrow> window res" where
  "UnmarshalJSON local bs =
     (case unmarshal_struct pub_fields \<lparr>pubStart = [], pubEnd = []\<rparr> bs of
        None \<Rightarrow> Inl (Err ''half unmarshal: json'')
      | Some pw \<Rightarrow>
          and_then (parse_bound local ''start'' (pubStart pw)) (\<lambda>s.
          and_then (parse_bound local ''end'' (pubEnd pw)) (\<lambda>e. Inr (NewWindow s e))))"

section \<open>Printed times read back\<close>

lemma skip_char_Cons [simp]: "skip_char c (c # r) = Some r"
  by (simp add: skip_char_def check_def)

lemma getnum_pad: "0 \<le> n \<Longrightarrow> n \<le> 99 \<Longrightarrow> getnum (pad 2 n @ s) = Some (n, s)"
proof -
  assume n: "0 \<le> n" "n \<le> 99"
  then have "nat n div 10 < 10" by (simp add: nat_less_iff)
  then show ?thesis using n by (simp add: pad2)
qed

lemma pad2_split: "0 \<le> n \<Longrightarrow> n \<le> 99 \<Longrightarrow> \<exists>a b. pad 2 n = [a, b] \<and> atoi2 a b = Some n"
proof -
  assume n: "0 \<le> n" "n \<le> 99"
  then have "nat n div 10 < 10" by (simp add: nat_less_iff)
  then have "atoi2 (digit (nat n div 10)) (digit (nat n mod 10)) = Some n" using n by (simp add: atoi2_def)
  with pad2 [OF n] show ?thesis by blast
qed

text \<open>An offset that the layout can show: whole minutes, and less than a hundred hours.\<close>

definition printable :: "gotime \<Rightarrow> bool" where
  "printable t \<longleftrightarrow> 0 \<le> year_of t \<and> year_of t \<le> 9999 \<and>
     60 dvd zone t (unix_sec t) \<and> \<bar>zone t (unix_sec t)\<bar> < 360000"

lemma getzone_format:
  assumes "60 dvd off" "\<bar>off\<bar> < 360000"
  shows "getzone (format_zone off) = Some (if off = 0 then None else Some off, [])"
proof (cases "off = 0")
  case False
  obtain z where z: "off = 60 * z" using assms(1) by blast
  then have nz: "z \<noteq> 0" "\<bar>z\<bar> < 6000" using assms(2) False by auto
  have q: "quo off 60 = z" by (simp add: quo_def z abs_mult sgn_mult) (simp add: sgn_if abs_if)
  have b: "0 \<le> \<bar>z\<bar> div 60" "\<bar>z\<bar> div 60 \<le> 99" "0 \<le> \<bar>z\<bar> mod 60" "\<bar>z\<bar> mod 60 \<le> 99"
    using nz(2) by linarith+
  from pad2_split [OF b(1,2)] obtain a c where ac: "pad 2 (\<bar>z\<bar> div 60) = [a, c]" "atoi2 a c = Some (\<bar>z\<bar> div 60)" by blast
  from pad2_split [OF b(3,4)] obtain d e where de: "pad 2 (\<bar>z\<bar> mod 60) = [d, e]" "atoi2 d e = Some (\<bar>z\<bar> mod 60)" by blast
  have "format_zone off = (if z < 0 then CHR ''-'' else CHR ''+'') # a # c # CHR '':'' # d # e # []"
    using False by (simp add: format_zone_def Let_def q ac(1) de(1))
  moreover have "\<bar>z\<bar> div 60 * 60 + \<bar>z\<bar> mod 60 = \<bar>z\<bar>" by simp
  ultimately show ?thesis using z False by (simp add: ac(2) de(2))
qed (simp add: format_zone_def)

lemma getfrac_none: "hd s \<noteq> CHR ''.'' \<Longrightarrow> getfrac s = Some (0, s)"
  by (simp add: getfrac_def)

lemma format_zone_hd: "hd (format_zone off) \<noteq> CHR ''.''"
  by (simp add: format_zone_def Let_def)

text \<open>The moment a printed time stands for: the whole second, at the offset in force.\<close>

definition same_moment :: "gotime \<Rightarrow> gotime \<Rightarrow> bool" where
  "same_moment t u \<longleftrightarrow> ns u = unix_sec t * second \<and> zone u (unix_sec u) = zone t (unix_sec t)"

lemma parse_rfc3339_format:
  assumes "printable t"
  obtains u where "parse_rfc3339 local (format_rfc3339 t) = Some u" "same_moment t u"
proof -
  let ?off = "zone t (unix_sec t)"
  obtain y m d where dd: "date_of_days (local_day t) = (y, m, d)" by (cases "date_of_days (local_day t)")
  have v: "valid_date y m d" "days_of_date y m d = local_day t" using date_of_days_props [OF dd] by auto
  have eq: "year_of t = y" "month_of t = m" "day_of t = d"
    by (simp_all add: year_of_def month_of_def day_of_def dd)
  have b: "1 \<le> m" "m \<le> 12" "1 \<le> d" "d \<le> days_in y m" "d \<le> 31"
    using v(1) by (auto simp: valid_date_def days_in_def split: if_splits)
  have y: "0 \<le> y" "y \<le> 9999" and off: "60 dvd ?off" "\<bar>?off\<bar> < 360000" using assms eq by (auto simp: printable_def)
  note cb = clock_bounds [of t]
  let ?z = "if ?off = 0 then None else Some ?off"
  let ?u = "at_offset local ?z \<lparr>ns = local_sec t * second, zone = utc\<rparr>"
  have "parse_rfc3339 local (format_rfc3339 t) =
      map_option (at_offset local ?z) (date_utc y m d (hour_of t) (minute_of t) (second_of t) 0)"
    unfolding parse_rfc3339_def format_rfc3339_def eq
    using b y cb by (simp add: getyear_pad getnum2_pad getnum_pad getfrac_none format_zone_hd getzone_format off)
  also have "date_utc y m d (hour_of t) (minute_of t) (second_of t) 0 = Some \<lparr>ns = local_sec t * second, zone = utc\<rparr>"
    using b cb v(2) local_sec_split [of t] by (simp add: date_utc_def)
  finally have "parse_rfc3339 local (format_rfc3339 t) = Some ?u" by simp
  moreover have "same_moment t ?u"
    by (auto simp: same_moment_def at_offset_def local_sec_def utc_def unix_sec_def Let_def algebra_simps)
  ultimately show thesis by (rule that)
qed

text \<open>The characters of a printed time are written in JSON as they are.\<close>

definition plain :: "string \<Rightarrow> bool" where
  "plain s \<longleftrightarrow> list_all (\<lambda>c. json_char c = [c]) s"

lemma plain_simps [simp]:
  "plain []" "plain (s @ t) \<longleftrightarrow> plain s \<and> plain t" "plain (c # s) \<longleftrightarrow> json_char c = [c] \<and> plain s"
  by (auto simp: plain_def)

lemma plain_json_string: "plain s \<Longrightarrow> json_string s = quoted s"
proof -
  assume "plain s"
  then have "concat (map json_char s) = s" by (induction s) simp_all
  then show ?thesis by (simp add: json_string_def quoted_def quote_char_def)
qed

lemma json_char_digit: "is_digit c \<Longrightarrow> json_char c = [c]"
proof -
  assume c: "is_digit c"
  have "list_all (\<lambda>d. \<not> is_digit d) ([quote_char, CHR 0x5C, CHR 0x0A, CHR 0x0D, CHR 0x09] @ ''<>&'')" by code_simp
  then have "c \<notin> set ([quote_char, CHR 0x5C, CHR 0x0A, CHR 0x0D, CHR 0x09] @ ''<>&'')"
    using c unfolding list_all_iff by blast
  moreover have "\<not> of_char c < (32 :: nat)" using c by (simp add: is_digit_def)
  ultimately show ?thesis by (simp add: json_char_def)
qed

lemma plain_dec: "plain (dec n)"
  unfolding plain_def list_all_iff using dec_digits json_char_digit by blast

lemma plain_chars: "json_char CHR ''0'' = ''0''" "json_char CHR ''-'' = ''-''" "json_char CHR ''+'' = ''+''"
  "json_char CHR '':'' = '':''" "json_char CHR ''T'' = ''T''" "json_char CHR ''Z'' = ''Z''"
  by code_simp+

lemma plain_pad: "plain (pad w n)"
proof -
  have "plain (replicate k (CHR ''0''))" for k by (induction k) (simp_all add: plain_chars)
  then show ?thesis by (simp add: pad_def Let_def plain_dec plain_chars)
qed

lemma plain_rfc3339: "plain (format_rfc3339 t)"
  by (simp add: format_rfc3339_def format_zone_def Let_def plain_pad plain_chars)

definition bound_text :: "gotime option \<Rightarrow> string" where
  "bound_text b = (case b of None \<Rightarrow> ''null'' | Some t \<Rightarrow> format_rfc3339 t)"

definition window_json :: "window \<Rightarrow> json" where
  "window_json w = JObj [(''start'', JStr (bound_text (start w))), (''end'', JStr (bound_text (end w)))]"

lemma plain_words: "plain ''start''" "plain ''end''" "plain ''null''"
  by code_simp+

lemma plain_bound: "plain (bound_text b)"
  using plain_words(3) by (simp add: bound_text_def plain_rfc3339 del: plain_simps split: option.split)

lemma MarshalJSON_text: "MarshalJSON w = json_text (window_json w)"
  using plain_bound [of "start w"] plain_bound [of "end w"] plain_words
  by (simp add: MarshalJSON_def window_json_def json_field_def plain_json_string bound_text_def
      del: plain_simps split: option.splits)

lemma unmarshal_window:
  "unmarshal_struct pub_fields \<lparr>pubStart = [], pubEnd = []\<rparr> (MarshalJSON w) =
   Some \<lparr>pubStart = bound_text (start w), pubEnd = bound_text (end w)\<rparr>"
proof -
  have "wf_json (window_json w)" "depth (window_json w) \<le> 10000" by (simp_all add: window_json_def)
  then have "parse_json (MarshalJSON w) = Some (window_json w)"
    unfolding MarshalJSON_text by (rule parse_json_text)
  moreover have "field_for pub_fields ''start'' = Some (string_field pubStart_update)"
    "field_for pub_fields ''end'' = Some (string_field pubEnd_update)"
    by (simp_all add: field_for_def pub_fields_def)
  ultimately show ?thesis
    by (simp add: unmarshal_struct_def window_json_def store_object_def store_member_def string_field_def)
qed

lemma format_rfc3339_hd: "0 \<le> year_of t \<Longrightarrow> year_of t \<le> 9999 \<Longrightarrow> format_rfc3339 t \<noteq> ''null''"
proof
  assume y: "0 \<le> year_of t" "year_of t \<le> 9999" and n: "format_rfc3339 t = ''null''"
  have "nat (year_of t) div 1000 < 10" using y by simp
  then have "is_digit (hd (format_rfc3339 t))" unfolding format_rfc3339_def pad4 [OF y] by simp
  moreover have "\<not> is_digit (hd ''null'')" by code_simp
  ultimately show False using n by simp
qed

section \<open>Properties\<close>

lemma parse_bound_text:
  assumes "\<forall>t. b = Some t \<longrightarrow> printable t"
  obtains b' where "parse_bound local what (bound_text b) = Inr b'" "rel_option same_moment b b'"
proof (cases b)
  case None
  then show thesis by (intro that [of None]) (simp_all add: parse_bound_def bound_text_def)
next
  case (Some t)
  then have p: "printable t" using assms by simp
  then have ne: "format_rfc3339 t \<noteq> ''null''" by (intro format_rfc3339_hd) (simp_all add: printable_def)
  obtain u where u: "parse_rfc3339 local (format_rfc3339 t) = Some u" "same_moment t u"
    using parse_rfc3339_format [OF p] by blast
  show thesis by (rule that [of "Some u"]) (use Some ne u in \<open>simp_all add: parse_bound_def bound_text_def\<close>)
qed

text \<open>
  C22. A window written as JSON and read back, on a machine in whatever zone, has a bound exactly where
  it had one, and each is the same moment cut to the second, at the same offset from UTC. Bounds
  must be in the years 0 to 9999 at offsets of whole minutes, as the layout cannot show others.
\<close>

theorem UnmarshalJSON_roundtrip:
  assumes "\<forall>t. start w = Some t \<or> end w = Some t \<longrightarrow> printable t"
  shows "\<exists>w'. UnmarshalJSON local (MarshalJSON w) = Inr w' \<and>
    rel_option same_moment (start w) (start w') \<and> rel_option same_moment (end w) (end w')"
proof -
  obtain s where s: "parse_bound local ''start'' (bound_text (start w)) = Inr s" "rel_option same_moment (start w) s"
    using parse_bound_text [of "start w"] assms by blast
  obtain e where e: "parse_bound local ''end'' (bound_text (end w)) = Inr e" "rel_option same_moment (end w) e"
    using parse_bound_text [of "end w"] assms by blast
  have "UnmarshalJSON local (MarshalJSON w) = Inr (NewWindow s e)"
    by (simp add: UnmarshalJSON_def unmarshal_window s(1) e(1))
  then show ?thesis using s(2) e(2) by (simp add: NewWindow_def)
qed

theorem UnmarshalJSON_roundtrip_witness:
  "\<exists>w'. UnmarshalJSON utc (MarshalJSON \<lparr>start = Some \<lparr>ns = 5, zone = (\<lambda>_. 28800)\<rparr>, end = None\<rparr>) = Inr w' \<and>
    end w' = None \<and> (\<exists>u. start w' = Some u \<and> ns u = 0 \<and> zone u 0 = 28800)"
proof -
  let ?w = "\<lparr>start = Some \<lparr>ns = 5, zone = (\<lambda>_. 28800)\<rparr>, end = None\<rparr>"
  have "printable \<lparr>ns = 5, zone = (\<lambda>_. 28800)\<rparr>" by code_simp
  then obtain w' where w': "UnmarshalJSON utc (MarshalJSON ?w) = Inr w'"
    "rel_option same_moment (start ?w) (start w')" "rel_option same_moment (end ?w) (end w')"
    using UnmarshalJSON_roundtrip [of ?w utc] by auto
  from w'(2) obtain u where u: "start w' = Some u" "same_moment \<lparr>ns = 5, zone = (\<lambda>_. 28800)\<rparr> u"
    by (auto simp: option_rel_Some1)
  then have "ns u = 0" "zone u 0 = 28800" by (auto simp: same_moment_def unix_sec_def)
  with w'(1,3) u(1) show ?thesis by auto
qed

end
