(* ===== verification/Label_Selector.thy ===== *)
theory Label_Selector
  imports Go_Strings "HOL-Library.Char_ord" "HOL-Library.List_Lexorder"
begin

text \<open>
  The part of \<open>k8s.io/apimachinery/pkg/labels\<close> that the adapter builds selectors with: the
  validity of label keys and values, requirements, and the text of a selector with its
  requirements sorted by key. Strings are ordered by their bytes. The lemmas show that the
  text does not depend on the order in which requirements with different keys are added.
\<close>

section \<open>Valid keys and values\<close>

definition in_range :: "char \<Rightarrow> char \<Rightarrow> char \<Rightarrow> bool" where
  "in_range a b c \<longleftrightarrow> of_char a \<le> (of_char c :: nat) \<and> of_char c \<le> (of_char b :: nat)"

definition lower_alnum :: "char \<Rightarrow> bool" where
  "lower_alnum c \<longleftrightarrow> is_digit c \<or> in_range (CHR ''a'') (CHR ''z'') c"

definition alnum :: "char \<Rightarrow> bool" where
  "alnum c \<longleftrightarrow> lower_alnum c \<or> in_range (CHR ''A'') (CHR ''Z'') c"

text \<open>\<open>(X Y*)? X\<close> for character classes \<open>X\<close> within \<open>Y\<close>.\<close>

definition bracketed :: "(char \<Rightarrow> bool) \<Rightarrow> (char \<Rightarrow> bool) \<Rightarrow> string \<Rightarrow> bool" where
  "bracketed x y s \<longleftrightarrow> s \<noteq> [] \<and> x (hd s) \<and> x (last s) \<and> list_all y s"

definition qualified_name :: "string \<Rightarrow> bool" where
  "qualified_name = bracketed alnum (\<lambda>c. alnum c \<or> c \<in> set ''-_.'')"

definition dns1123_label :: "string \<Rightarrow> bool" where
  "dns1123_label = bracketed lower_alnum (\<lambda>c. lower_alnum c \<or> c = CHR ''-'')"

definition dns1123_subdomain :: "string \<Rightarrow> bool" where
  "dns1123_subdomain s \<longleftrightarrow> length s \<le> 253 \<and> list_all dns1123_label (split_str s ''.'')"

definition IsQualifiedName :: "string \<Rightarrow> bool" where
  "IsQualifiedName s =
     (case split_str s ''/'' of
        [name] \<Rightarrow> length name \<le> 63 \<and> qualified_name name
      | [prefix, name] \<Rightarrow> dns1123_subdomain prefix \<and> length name \<le> 63 \<and> qualified_name name
      | _ \<Rightarrow> False)"

definition IsValidLabelValue :: "string \<Rightarrow> bool" where
  "IsValidLabelValue s \<longleftrightarrow> length s \<le> 63 \<and> (s = [] \<or> qualified_name s)"

section \<open>Requirements and selectors\<close>

datatype operator =
  In | NotIn | Equals | DoubleEquals | NotEquals | Exists | DoesNotExist | GreaterThan | LessThan

record requirement =
  rkey :: string
  roperator :: operator
  rvalues :: "string list"

definition valid_in_requirement :: "string \<Rightarrow> string list \<Rightarrow> bool" where
  "valid_in_requirement key vals \<longleftrightarrow>
     IsQualifiedName key \<and> vals \<noteq> [] \<and> list_all IsValidLabelValue vals"

definition NewRequirement :: "string \<Rightarrow> operator \<Rightarrow> string list \<Rightarrow> requirement res" where
  "NewRequirement key op vals =
     (if IsQualifiedName key \<and>
         (if op \<in> {In, NotIn} then vals \<noteq> []
          else if op \<in> {Exists, DoesNotExist} then vals = []
          else length vals = 1 \<and>
            (op \<in> {GreaterThan, LessThan} \<longrightarrow> list_all (\<lambda>v. snd (parse_int v) = None) vals)) \<and>
         list_all IsValidLabelValue vals
      then Inr \<lparr>rkey = key, roperator = op, rvalues = vals\<rparr>
      else Inl (Err ''invalid requirement''))"

lemma NewRequirement_In:
  "NewRequirement key In vals =
     (if valid_in_requirement key vals then Inr \<lparr>rkey = key, roperator = In, rvalues = vals\<rparr>
      else Inl (Err ''invalid requirement''))"
  by (simp add: NewRequirement_def valid_in_requirement_def)

definition operator_text :: "operator \<Rightarrow> string" where
  "operator_text op =
     (case op of
        Equals \<Rightarrow> ''='' | DoubleEquals \<Rightarrow> ''=='' | NotEquals \<Rightarrow> ''!=''
      | In \<Rightarrow> '' in '' | NotIn \<Rightarrow> '' notin '' | GreaterThan \<Rightarrow> ''>'' | LessThan \<Rightarrow> ''<''
      | Exists \<Rightarrow> [] | DoesNotExist \<Rightarrow> [])"

definition requirement_string :: "requirement \<Rightarrow> string" where
  "requirement_string r =
     (let op = roperator r; vals = join '','' (sort (rvalues r)) in
      (if op = DoesNotExist then ''!'' else []) @ rkey r @ operator_text op @
      (if op \<in> {Exists, DoesNotExist} then []
       else if op \<in> {In, NotIn} then ''('' @ vals @ '')''
       else vals))"

text \<open>
  \<open>sort.Sort(ByKey(reqs))\<close> promises a permutation sorted by key and nothing about requirements with equal keys: it is not stable. A
  parameter \<open>srt\<close> stands for it where keys may repeat.
\<close>

type_synonym requirement_sort = "requirement list \<Rightarrow> requirement list"

definition sorts_by_key :: "requirement_sort \<Rightarrow> bool" where
  "sorts_by_key srt \<longleftrightarrow> (\<forall>rs. mset (srt rs) = mset rs \<and> sorted (map rkey (srt rs)))"

lemma sorts_by_keyD:
  assumes "sorts_by_key srt"
  shows "mset (srt rs) = mset rs" "set (srt rs) = set rs" "sorted (map rkey (srt rs))"
proof -
  show m: "mset (srt rs) = mset rs" and "sorted (map rkey (srt rs))" using assms by (simp_all add: sorts_by_key_def)
  from m show "set (srt rs) = set rs" by (rule mset_eq_setD)
qed

text \<open>
  \<open>labels.NewSelector().Add(reqs...)\<close> and its \<open>String\<close>. The adapter adds requirements with distinct keys only, and then every
  sort gives this list (\<open>sorts_distinct\<close>).
\<close>

definition new_selector :: "requirement list \<Rightarrow> requirement list" where
  "new_selector reqs = sort_key rkey reqs"

definition selector_string :: "requirement list \<Rightarrow> string" where
  "selector_string s = join '','' (map requirement_string s)"

lemma sorted_distinct_unique:
  assumes "mset xs = mset ys" "distinct (map f xs)" "sorted (map f xs)" "sorted (map f ys)"
  shows "xs = ys"
proof -
  have m: "mset (map f xs) = mset (map f ys)" using assms(1) by simp
  then have d: "distinct (map f ys)" using assms(2) mset_eq_imp_distinct_iff by blast
  from m have "set (map f xs) = set (map f ys)" by (rule mset_eq_setD)
  then have eq: "map f xs = map f ys" using sorted_distinct_set_unique assms(2-4) d by blast
  have "set xs = set ys" using assms(1) by (rule mset_eq_setD)
  moreover have "inj_on f (set xs)" using assms(2) by (simp add: distinct_map)
  ultimately have "inj_on f (set xs \<union> set ys)" by simp
  with eq show ?thesis by (rule map_inj_on)
qed

lemma new_selector_perm:
  assumes "mset xs = mset ys" "distinct (map rkey xs)"
  shows "new_selector xs = new_selector ys"
  unfolding new_selector_def
proof (rule sorted_distinct_unique [where f = rkey])
  show "mset (sort_key rkey xs) = mset (sort_key rkey ys)" using assms(1) by simp
  have "mset (map rkey (sort_key rkey xs)) = mset (map rkey xs)" by simp
  then show "distinct (map rkey (sort_key rkey xs))"
    using assms(2) mset_eq_imp_distinct_iff by blast
qed simp_all

lemma sorts_distinct:
  assumes "sorts_by_key srt" "distinct (map rkey rs)"
  shows "srt rs = new_selector rs"
  unfolding new_selector_def
proof (rule sorted_distinct_unique [where f = rkey])
  note srt = sorts_by_keyD [OF assms(1)]
  show "mset (srt rs) = mset (sort_key rkey rs)" by (simp add: srt)
  have "mset (map rkey (srt rs)) = mset (map rkey rs)" by (simp add: srt)
  then show "distinct (map rkey (srt rs))" using assms(2) mset_eq_imp_distinct_iff by blast
qed (simp_all add: sorts_by_keyD [OF assms(1)])

lemma new_selector_sorts: "sorts_by_key new_selector"
  by (simp add: sorts_by_key_def new_selector_def)

lemma new_selector_set [simp]: "set (new_selector reqs) = set reqs"
  by (simp add: new_selector_def)

lemma join_eq_Nil: "join sep xs = [] \<Longrightarrow> sep \<noteq> [] \<Longrightarrow> xs = [] \<or> xs = [[]]"
  by (cases "(sep, xs)" rule: join.cases) auto

lemma requirement_string_In [simp]: "roperator r = In \<Longrightarrow> requirement_string r \<noteq> []"
  by (simp add: requirement_string_def operator_text_def)

lemma selector_string_ne: "s \<noteq> [] \<Longrightarrow> \<forall>r \<in> set s. roperator r = In \<Longrightarrow> selector_string s \<noteq> []"
  using join_eq_Nil [of "'',''" "map requirement_string s"] by (auto simp: selector_string_def)

end
