(* ===== verification/Filter_Model.thy ===== *)
theory Filter_Model
  imports Label_Selector
begin

text \<open>
  \<open>pkg/metrics/costv2/types/filter.go\<close>: the cost filter, its parser and the label selector it
  is turned into. A nil slice or map is \<open>None\<close>. The loop over the label map takes the order
  of the run as the argument \<open>ks\<close>. The lemmas give the selector as a function of the
  requirements alone, and the well-formedness of every parsed filter.
\<close>

section \<open>The filter\<close>

record cost_filter =
  fCluster :: "string list option"
  fNamespace :: "string list option"
  fControllerName :: "string list option"
  fControllerKind :: "string list option"
  fPod :: "string list option"
  fLabel :: "(string, string list option) gomap option"

definition empty_filter :: cost_filter where
  "empty_filter = \<lparr>fCluster = None, fNamespace = None, fControllerName = None,
     fControllerKind = None, fPod = None, fLabel = None\<rparr>"

text \<open>The elements of a slice; a nil slice has none.\<close>

definition elems :: "'a list option \<Rightarrow> 'a list" where
  "elems xs = (case xs of None \<Rightarrow> [] | Some xs \<Rightarrow> xs)"

lemma elems_simps [simp]: "elems None = []" "elems (Some xs) = xs"
  by (simp_all add: elems_def)

definition label_map :: "cost_filter \<Rightarrow> (string, string list option) gomap" where
  "label_map f = (case fLabel f of None \<Rightarrow> Map.empty | Some m \<Rightarrow> m)"

definition IsEmptyExceptCluster :: "cost_filter \<Rightarrow> bool" where
  "IsEmptyExceptCluster f \<longleftrightarrow>
     elems (fNamespace f) = [] \<and> elems (fControllerName f) = [] \<and>
     elems (fControllerKind f) = [] \<and> elems (fPod f) = [] \<and> label_map f = Map.empty"

section \<open>The label selector of a filter\<close>

text \<open>An invalid requirement is an error; its message is only logged.\<close>

definition addInRequirement :: "string \<Rightarrow> string list \<Rightarrow> requirement list \<Rightarrow> requirement list res" where
  "addInRequirement key values reqs =
     (if values = [] then Inr reqs
      else and_then (NewRequirement key In values) (\<lambda>r. Inr (reqs @ [r])))"

definition label_requirement ::
  "cost_filter \<Rightarrow> string \<Rightarrow> requirement list \<Rightarrow> requirement list res" where
  "label_requirement f key reqs =
     (case label_map f key of
        Some (Some values) \<Rightarrow> addInRequirement (''label_'' @ key) values reqs
      | _ \<Rightarrow> Inr reqs)"

definition GetLabelSelectorStr_filter :: "string list \<Rightarrow> cost_filter \<Rightarrow> string" where
  "GetLabelSelectorStr_filter ks f =
     (case and_then (each (label_requirement f) ks []) (\<lambda>r.
           and_then (addInRequirement ''cluster'' (elems (fCluster f)) r) (\<lambda>r.
           and_then (addInRequirement ''namespace'' (elems (fNamespace f)) r) (\<lambda>r.
           and_then (addInRequirement ''created_by_name'' (elems (fControllerName f)) r) (\<lambda>r.
           and_then (addInRequirement ''created_by_kind'' (elems (fControllerKind f)) r) (\<lambda>r.
             addInRequirement ''pod'' (elems (fPod f)) r))))) of
        Inl _ \<Rightarrow> []
      | Inr reqs \<Rightarrow> if reqs = [] then [] else selector_string (new_selector reqs))"

section \<open>Parsing\<close>

definition parseFilterParts :: "string \<Rightarrow> string list" where
  "parseFilterParts filterStr =
     (let prefixes = [''namespace:'', ''controllerName:'', ''controllerKind:'', ''pod:'', ''label[''];
          s = fold (\<lambda>prefix s. replace_all s prefix (CHR 0x1F # prefix)) prefixes filterStr
      in split_str s [CHR 0x1F])"

definition parseValueList :: "string \<Rightarrow> string list" where
  "parseValueList values = map (\<lambda>v. trim (trim v '' '') [CHR 0x22]) (split_str values '','')"

text \<open>One part of the filter string; the switch on its key.\<close>

definition set_field :: "string \<Rightarrow> string \<Rightarrow> cost_filter \<Rightarrow> cost_filter res" where
  "set_field key values f =
     (if has_prefix key ''cluster'' then Inr (f\<lparr>fCluster := Some (parseValueList values)\<rparr>)
      else if has_prefix key ''namespace'' then Inr (f\<lparr>fNamespace := Some (parseValueList values)\<rparr>)
      else if has_prefix key ''controllerName'' then Inr (f\<lparr>fControllerName := Some (parseValueList values)\<rparr>)
      else if has_prefix key ''controllerKind'' then Inr (f\<lparr>fControllerKind := Some (parseValueList values)\<rparr>)
      else if has_prefix key ''pod'' then Inr (f\<lparr>fPod := Some (parseValueList values)\<rparr>)
      else if has_prefix key ''label['' then
        let labelKey = trim_suffix (trim_prefix key ''label['') '']''
        in Inr (f\<lparr>fLabel := Some [labelKey \<mapsto> Some [trim values [CHR 0x22]]]\<rparr>)
      else Inl (Err (''unsupported filter key: '' @ key)))"

definition parse_part :: "string \<Rightarrow> cost_filter \<Rightarrow> cost_filter res" where
  "parse_part part f =
     (if part = [] then Inr f
      else let part = trim part '' '' in
        case split_n2 part [CHR '':'', CHR 0x22] of
          [k, v] \<Rightarrow> set_field (trim k [CHR 0x22]) (trim v ''+'') f
        | _ \<Rightarrow> Inl (Err (''invalid filter format: '' @ part)))"

definition controller_kind :: "string \<Rightarrow> string res" where
  "controller_kind kind =
     (let k = to_lower kind in
      if k = ''deployment'' then Inr ''ReplicaSet''
      else if k = ''daemonset'' then Inr ''DaemonSet''
      else if k = ''statefulset'' then Inr ''StatefulSet''
      else if k = ''job'' then Inr ''Job''
      else if k = ''replicaset'' then Inr ''ReplicaSet''
      else Inl (Err (''unsupported controller kind: '' @ kind)))"

fun controller_kinds :: "string list \<Rightarrow> string list res" where
  "controller_kinds [] = Inr []"
| "controller_kinds (k # ks) =
     and_then (controller_kind k) (\<lambda>k'. and_then (controller_kinds ks) (\<lambda>ks'. Inr (k' # ks')))"

definition ParseFilter :: "string \<Rightarrow> cost_filter res" where
  "ParseFilter filterStr =
     and_then (each parse_part (parseFilterParts filterStr) empty_filter) (\<lambda>f.
       case fControllerKind f of
         None \<Rightarrow> Inr f
       | Some kinds \<Rightarrow>
           and_then (controller_kinds kinds) (\<lambda>kinds'. Inr (f\<lparr>fControllerKind := Some kinds'\<rparr>)))"

section \<open>The requirements of a filter\<close>

definition filter_entries :: "string list \<Rightarrow> cost_filter \<Rightarrow> (string \<times> string list) list" where
  "filter_entries ks f =
     map (\<lambda>k. (''label_'' @ k, case label_map f k of Some (Some vs) \<Rightarrow> vs | _ \<Rightarrow> [])) ks @
     [(''cluster'', elems (fCluster f)), (''namespace'', elems (fNamespace f)),
      (''created_by_name'', elems (fControllerName f)), (''created_by_kind'', elems (fControllerKind f)),
      (''pod'', elems (fPod f))]"

definition requirements :: "(string \<times> string list) list \<Rightarrow> requirement list" where
  "requirements es = map (\<lambda>(k, vs). \<lparr>rkey = k, roperator = In, rvalues = vs\<rparr>) (filter (\<lambda>(k, vs). vs \<noteq> []) es)"

definition entries_valid :: "(string \<times> string list) list \<Rightarrow> bool" where
  "entries_valid es \<longleftrightarrow> (\<forall>(k, vs) \<in> set es. vs \<noteq> [] \<longrightarrow> valid_in_requirement k vs)"

definition add_entry :: "string \<times> string list \<Rightarrow> requirement list \<Rightarrow> requirement list res" where
  "add_entry e = addInRequirement (fst e) (snd e)"

lemma each_map: "each f (map g xs) s = each (\<lambda>x. f (g x)) xs s"
  by (induction xs arbitrary: s) (simp_all add: and_then_def split: sum.split)

lemma each_add_entry:
  "each add_entry es reqs =
    (if entries_valid es then Inr (reqs @ requirements es) else Inl (Err ''invalid requirement''))"
proof (induction es arbitrary: reqs)
  case (Cons e es)
  then show ?case
    by (cases e) (auto simp: add_entry_def addInRequirement_def NewRequirement_In entries_valid_def requirements_def)
qed (simp add: entries_valid_def requirements_def)

lemma selector_entries:
  "GetLabelSelectorStr_filter ks f =
    (if entries_valid (filter_entries ks f) \<and> requirements (filter_entries ks f) \<noteq> []
     then selector_string (new_selector (requirements (filter_entries ks f))) else [])"
proof -
  have lab: "label_requirement f k = add_entry (''label_'' @ k,
      case label_map f k of Some (Some vs) \<Rightarrow> vs | _ \<Rightarrow> [])" for k
    by (rule ext) (simp add: label_requirement_def add_entry_def addInRequirement_def split: option.split)
  have "GetLabelSelectorStr_filter ks f =
      (case each add_entry (filter_entries ks f) [] of Inl _ \<Rightarrow> []
       | Inr reqs \<Rightarrow> if reqs = [] then [] else selector_string (new_selector reqs))"
    unfolding GetLabelSelectorStr_filter_def filter_entries_def each_append each_map lab [symmetric]
    by (simp add: add_entry_def and_then_def split: sum.split)
  then show ?thesis by (simp add: each_add_entry)
qed

lemma filter_entries_distinct:
  assumes "distinct ks"
  shows "distinct (map fst (filter_entries ks f))"
proof -
  have "map fst (filter_entries ks f) = map ((@) ''label_'') ks @
      [''cluster'', ''namespace'', ''created_by_name'', ''created_by_kind'', ''pod'']"
    by (simp add: filter_entries_def comp_def)
  moreover have "distinct (map ((@) ''label_'') ks)" using assms by (auto simp: distinct_map intro: inj_onI)
  ultimately show ?thesis by auto
qed

lemma requirements_distinct:
  "distinct (map fst es) \<Longrightarrow> distinct (map rkey (requirements es))"
proof -
  assume d: "distinct (map fst es)"
  have "map rkey (requirements es) = map fst (filter (\<lambda>(k, vs). vs \<noteq> []) es)"
    by (simp add: requirements_def comp_def case_prod_unfold)
  then show ?thesis using d by (simp add: distinct_map_filter)
qed

lemma requirements_perm: "mset es = mset es' \<Longrightarrow> mset (requirements es) = mset (requirements es')"
  by (simp add: requirements_def)

lemma entries_valid_perm: "mset es = mset es' \<Longrightarrow> entries_valid es = entries_valid es'"
  by (simp add: entries_valid_def mset_eq_setD [of es es'])

section \<open>Well-formed filters\<close>

definition wf_values :: "string list option \<Rightarrow> bool" where
  "wf_values vs \<longleftrightarrow> vs \<noteq> Some []"

definition wf_label :: "(string, string list option) gomap option \<Rightarrow> bool" where
  "wf_label m \<longleftrightarrow> (case m of None \<Rightarrow> True | Some m \<Rightarrow> \<exists>k v. m = [k \<mapsto> Some [v]])"

definition known_kinds :: "string list" where
  "known_kinds = [''ReplicaSet'', ''DaemonSet'', ''StatefulSet'', ''Job'']"

definition wf_filter :: "cost_filter \<Rightarrow> bool" where
  "wf_filter f \<longleftrightarrow> wf_values (fCluster f) \<and> wf_values (fNamespace f) \<and> wf_values (fControllerName f)
     \<and> wf_values (fControllerKind f) \<and> wf_values (fPod f) \<and> wf_label (fLabel f)"

lemmas wf_filter_defs = wf_filter_def wf_values_def wf_label_def

lemma parseValueList_ne [simp]: "parseValueList v \<noteq> []"
  by (simp add: parseValueList_def)

lemma wf_label_single [simp]: "wf_label (Some [k \<mapsto> Some [v]])"
  by (auto simp: wf_label_def)

lemma set_field_wf: "set_field key v f = Inr g \<Longrightarrow> wf_filter f \<Longrightarrow> wf_filter g"
  unfolding set_field_def wf_filter_def
  by (auto split: if_splits simp: Let_def wf_values_def)

lemma parse_part_wf: "parse_part p f = Inr g \<Longrightarrow> wf_filter f \<Longrightarrow> wf_filter g"
  using set_field_wf by (auto simp: parse_part_def Let_def split: if_splits list.splits)

lemma parse_part_error: "parse_part p f = Inl e \<Longrightarrow> \<exists>m. e = Err m"
  by (auto simp: parse_part_def set_field_def Let_def split: if_splits list.splits)

lemma each_error: "(\<And>x s e. f x s = Inl e \<Longrightarrow> P e) \<Longrightarrow> each f xs s = Inl e \<Longrightarrow> P e"
  by (induction xs arbitrary: s) (auto simp: and_then_eq_Inl)

lemma controller_kinds_Inr:
  "controller_kinds ks = Inr ks' \<Longrightarrow> length ks' = length ks \<and> set ks' \<subseteq> set known_kinds"
  by (induction ks arbitrary: ks')
    (auto simp: and_then_eq_Inr controller_kind_def known_kinds_def Let_def split: if_splits)

lemma controller_kinds_error: "controller_kinds ks = Inl e \<Longrightarrow> \<exists>m. e = Err m"
  by (induction ks) (auto simp: and_then_eq_Inl controller_kind_def Let_def split: if_splits)

section \<open>Properties\<close>

text \<open>
  The label selector sent for a filter does not depend on the order in which the run visits the
  label map: whatever two runs do, they query the same selector.
\<close>

theorem GetLabelSelectorStr_order:
  assumes "iter_order ks (label_map f)" "iter_order ls (label_map f)"
  shows "GetLabelSelectorStr_filter ks f = GetLabelSelectorStr_filter ls f"
proof -
  have m: "mset (filter_entries ks f) = mset (filter_entries ls f)"
    using iter_order_mset [OF assms] by (simp add: filter_entries_def)
  have "distinct (map rkey (requirements (filter_entries ks f)))"
    using assms(1) by (intro requirements_distinct filter_entries_distinct) (simp add: iter_order_def)
  then have "new_selector (requirements (filter_entries ks f)) = new_selector (requirements (filter_entries ls f))"
    by (intro new_selector_perm requirements_perm m)
  moreover have "requirements (filter_entries ks f) = [] \<longleftrightarrow> requirements (filter_entries ls f) = []"
    using requirements_perm [OF m] by (metis mset_zero_iff)
  ultimately show ?thesis
    using entries_valid_perm [OF m] by (simp add: selector_entries)
qed

theorem GetLabelSelectorStr_order_witness:
  "GetLabelSelectorStr_filter [''a'', ''b'']
     (empty_filter\<lparr>fLabel := Some [''a'' \<mapsto> Some [''x''], ''b'' \<mapsto> Some [''y'']]\<rparr>) =
   GetLabelSelectorStr_filter [''b'', ''a'']
     (empty_filter\<lparr>fLabel := Some [''a'' \<mapsto> Some [''x''], ''b'' \<mapsto> Some [''y'']]\<rparr>)"
  by (rule GetLabelSelectorStr_order) (auto simp: iter_order_def label_map_def)

text \<open>
  The selector of a filter is empty exactly when no entry restricts anything or some entry is
  invalid: one value that is not a label value turns the whole filter off, and the query
  runs over every pod.
\<close>

theorem GetLabelSelectorStr_empty_iff:
  "GetLabelSelectorStr_filter ks f = [] \<longleftrightarrow>
     (\<forall>(k, vs) \<in> set (filter_entries ks f). vs = []) \<or>
     (\<exists>(k, vs) \<in> set (filter_entries ks f). vs \<noteq> [] \<and>
        (\<not> IsQualifiedName k \<or> (\<exists>v \<in> set vs. \<not> IsValidLabelValue v)))"
proof -
  let ?es = "filter_entries ks f"
  have r: "requirements ?es = [] \<longleftrightarrow> (\<forall>(k, vs) \<in> set ?es. vs = [])"
    by (auto simp: requirements_def filter_empty_conv)
  have v: "entries_valid ?es \<longleftrightarrow> \<not> (\<exists>(k, vs) \<in> set ?es. vs \<noteq> [] \<and>
      (\<not> IsQualifiedName k \<or> (\<exists>v \<in> set vs. \<not> IsValidLabelValue v)))"
    by (fastforce simp: entries_valid_def valid_in_requirement_def list_all_iff)
  have "selector_string (new_selector (requirements ?es)) \<noteq> []" if "requirements ?es \<noteq> []"
  proof (rule selector_string_ne)
    have "set (new_selector (requirements ?es)) \<noteq> {}" using that by (subst new_selector_set) simp
    then show "new_selector (requirements ?es) \<noteq> []" by (metis list.set(1))
  qed (auto simp: requirements_def)
  then show ?thesis unfolding selector_entries r [symmetric] v [symmetric]
    by (simp add: v r)
qed

theorem GetLabelSelectorStr_empty_iff_witness:
  "GetLabelSelectorStr_filter [] (empty_filter\<lparr>fNamespace := Some [''default'']\<rparr>) = ''namespace in (default)''
   \<and> GetLabelSelectorStr_filter []
       (empty_filter\<lparr>fNamespace := Some [''default''], fPod := Some [''a b'']\<rparr>) = []"
proof -
  let ?f = "empty_filter\<lparr>fNamespace := Some [''default''], fPod := Some [''a b'']\<rparr>"
  have "(''pod'', [''a b'']) \<in> set (filter_entries [] ?f)" "\<not> IsValidLabelValue ''a b''"
    by (simp add: filter_entries_def, code_simp)
  then have "GetLabelSelectorStr_filter [] ?f = []"
    using GetLabelSelectorStr_empty_iff [of "[]" ?f] by fastforce
  moreover have "GetLabelSelectorStr_filter [] (empty_filter\<lparr>fNamespace := Some [''default'']\<rparr>) =
      ''namespace in (default)''" by code_simp
  ultimately show ?thesis by simp
qed

lemma ParseFilter_result:
  "case ParseFilter s of
     Inl e \<Rightarrow> (\<exists>m. e = Err m)
   | Inr f \<Rightarrow> wf_filter f \<and> set (elems (fControllerKind f)) \<subseteq> set known_kinds"
proof (cases "each parse_part (parseFilterParts s) empty_filter")
  case (Inl e)
  then have "\<exists>m. e = Err m"
    using each_error [of parse_part "\<lambda>e. \<exists>m. e = Err m"] parse_part_error by blast
  with Inl show ?thesis by (simp add: ParseFilter_def)
next
  case (Inr f)
  have f: "wf_filter f"
  proof (rule each_invariant [OF Inr])
    show "wf_filter empty_filter" by (simp add: wf_filter_defs empty_filter_def)
  qed (auto intro: parse_part_wf)
  show ?thesis
  proof (cases "fControllerKind f")
    case None
    with Inr f show ?thesis by (simp add: ParseFilter_def)
  next
    case (Some kinds)
    then show ?thesis
      using Inr f controller_kinds_Inr [of kinds] controller_kinds_error [of kinds]
      by (cases "controller_kinds kinds") (auto simp: ParseFilter_def wf_filter_defs)
  qed
qed

text \<open>
  C37. Whatever the filter string, the parser returns an error value or a well-formed filter: no
  empty value list, at most one label with one value, and only controller kinds the
  cluster reports (\<open>deployment\<close> is looked up as \<open>ReplicaSet\<close>). It never panics.
\<close>

theorem ParseFilter_wf:
  "case ParseFilter s of
     Inl e \<Rightarrow> (\<exists>m. e = Err m)
   | Inr f \<Rightarrow> wf_filter f \<and> set (elems (fControllerKind f)) \<subseteq> set known_kinds"
  by (rule ParseFilter_result)

end
