(* ===== verification/Cost_Metrics.thy ===== *)
theory Cost_Metrics
  imports Filter_Model Window_Model
begin

text \<open>
  \<open>pkg/metrics/costv2/cost_metrics.go\<close>: the cost metric source behind the external metrics
  API. It turns the requirements of a label selector into a PromQL query, asks
  Prometheus at the end of the window and converts the samples. Prometheus is the
  argument \<open>prom\<close>, \<open>time.Parse\<close> for layouts other than the adapter's own the argument
  \<open>parse_other\<close>. The lemmas say when a request panics, what it returns, and how the window
  of a cost query reaches the query text.
\<close>

section \<open>Metric names and query templates\<close>

definition mCPUCoreRequestAverage :: string where "mCPUCoreRequestAverage = ''cpu_core_request_average''"
definition mCPUCoreUsageAverage :: string where "mCPUCoreUsageAverage = ''cpu_core_usage_average''"
definition mMemoryRequestAverage :: string where "mMemoryRequestAverage = ''memory_request_average''"
definition mMemoryUsageAverage :: string where "mMemoryUsageAverage = ''memory_usage_average''"
definition mCostPodCPURequest :: string where "mCostPodCPURequest = ''cost_pod_cpu_request''"
definition mCostPodMemoryRequest :: string where "mCostPodMemoryRequest = ''cost_pod_memory_request''"
definition mCostTotal :: string where "mCostTotal = ''cost_total''"
definition mCostNode :: string where "mCostNode = ''cost_node''"
definition mCostCustom :: string where "mCostCustom = ''cost_custom''"
definition mBillingPretaxAmountTotal :: string where "mBillingPretaxAmountTotal = ''billing_pretax_amount_total''"
definition mBillingPretaxGrossAmountTotal :: string where "mBillingPretaxGrossAmountTotal = ''billing_pretax_gross_amount_total''"
definition mBillingPretaxAmountNode :: string where "mBillingPretaxAmountNode = ''billing_pretax_amount_node''"
definition mKubePodInfo :: string where "mKubePodInfo = ''metrics_kube_pod_info''"
definition mKubePodLabels :: string where "mKubePodLabels = ''metrics_kube_pod_labels''"
definition mKubeNodeInfo :: string where "mKubeNodeInfo = ''metrics_kube_node_info''"

lemmas metric_names =
  mCPUCoreRequestAverage_def mCPUCoreUsageAverage_def mMemoryRequestAverage_def
  mMemoryUsageAverage_def mCostPodCPURequest_def mCostPodMemoryRequest_def
  mCostTotal_def mCostNode_def mCostCustom_def
  mBillingPretaxAmountTotal_def mBillingPretaxGrossAmountTotal_def mBillingPretaxAmountNode_def
  mKubePodInfo_def mKubePodLabels_def mKubeNodeInfo_def

definition QueryCPUCoreRequestAverage :: string where
  \<open>QueryCPUCoreRequestAverage = ''sum(avg_over_time((max(kube_pod_container_resource_requests{resource="cpu"}) by (pod,namespace,container))[%s])) by (namespace, pod)''\<close>

definition QueryCPUCoreUsageAverage :: string where
  \<open>QueryCPUCoreUsageAverage = ''sum(avg_over_time(rate(container_cpu_usage_seconds_total[1m])[%s])) by(namespace, pod)''\<close>

definition QueryMemoryRequestAverage :: string where
  \<open>QueryMemoryRequestAverage = ''sum(avg_over_time((max(kube_pod_container_resource_requests{resource="memory"}) by (pod,namespace,container))[%s])) by (namespace, pod)''\<close>

definition QueryMemoryUsageAverage :: string where
  \<open>QueryMemoryUsageAverage = ''sum(avg_over_time(container_memory_working_set_bytes[%s])) by(namespace, pod)''\<close>

definition QueryCostPodCPURequest :: string where
  \<open>QueryCostPodCPURequest = ''sum(sum_over_time((max(node_current_price) by (node) / on (node)  group_left max(kube_node_status_capacity{resource="cpu"}) by(node) * on(node) group_right max(kube_pod_container_resource_requests{resource="cpu"}) by (node,pod,namespace,container) * on(pod, namespace) group_left max(kube_pod_status_phase{phase=~"Running"}) by (pod,namespace))[%s])) by (namespace, pod) * %s''\<close>

definition QueryCostPodMemoryRequest :: string where
  \<open>QueryCostPodMemoryRequest = ''sum(sum_over_time((max(node_current_price) by (node) / on (node)  group_left max(kube_node_status_capacity{resource="memory"}) by(node) * on(node) group_right max(kube_pod_container_resource_requests{resource="memory"}) by (node,pod,namespace,container) * on(pod, namespace) group_left max(kube_pod_status_phase{phase=~"Running"}) by (pod,namespace))[%s])) by (namespace, pod) * %s''\<close>

definition QueryCostTotal :: string where
  \<open>QueryCostTotal = ''sum(sum_over_time((max(node_current_price{%s}) by (node))[%s])) * %s''\<close>

definition QueryCostNode :: string where
  \<open>QueryCostNode = ''sum_over_time((max(node_current_price{%s}) by (node))[%s]) * %s''\<close>

definition QueryCostCustom :: string where
  \<open>QueryCostCustom = ''sum_over_time((max(label_replace(label_replace(pod_custom_price, "namespace", "$1", "exported_namespace", "(.*)"), "pod", "$1", "exported_pod", "(.*)")) by (namespace,pod))[%s]) * %s''\<close>

definition QueryBillingPretaxAmountTotal :: string where
  \<open>QueryBillingPretaxAmountTotal = ''sum(sum_over_time(max(pretax_amount{%s}) by (product_code, instance_id)[%s]))''\<close>

definition QueryBillingPretaxGrossAmountTotal :: string where
  \<open>QueryBillingPretaxGrossAmountTotal = ''sum(sum_over_time(max(pretax_gross_amount{%s}) by (product_code, instance_id)[%s]))''\<close>

definition QueryBillingPretaxAmountNode :: string where
  \<open>QueryBillingPretaxAmountNode = ''sum(sum_over_time(max(pretax_amount{product_code="ecs"%s}) by (product_code, instance_id)[%s]))''\<close>

definition QueryFilteredPodInfo :: string where
  \<open>QueryFilteredPodInfo = ''max_over_time((max(kube_pod_labels{%s}) by (pod,namespace) * on(pod, namespace) group_right kube_pod_info{%s})[%s])''\<close>

definition QueryFilteredPodLabels :: string where
  \<open>QueryFilteredPodLabels = ''max_over_time((max(kube_pod_info{%s}) by (pod,namespace) * on(pod, namespace) group_right kube_pod_labels{%s})[%s])''\<close>

definition QueryNodeInfo :: string where
  \<open>QueryNodeInfo = ''max_over_time(kube_node_info{%s}[%s])''\<close>

text \<open>\<open>fmt.Sprintf\<close> with \<open>%s\<close> verbs only, on strings.\<close>

fun sprintf :: "string \<Rightarrow> string list \<Rightarrow> string" where
  "sprintf [] args =
     (if args = [] then []
      else ''%!(EXTRA '' @ join '', '' (map (\<lambda>a. ''string='' @ a) args) @ '')'')"
| "sprintf (c # s) args =
     (if c = CHR ''%'' \<and> s \<noteq> [] \<and> hd s = CHR ''s'' then
        (case args of
           [] \<Rightarrow> ''%!s(MISSING)'' @ sprintf (tl s) []
         | a # as \<Rightarrow> a @ sprintf (tl s) as)
      else c # sprintf s args)"

text \<open>
  \<open>strconv.FormatFloat(x, 'f', -1, 64)\<close> for \<open>\<bar>x\<bar> \<le> 2^53\<close>: the fewest decimals that read back as
  \<open>x\<close>. Thirty decimals suffice for durations.
\<close>

definition decimals :: "nat \<Rightarrow> nat \<Rightarrow> string" where
  "decimals k n =
     (if k = 0 then dec n
      else dec (n div 10 ^ k) @ ''.'' @
        (let f = dec (n mod 10 ^ k) in replicate (k - length f) (CHR ''0'') @ f))"

fun shortest :: "nat \<Rightarrow> nat \<Rightarrow> rat \<Rightarrow> string" where
  "shortest 0 k v = decimals k (nat (rne (v * 10 ^ k)))"
| "shortest (Suc fuel) k v =
     (let n = rne (v * 10 ^ k) in
      if val (round64 False (of_int n / 10 ^ k)) = v then decimals k (nat n)
      else shortest fuel (Suc k) v)"

definition format_float :: "f64 \<Rightarrow> string" where
  "format_float x = (if neg x then ''-'' else []) @ shortest 30 0 \<bar>val x\<bar>"

section \<open>Requirements\<close>

text \<open>\<open>Values().List()\<close> is the set of values, sorted. A later requirement on a key replaces an earlier one.\<close>

definition parseRequirements :: "requirement list \<Rightarrow> (string, string list) gomap" where
  "parseRequirements reqs =
     fold (\<lambda>r m. m(rkey r \<mapsto> sort (remdups (rvalues r)))) reqs Map.empty"

text \<open>\<open>requirementMap[key][0]\<close>: a missing key reads as a nil slice, whose element 0 does not exist.\<close>

definition first_value :: "(string, string list) gomap \<Rightarrow> string \<Rightarrow> string res" where
  "first_value m key = index (elems (m key)) 0"

definition parse_time :: "(string \<Rightarrow> string \<Rightarrow> gotime option) \<Rightarrow> string \<Rightarrow> string \<Rightarrow> gotime option" where
  "parse_time parse_other layout v =
     (if layout = WindowLayout then parse_window_time v else parse_other layout v)"

section \<open>The query\<close>

text \<open>\<open>key=~"a|b"\<close>\<close>

definition matcher :: "string \<Rightarrow> string \<Rightarrow> string" where
  \<open>matcher key v = key @ ''=~"'' @ v @ ''"''\<close>

definition list_matcher :: "(string, string list) gomap \<Rightarrow> string \<Rightarrow> string list" where
  "list_matcher m key = (case m key of Some l \<Rightarrow> [matcher key (join ''|'' l)] | None \<Rightarrow> [])"

text \<open>\<open>ks\<close> is the order in which the run visits the requirement map.\<close>

definition pod_label_str :: "string list \<Rightarrow> (string, string list) gomap \<Rightarrow> string res" where
  "pod_label_str ks m =
     each (\<lambda>key str.
       if has_prefix key ''label_''
       then and_then (first_value m key) (\<lambda>v. Inr (matcher key v))
       else Inr str) ks []"

definition pod_info_str :: "(string, string list) gomap \<Rightarrow> string" where
  "pod_info_str m =
     join '','' (list_matcher m ''namespace'' @ list_matcher m ''pod'' @
       list_matcher m ''created_by_kind'' @ list_matcher m ''created_by_name'' @ list_matcher m ''cluster'')"

definition common_label_str :: "(string, string list) gomap \<Rightarrow> string" where
  "common_label_str m = join '','' (list_matcher m ''cluster'')"

definition grouped :: "string \<Rightarrow> string" where
  "grouped q = sprintf ''%s * %s'' [q, sprintf ''on(pod, namespace) group_right %s'' [QueryFilteredPodInfo]]"

text \<open>The switch on the metric; an unknown name leaves the query empty.\<close>

definition query_text :: "string \<Rightarrow> string \<Rightarrow> string \<Rightarrow> string \<Rightarrow> string \<Rightarrow> string \<Rightarrow> string" where
  "query_text metricName labels info common dur secs =
     (if metricName = mKubePodInfo then sprintf QueryFilteredPodInfo [labels, info, dur]
      else if metricName = mKubePodLabels then sprintf QueryFilteredPodLabels [info, labels, dur]
      else if metricName = mKubeNodeInfo then sprintf QueryNodeInfo [common, dur]
      else if metricName = mCPUCoreRequestAverage then
        sprintf (grouped QueryCPUCoreRequestAverage) [dur, labels, info, dur]
      else if metricName = mCPUCoreUsageAverage then
        sprintf (grouped QueryCPUCoreUsageAverage) [dur, labels, info, dur]
      else if metricName = mMemoryRequestAverage then
        sprintf (grouped QueryMemoryRequestAverage) [dur, labels, info, dur]
      else if metricName = mMemoryUsageAverage then
        sprintf (grouped QueryMemoryUsageAverage) [dur, labels, info, dur]
      else if metricName = mCostPodCPURequest then
        sprintf (grouped QueryCostPodCPURequest) [dur, secs, labels, info, dur]
      else if metricName = mCostPodMemoryRequest then
        sprintf (grouped QueryCostPodMemoryRequest) [dur, secs, labels, info, dur]
      else if metricName = mCostTotal then sprintf QueryCostTotal [common, dur, secs]
      else if metricName = mCostNode then sprintf QueryCostNode [common, dur, secs]
      else if metricName = mCostCustom then
        sprintf (grouped QueryCostCustom) [dur, secs, labels, info, dur]
      else if metricName = mBillingPretaxAmountTotal then
        sprintf QueryBillingPretaxAmountTotal [common, dur]
      else if metricName = mBillingPretaxGrossAmountTotal then
        sprintf QueryBillingPretaxGrossAmountTotal [common, dur]
      else if metricName = mBillingPretaxAmountNode then
        sprintf QueryBillingPretaxAmountNode ['','' @ common, dur]
      else [])"

definition resolution_strs :: "(string, string list) gomap \<Rightarrow> duration \<Rightarrow> (string \<times> string) res" where
  "resolution_strs m duration =
     (case m ''resolution'' of
        None \<Rightarrow> Inr (ResolutionStringAndSeconds duration)
      | Some l \<Rightarrow>
          and_then (index l 0) (\<lambda>r.
            case ParseDuration r of
              Inl _ \<Rightarrow> Inr (ResolutionStringAndSeconds duration)
            | Inr d \<Rightarrow> Inr (r, format_float (Seconds d))))"

definition buildExternalQuery ::
  "(string \<Rightarrow> string \<Rightarrow> gotime option) \<Rightarrow> string list \<Rightarrow> string \<Rightarrow> (string, string list) gomap \<Rightarrow> string res" where
  "buildExternalQuery parse_other ks metricName m =
     and_then (pod_label_str ks m) (\<lambda>labels.
     and_then (first_value m ''window_layout'') (\<lambda>layout.
     and_then (first_value m ''window_start'') (\<lambda>s.
       case parse_time parse_other layout s of
         None \<Rightarrow> Inr []
       | Some start_time \<Rightarrow>
           and_then (first_value m ''window_end'') (\<lambda>e.
             case parse_time parse_other layout e of
               None \<Rightarrow> Inr []
             | Some end_time \<Rightarrow>
                 let duration = time_sub end_time start_time in
                 and_then (resolution_strs m duration) (\<lambda>(res_str, res_secs).
                   Inr (query_text metricName labels (pod_info_str m) (common_label_str m)
                     (DurationString duration @ '':'' @ res_str) res_secs))))))"

section \<open>Converting samples\<close>

record sample =
  sMetric :: "(string, string) gomap"
  sValue :: f64
  sTimestamp :: int \<comment> \<open>milliseconds since the epoch\<close>

record external_value =
  MetricName :: string
  MetricLabels :: "(string, string) gomap"
  Timestamp :: int
  MilliValue :: int

datatype query_result = Vector "sample list" | OtherResult

definition convertSample :: "string \<Rightarrow> sample \<Rightarrow> external_value" where
  "convertSample metricName s =
     \<lparr>MetricName = metricName, MetricLabels = sMetric s, Timestamp = sTimestamp s,
      MilliValue = trunc64 (fmul (sValue s) (Fin 1000))\<rparr>"

text \<open>The loop over the samples; the conversion of a sample never fails.\<close>

definition convertVector :: "string \<Rightarrow> query_result \<Rightarrow> external_value list res" where
  "convertVector metricName r =
     (case r of
        OtherResult \<Rightarrow> Inl (Err ''incorrect query result type'')
      | Vector toConvert \<Rightarrow>
          if length toConvert = 0 then Inl (Err ''the provided input did not contain vector query results'')
          else each (\<lambda>s items. Inr (items @ [convertSample metricName s])) toConvert [])"

lemma each_collects: "each (\<lambda>x ys. Inr (ys @ [f x])) xs ys = Inr (ys @ map f xs)"
  by (induction xs arbitrary: ys) simp_all

section \<open>The metric source\<close>

definition GetExternalMetricInfoList_costv2 :: "string list" where
  "GetExternalMetricInfoList_costv2 =
     [mKubePodInfo, mKubePodLabels, mKubeNodeInfo, mCPUCoreRequestAverage, mCPUCoreUsageAverage,
      mMemoryRequestAverage, mMemoryUsageAverage, mCostPodCPURequest, mCostPodMemoryRequest,
      mCostTotal, mCostNode, mCostCustom, mBillingPretaxAmountTotal,
      mBillingPretaxGrossAmountTotal, mBillingPretaxAmountNode]"

definition billing_metric :: "string \<Rightarrow> bool" where
  "billing_metric n \<longleftrightarrow> n = mBillingPretaxGrossAmountTotal \<or> n = mBillingPretaxAmountTotal \<or> n = mBillingPretaxAmountNode"

text \<open>
  \<open>prom\<close> is \<open>MakePromClient\<close> followed by \<open>Query\<close>: the outer result is the failure to make a
  client, the inner one that of the query, run at a time in milliseconds.
\<close>

type_synonym prom_client = "(int \<Rightarrow> string \<Rightarrow> query_result res) res"

text \<open>The time of the query: billing metrics that end at midnight are asked a second earlier.\<close>

definition query_time :: "gotime \<Rightarrow> string \<Rightarrow> gotime \<Rightarrow> int" where
  "query_time now metricName end_time =
     (let e = (if billing_metric metricName \<and> hour_of end_time = 0 \<and> minute_of end_time = 0 \<and> second_of end_time = 0
               then time_add end_time (- second) else end_time);
          endUTC = GetUTCTime now e
      in quo (wrap64 (ns endUTC)) millisecond)"

definition getCostMetricsAtTime ::
  "prom_client \<Rightarrow> gotime \<Rightarrow> string \<Rightarrow> string \<Rightarrow> gotime \<Rightarrow> external_value list res" where
  "getCostMetricsAtTime prom now metricName query end_time =
     and_then prom (\<lambda>run.
       case run (query_time now metricName end_time) query of
         Inl (Err _) \<Rightarrow> Inl (Err ''Internal error occurred: unable to fetch metrics'')
       | Inl (Panic p) \<Rightarrow> Inl (Panic p)
       | Inr r \<Rightarrow> convertVector metricName r)"

definition GetExternalMetric_costv2 ::
  "prom_client \<Rightarrow> (string \<Rightarrow> string \<Rightarrow> gotime option) \<Rightarrow> gotime \<Rightarrow> string list \<Rightarrow> string \<Rightarrow> requirement list \<Rightarrow>
   external_value list res" where
  "GetExternalMetric_costv2 prom parse_other now ks metric reqs =
     (let m = parseRequirements reqs in
      and_then (buildExternalQuery parse_other ks metric m) (\<lambda>query.
      and_then (first_value m ''window_layout'') (\<lambda>layout.
      and_then (first_value m ''window_end'') (\<lambda>e.
        case parse_time parse_other layout e of
          None \<Rightarrow> Inl (Err ''parsing time'')
        | Some end_time \<Rightarrow> getCostMetricsAtTime prom now metric query end_time))))"

section \<open>Lemmas\<close>

lemma parseRequirements_append:
  "parseRequirements (rs @ [r]) = (parseRequirements rs)(rkey r \<mapsto> sort (remdups (rvalues r)))"
  by (simp add: parseRequirements_def)

lemma parseRequirements_None: "k \<notin> rkey ` set rs \<Longrightarrow> parseRequirements rs k = None"
  by (induction rs rule: rev_induct) (auto simp: parseRequirements_append parseRequirements_def [of "[]"])

lemma parseRequirements_Some:
  "distinct (map rkey rs) \<Longrightarrow> r \<in> set rs \<Longrightarrow>
   parseRequirements rs (rkey r) = Some (sort (remdups (rvalues r)))"
  by (induction rs rule: rev_induct) (auto simp: parseRequirements_append rev_image_eqI)

lemma parseRequirements_ne:
  "\<forall>r \<in> set rs. rvalues r \<noteq> [] \<Longrightarrow> parseRequirements rs k \<noteq> Some []"
proof (induction rs rule: rev_induct)
  case (snoc r rs)
  have "sort (remdups (rvalues r)) \<noteq> []"
    using snoc.prems by (metis in_set_conv_decomp set_remdups set_sort set_empty append_is_Nil_conv not_Cons_self2 last_in_set)
  with snoc show ?case by (simp add: parseRequirements_append)
qed (simp add: parseRequirements_def)

lemma first_value_Some: "m k = Some (v # vs) \<Longrightarrow> first_value m k = Inr v"
  by (simp add: first_value_def)

lemma first_value_None: "m k = None \<Longrightarrow> first_value m k = Inl (Panic ''index out of range'')"
  by (simp add: first_value_def)

text \<open>Keys the run visits are keys of the map, so the label matcher never indexes an empty list.\<close>

lemma pod_label_str_total:
  assumes "set ks \<subseteq> dom m" "\<forall>k. m k \<noteq> Some []"
  shows "\<exists>l. pod_label_str ks m = Inr l"
proof -
  have "\<exists>l. each (\<lambda>key str. if has_prefix key ''label_''
      then and_then (first_value m key) (\<lambda>v. Inr (matcher key v)) else Inr str) ks s = Inr l" for s
    using assms(1)
  proof (induction ks arbitrary: s)
    case (Cons k ks)
    then obtain l where l: "m k = Some l" "l \<noteq> []" using assms(2) by (auto simp: dom_def)
    then obtain v vs where "m k = Some (v # vs)" by (cases l) auto
    then have "first_value m k = Inr v" by (rule first_value_Some)
    then show ?case using Cons.IH Cons.prems by simp
  qed simp
  then show ?thesis by (simp add: pod_label_str_def)
qed

text \<open>What the window of a selector comes to: its wall clocks, and the time between them.\<close>

definition window_requirements :: "gotime \<Rightarrow> gotime \<Rightarrow> requirement list" where
  "window_requirements s e =
     [\<lparr>rkey = ''window_start'', roperator = Equals, rvalues = [format_window s]\<rparr>,
      \<lparr>rkey = ''window_end'', roperator = Equals, rvalues = [format_window e]\<rparr>,
      \<lparr>rkey = ''window_layout'', roperator = Equals, rvalues = [WindowLayout]\<rparr>]"

definition wall_duration :: "gotime \<Rightarrow> gotime \<Rightarrow> duration" where
  "wall_duration s e = (local_sec e - local_sec s) * second"

text \<open>The wall clock that a request carries, read as UTC.\<close>

definition wall_time :: "gotime \<Rightarrow> gotime" where
  "wall_time t = \<lparr>ns = local_sec t * second, zone = utc\<rparr>"

lemma window_values:
  assumes "distinct (map rkey reqs)" "set (window_requirements s e) \<subseteq> set reqs"
  shows "first_value (parseRequirements reqs) ''window_start'' = Inr (format_window s)"
    "first_value (parseRequirements reqs) ''window_end'' = Inr (format_window e)"
    "first_value (parseRequirements reqs) ''window_layout'' = Inr WindowLayout"
proof -
  let ?m = "parseRequirements reqs"
  have "?m ''window_start'' = Some [format_window s]" "?m ''window_end'' = Some [format_window e]"
    "?m ''window_layout'' = Some [WindowLayout]"
    using assms(2) parseRequirements_Some [OF assms(1)]
    by (fastforce simp: window_requirements_def)+
  then show "first_value ?m ''window_start'' = Inr (format_window s)"
    "first_value ?m ''window_end'' = Inr (format_window e)" "first_value ?m ''window_layout'' = Inr WindowLayout"
    by (simp_all add: first_value_def)
qed

lemma parse_wall_time:
  "0 \<le> year_of t \<Longrightarrow> year_of t \<le> 9999 \<Longrightarrow> parse_time parse_other WindowLayout (format_window t) = Some (wall_time t)"
  using parse_window_format [of t] by (simp add: parse_time_def wall_time_def)

lemma window_query:
  assumes "distinct (map rkey reqs)" "set (window_requirements s e) \<subseteq> set reqs"
    and "0 \<le> year_of s" "year_of s \<le> 9999" "0 \<le> year_of e" "year_of e \<le> 9999"
    and "in64 (wall_duration s e)"
    and "pod_label_str ks (parseRequirements reqs) = Inr labels"
    and "resolution_strs (parseRequirements reqs) (wall_duration s e) = Inr (rs, secs)"
  shows "buildExternalQuery parse_other ks name (parseRequirements reqs) =
    (let m = parseRequirements reqs in
     Inr (query_text name labels (pod_info_str m) (common_label_str m) (DurationString (wall_duration s e) @ '':'' @ rs) secs))"
proof -
  have "time_sub (wall_time e) (wall_time s) = wall_duration s e"
    using assms(7) by (simp add: time_sub_def wall_time_def wall_duration_def in64_def left_diff_distrib)
  then show ?thesis
    using assms(3-6,8,9) by (simp add: buildExternalQuery_def window_values [OF assms(1,2)] parse_wall_time Let_def)
qed

text \<open>The whole request: the query is asked at the end of the window.\<close>

lemma window_metric:
  assumes "distinct (map rkey reqs)" "set (window_requirements s e) \<subseteq> set reqs"
    and "0 \<le> year_of e" "year_of e \<le> 9999"
    and "buildExternalQuery parse_other ks name (parseRequirements reqs) = Inr q"
  shows "GetExternalMetric_costv2 prom parse_other now ks name reqs = getCostMetricsAtTime prom now name q (wall_time e)"
  using assms(3-5) by (simp add: GetExternalMetric_costv2_def Let_def window_values [OF assms(1,2)] parse_wall_time)

lemma convertVector_Inr:
  "convertVector n r = Inr vs \<Longrightarrow> vs \<noteq> [] \<and> (\<exists>ss. r = Vector ss \<and> vs = map (convertSample n) ss)"
  by (auto simp: convertVector_def each_collects split: query_result.splits if_splits)

lemma getCostMetricsAtTime_Inr:
  assumes "getCostMetricsAtTime prom now n q e = Inr vs"
  shows "\<exists>run ss. prom = Inr run \<and> run (query_time now n e) q = Inr (Vector ss) \<and> ss \<noteq> [] \<and>
    vs = map (convertSample n) ss"
proof -
  from assms obtain run where run: "prom = Inr run"
    by (auto simp: getCostMetricsAtTime_def and_then_eq_Inr)
  then obtain r where r: "run (query_time now n e) q = Inr r" "convertVector n r = Inr vs"
    using assms by (auto simp: getCostMetricsAtTime_def split: sum.splits error.splits)
  from convertVector_Inr [OF r(2)] run r(1) show ?thesis by auto
qed

lemma trunc64_in64: "in64 (trunc64 x)"
  by (simp add: trunc64_def f64_to_int64_def in64_def)

section \<open>The contract of a metric source\<close>

text \<open>
  A source registers each name once, and every value of an answer carries the name under which the source reports the metric.
\<close>

definition carries :: "string \<Rightarrow> external_value \<Rightarrow> bool" where
  "carries n v \<longleftrightarrow> MetricName v = n"

locale metric_source =
  fixes names :: "string list"
    and reported :: "string \<Rightarrow> string"
    and answer :: "string \<Rightarrow> string \<Rightarrow> requirement list \<Rightarrow> external_value list res"
  assumes names_distinct: "distinct names"
    and answers_named: "answer metric namespace reqs = Inr vs \<Longrightarrow> list_all (carries (reported metric)) vs"
begin

lemma answers_cases:
  "case answer metric namespace reqs of Inl _ \<Rightarrow> True | Inr vs \<Rightarrow> MetricName ` set vs \<subseteq> {reported metric}"
  using answers_named by (auto simp: list_all_iff carries_def split: sum.split)

end

lemma carries_convertSample [simp]: "carries n (convertSample metric s) \<longleftrightarrow> metric = n"
  by (simp add: carries_def convertSample_def)

lemma carries_convertSamples [simp]: "list_all (carries metric) (map (convertSample metric) xs)"
  by (simp add: list_all_iff)

lemma costv2_named: "GetExternalMetric_costv2 prom parse_other now ks metric reqs = Inr vs \<Longrightarrow> list_all (carries metric) vs"
  by (auto simp: GetExternalMetric_costv2_def Let_def and_then_eq_Inr split: option.splits dest!: getCostMetricsAtTime_Inr)

interpretation costv2_source: metric_source GetExternalMetricInfoList_costv2 "\<lambda>metric. metric"
    "\<lambda>metric namespace reqs. GetExternalMetric_costv2 prom parse_other now ks metric reqs" for prom parse_other now ks
  by unfold_locales (code_simp, rule costv2_named)

section \<open>Properties\<close>

text \<open>
  The window of a cost query reaches Prometheus: for every selector that carries the
  requirements of a window (in any order, next to any filter) the query of every metric covers
  exactly the time between the two wall clocks of the window, printed for Prometheus,
  with the resolution that time calls for. The query is built without a panic.
\<close>

theorem buildExternalQuery_window:
  assumes "distinct (map rkey reqs)" "set (window_requirements s e) \<subseteq> set reqs"
    and "''resolution'' \<notin> rkey ` set reqs" "\<forall>r \<in> set reqs. rvalues r \<noteq> []"
    and "0 \<le> year_of s" "year_of s \<le> 9999" "0 \<le> year_of e" "year_of e \<le> 9999"
    and "in64 (wall_duration s e)" "iter_order ks (parseRequirements reqs)"
  shows "\<exists>labels. buildExternalQuery parse_other ks name (parseRequirements reqs) =
    Inr (query_text name labels (pod_info_str (parseRequirements reqs)) (common_label_str (parseRequirements reqs))
      (DurationString (wall_duration s e) @ '':'' @ fst (ResolutionStringAndSeconds (wall_duration s e)))
      (snd (ResolutionStringAndSeconds (wall_duration s e))))"
proof -
  obtain labels where labels: "pod_label_str ks (parseRequirements reqs) = Inr labels"
    using pod_label_str_total parseRequirements_ne [OF assms(4)] assms(10)
    by (metis iter_order_def order_refl)
  have "resolution_strs (parseRequirements reqs) (wall_duration s e) =
      Inr (fst (ResolutionStringAndSeconds (wall_duration s e)), snd (ResolutionStringAndSeconds (wall_duration s e)))"
    using parseRequirements_None [OF assms(3)] by (simp add: resolution_strs_def)
  from window_query [OF assms(1,2,5-9) labels this] show ?thesis
    by (auto simp: Let_def)
qed

theorem buildExternalQuery_window_witness:
  "\<exists>labels. buildExternalQuery (\<lambda>_ _. None) [''window_layout'', ''window_start'', ''window_end''] mCostNode
      (parseRequirements (window_requirements \<lparr>ns = 0, zone = utc\<rparr> \<lparr>ns = 172800 * second, zone = utc\<rparr>)) =
    Inr (query_text mCostNode labels [] [] ''2d:1h'' ''3600'')"
proof -
  let ?s = "\<lparr>ns = 0, zone = utc\<rparr>" and ?e = "\<lparr>ns = 172800 * second, zone = utc\<rparr>"
  let ?r = "window_requirements ?s ?e"
  have y: "year_of ?s = 1970" "year_of ?e = 1970" "wall_duration ?s ?e = 172800 * second" by code_simp+
  have d: "DurationString (172800 * second) = ''2d''"
    "ResolutionStringAndSeconds (172800 * second) = (''1h'', ''3600'')" by code_simp+
  have dom: "dom (parseRequirements ?r) = {''window_layout'', ''window_start'', ''window_end''}"
    by (auto simp: parseRequirements_def window_requirements_def dom_def)
  have str: "pod_info_str (parseRequirements ?r) = []" "common_label_str (parseRequirements ?r) = []"
    by (simp_all add: pod_info_str_def common_label_str_def list_matcher_def parseRequirements_def window_requirements_def)
  have "\<exists>labels. buildExternalQuery (\<lambda>_ _. None) [''window_layout'', ''window_start'', ''window_end''] mCostNode
      (parseRequirements ?r) =
    Inr (query_text mCostNode labels (pod_info_str (parseRequirements ?r)) (common_label_str (parseRequirements ?r))
      (DurationString (wall_duration ?s ?e) @ '':'' @ fst (ResolutionStringAndSeconds (wall_duration ?s ?e)))
      (snd (ResolutionStringAndSeconds (wall_duration ?s ?e))))"
  proof (rule buildExternalQuery_window)
    show "iter_order [''window_layout'', ''window_start'', ''window_end''] (parseRequirements ?r)"
      unfolding iter_order_def dom by simp
  qed (simp_all only: y, simp_all add: window_requirements_def in64_def)
  then show ?thesis unfolding str y d by simp
qed

text \<open>
  A request for any cost metric whose selector lacks the window layout panics with an
  index out of range, whatever Prometheus answers: the code indexes the missing
  requirement without a test.
\<close>

theorem GetExternalMetric_no_window:
  assumes "''window_layout'' \<notin> rkey ` set reqs" "\<forall>r \<in> set reqs. rvalues r \<noteq> []"
    and "iter_order ks (parseRequirements reqs)"
  shows "GetExternalMetric_costv2 prom parse_other now ks metric reqs = Inl (Panic ''index out of range'')"
proof -
  obtain labels where l: "pod_label_str ks (parseRequirements reqs) = Inr labels"
    using pod_label_str_total parseRequirements_ne [OF assms(2)] assms(3)
    by (metis iter_order_def order_refl)
  have "first_value (parseRequirements reqs) ''window_layout'' = Inl (Panic ''index out of range'')"
    by (rule first_value_None) (rule parseRequirements_None [OF assms(1)])
  then show ?thesis by (simp add: GetExternalMetric_costv2_def buildExternalQuery_def l Let_def)
qed

theorem GetExternalMetric_no_window_witness:
  "GetExternalMetric_costv2 (Inl (Err ''no client'')) (\<lambda>_ _. None) \<lparr>ns = 0, zone = utc\<rparr> [''pod''] mCostNode
     [\<lparr>rkey = ''pod'', roperator = In, rvalues = [''a'']\<rparr>] = Inl (Panic ''index out of range'')"
  by (rule GetExternalMetric_no_window) (auto simp: iter_order_def parseRequirements_def)

text \<open>
  When the cost source returns values, there is at least one, each carries the name asked for and a
  milli-value within \<open>int64\<close>, and they are the samples of a vector Prometheus returned
  for the query the source built: an empty vector is an error, never an empty list.
\<close>

theorem GetExternalMetric_values:
  assumes "GetExternalMetric_costv2 prom parse_other now ks metric reqs = Inr vs"
  shows "vs \<noteq> [] \<and> (\<forall>v \<in> set vs. MetricName v = metric \<and> in64 (MilliValue v)) \<and>
    (\<exists>run q e ss. prom = Inr run \<and> run (query_time now metric e) q = Inr (Vector ss) \<and>
       buildExternalQuery parse_other ks metric (parseRequirements reqs) = Inr q \<and>
       map MetricLabels vs = map sMetric ss)"
proof -
  from assms obtain q e where q: "buildExternalQuery parse_other ks metric (parseRequirements reqs) = Inr q"
    "getCostMetricsAtTime prom now metric q e = Inr vs"
    by (auto simp: GetExternalMetric_costv2_def Let_def and_then_eq_Inr split: option.splits)
  from getCostMetricsAtTime_Inr [OF q(2)] obtain run ss where
    r: "prom = Inr run" "run (query_time now metric e) q = Inr (Vector ss)" "ss \<noteq> []"
      "vs = map (convertSample metric) ss" by blast
  have "map MetricLabels vs = map sMetric ss" by (simp add: r(4) convertSample_def)
  then have "\<exists>run q e ss. prom = Inr run \<and> run (query_time now metric e) q = Inr (Vector ss) \<and>
       buildExternalQuery parse_other ks metric (parseRequirements reqs) = Inr q \<and>
       map MetricLabels vs = map sMetric ss" using q(1) r(1,2) by blast
  then show ?thesis using r(3,4) by (auto simp: convertSample_def trunc64_in64)
qed

theorem GetExternalMetric_values_witness:
  "\<exists>vs. GetExternalMetric_costv2 (Inr (\<lambda>t q. Inr (Vector [\<lparr>sMetric = Map.empty, sValue = Fin 2, sTimestamp = 0\<rparr>])))
      (\<lambda>_ _. None) \<lparr>ns = 0, zone = utc\<rparr> [] mCostNode
      (window_requirements \<lparr>ns = 0, zone = utc\<rparr> \<lparr>ns = 172800 * second, zone = utc\<rparr>) = Inr vs \<and> vs \<noteq> []"
proof -
  let ?r = "GetExternalMetric_costv2 (Inr (\<lambda>t q. Inr (Vector [\<lparr>sMetric = Map.empty, sValue = Fin 2, sTimestamp = 0\<rparr>])))
      (\<lambda>_ _. None) \<lparr>ns = 0, zone = utc\<rparr> [] mCostNode
      (window_requirements \<lparr>ns = 0, zone = utc\<rparr> \<lparr>ns = 172800 * second, zone = utc\<rparr>)"
  have "isl ?r = False" by code_simp
  then obtain vs where "?r = Inr vs" by (cases ?r) auto
  with GetExternalMetric_values [OF this] show ?thesis by blast
qed

end
