(* ===== verification/Allocation_Model.thy ===== *)
theory Allocation_Model
  imports Window_Model
begin

text \<open>
  \<open>pkg/metrics/costv2/types/allocation.go\<close> and \<open>pod.go\<close>: allocations, sets of allocations by name
  and their aggregation. The loops over a set take the order in which the run visits its
  keys. The lemmas read the aggregation as a grouping by key in which every field is the
  \<open>float64\<close> sum of the group, taken in the order of the run.
\<close>

section \<open>Allocations\<close>

datatype CostType = AllocationPretaxAmount | AllocationPretaxGrossAmount | CostEstimated

definition SplitIdlePrefix :: string where "SplitIdlePrefix = ''idle:''"
definition IdleSuffix :: string where "IdleSuffix = ''__idle__''"
definition UnallocatedSuffix :: string where "UnallocatedSuffix = ''__unallocated__''"

lemmas idle_names = SplitIdlePrefix_def IdleSuffix_def UnallocatedSuffix_def

record alloc_props =
  pCluster :: string
  pNode :: string
  pController :: string
  pControllerKind :: string
  pNamespace :: string
  pPod :: string
  pLabels :: "(string, string) gomap option" \<comment> \<open>nil until labels are set\<close>
  pProviderID :: string

record allocation =
  Name :: string
  Properties :: "alloc_props option"
  Start :: gotime
  End :: gotime
  CPUCoreRequestAverage :: f64
  CPUCoreUsageAverage :: f64
  RAMBytesRequestAverage :: f64
  RAMBytesUsageAverage :: f64
  Cost :: f64
  CostRatio :: f64
  CustomCost :: f64

type_synonym allocation_set = "(string, allocation) gomap"

record pod_meta =
  mNamespace :: string
  mPod :: string

definition pod_meta_string :: "pod_meta \<Rightarrow> string" where
  "pod_meta_string m = mNamespace m @ ''/'' @ mPod m"

record pod_cost_meta =
  CostCPURequest :: f64
  CostRAMRequest :: f64

record pod =
  podKey :: pod_meta
  podNode :: string
  Allocations :: allocation
  CostMeta :: pod_cost_meta
  podWindow :: window

section \<open>Allocation sets\<close>

definition NewAllocationSet :: allocation_set where
  "NewAllocationSet = Map.empty"

text \<open>The receiver is a pointer that may be nil.\<close>

definition IsEmpty :: "allocation_set option \<Rightarrow> bool" where
  "IsEmpty as = (case as of None \<Rightarrow> True | Some m \<Rightarrow> m = Map.empty)"

definition Set :: "allocation \<Rightarrow> allocation_set \<Rightarrow> allocation_set" where
  "Set alloc m = m(Name alloc \<mapsto> alloc)"

definition agg_key :: "string \<Rightarrow> allocation \<Rightarrow> string res" where
  "agg_key aggregateBy alloc =
     (let p = Properties alloc;
          key =
            (if aggregateBy = ''namespace'' then
               Inr (case p of Some q \<Rightarrow> pNamespace q | None \<Rightarrow> [])
             else if aggregateBy = ''controller'' then
               Inr (case p of
                 Some q \<Rightarrow> if pController q \<noteq> ''<none>'' \<and> pControllerKind q \<noteq> ''<none>''
                   then pControllerKind q @ '':'' @ pController q else []
               | None \<Rightarrow> [])
             else if aggregateBy = ''controllerKind'' then
               Inr (case p of
                 Some q \<Rightarrow> if pControllerKind q \<noteq> ''<none>'' then pControllerKind q else []
               | None \<Rightarrow> [])
             else if aggregateBy = ''node'' then
               Inr (case p of Some q \<Rightarrow> pNode q | None \<Rightarrow> [])
             else if has_prefix aggregateBy ''label:'' then
               Inr (case p of
                 Some q \<Rightarrow> (case Option.bind (pLabels q) (\<lambda>m. m (trim_prefix aggregateBy ''label:'')) of
                   Some v \<Rightarrow> v | None \<Rightarrow> [])
               | None \<Rightarrow> [])
             else Inl (Err (''invalid 'aggregate' parameter: '' @ aggregateBy)))
      in and_then key (\<lambda>key.
           let key = (if Name alloc = IdleSuffix \<or> has_prefix (Name alloc) SplitIdlePrefix
                      then Name alloc else key)
           in Inr (if key = [] then UnallocatedSuffix else key)))"

definition agg_new :: "string \<Rightarrow> allocation \<Rightarrow> allocation" where
  "agg_new key alloc = alloc\<lparr>Name := key, Properties := None\<rparr>"

definition agg_add :: "allocation \<Rightarrow> allocation \<Rightarrow> allocation" where
  "agg_add alloc v = v\<lparr>
     CPUCoreRequestAverage := fadd (CPUCoreRequestAverage v) (CPUCoreRequestAverage alloc),
     CPUCoreUsageAverage := fadd (CPUCoreUsageAverage v) (CPUCoreUsageAverage alloc),
     RAMBytesRequestAverage := fadd (RAMBytesRequestAverage v) (RAMBytesRequestAverage alloc),
     RAMBytesUsageAverage := fadd (RAMBytesUsageAverage v) (RAMBytesUsageAverage alloc),
     Cost := fadd (Cost v) (Cost alloc),
     CostRatio := fadd (CostRatio v) (CostRatio alloc),
     CustomCost := fadd (CustomCost v) (CustomCost alloc)\<rparr>"

text \<open>One turn of the loop over the set.\<close>

definition agg_step :: "string \<Rightarrow> allocation \<Rightarrow> allocation_set \<Rightarrow> allocation_set res" where
  "agg_step aggregateBy alloc aggSet =
     and_then (agg_key aggregateBy alloc) (\<lambda>key.
       Inr (case aggSet key of
          None \<Rightarrow> aggSet(key \<mapsto> agg_new key alloc)
        | Some v \<Rightarrow> aggSet(key \<mapsto> agg_add alloc v)))"

text \<open>One turn of the second loop: an idle entry gives up what its node has been allocated.\<close>

definition idle_step :: "string \<Rightarrow> allocation_set \<Rightarrow> allocation_set" where
  "idle_step k aggSet =
     (if \<not> has_prefix k SplitIdlePrefix then aggSet
      else case (aggSet (trim_prefix k SplitIdlePrefix), aggSet k) of
        (Some alloc, Some i) \<Rightarrow>
          aggSet(k \<mapsto> i\<lparr>Cost := fsub (Cost i) (Cost alloc), CostRatio := fsub (CostRatio i) (CostRatio alloc)\<rparr>)
      | _ \<Rightarrow> aggSet)"

text \<open>
  \<open>ks\<close> is the order of the first loop, over the set, and \<open>ls\<close> that of the second, over the
  aggregated set.
\<close>

definition AggregateBy ::
  "string list \<Rightarrow> string list \<Rightarrow> string \<Rightarrow> bool \<Rightarrow> allocation_set option \<Rightarrow> allocation_set option res" where
  "AggregateBy ks ls aggregateBy idleByNode as =
     (if IsEmpty as then Inr None
      else if aggregateBy = ''pod'' then Inr as
      else and_then (each (agg_step aggregateBy) (map (\<lambda>k. the (the as k)) ks) Map.empty) (\<lambda>aggSet.
        Inr (Some (if aggregateBy = ''node'' \<and> idleByNode then fold idle_step ls aggSet else aggSet))))"

section \<open>Ranges of sets\<close>

type_synonym allocation_set_range = "allocation_set option list"

definition NewAllocationSetRange :: allocation_set_range where
  "NewAllocationSetRange = []"

definition Append :: "allocation_set option \<Rightarrow> allocation_set_range \<Rightarrow> allocation_set_range" where
  "Append that asr = asr @ [that]"

text \<open>\<open>orders i\<close> are the orders of the two loops over the set number \<open>i\<close>.\<close>

definition AggregateRange ::
  "(nat \<Rightarrow> string list \<times> string list) \<Rightarrow> string \<Rightarrow> bool \<Rightarrow> allocation_set_range \<Rightarrow> allocation_set_range res" where
  "AggregateRange orders aggregateBy idleByNode asr =
     each (\<lambda>(i, as) asList.
       and_then (AggregateBy (fst (orders i)) (snd (orders i)) aggregateBy idleByNode as) (\<lambda>newAs.
         Inr (asList @ [newAs])))
     (zip [0..<length asr] asr) []"

section \<open>Aggregation as grouping\<close>

text \<open>What a group of allocations adds up to, in the order of the list.\<close>

definition group_total :: "string \<Rightarrow> allocation list \<Rightarrow> allocation option" where
  "group_total key as =
     (case as of [] \<Rightarrow> None | a # rest \<Rightarrow> Some (fold agg_add rest (agg_new key a)))"

definition aggregates :: "string list" where
  "aggregates = [''namespace'', ''controller'', ''controllerKind'', ''node'']"

definition valid_aggregate :: "string \<Rightarrow> bool" where
  "valid_aggregate s \<longleftrightarrow> s \<in> set aggregates \<or> has_prefix s ''label:''"

text \<open>The key of an allocation under a valid parameter.\<close>

definition key_of :: "string \<Rightarrow> allocation \<Rightarrow> string" where
  "key_of aggregateBy a = projr (agg_key aggregateBy a)"

lemma agg_key_valid: "valid_aggregate s \<Longrightarrow> agg_key s a = Inr (key_of s a)"
  by (auto simp: key_of_def agg_key_def valid_aggregate_def aggregates_def Let_def)

lemma agg_key_invalid:
  "\<not> valid_aggregate s \<Longrightarrow> agg_key s a = Inl (Err (''invalid 'aggregate' parameter: '' @ s))"
  by (auto simp: agg_key_def valid_aggregate_def aggregates_def Let_def)

lemma agg_step_valid:
  "valid_aggregate s \<Longrightarrow> agg_step s a agg = Inr (case agg (key_of s a) of
      None \<Rightarrow> agg(key_of s a \<mapsto> agg_new (key_of s a) a)
    | Some v \<Rightarrow> agg(key_of s a \<mapsto> agg_add a v))"
  by (simp add: agg_step_def agg_key_valid)

lemma group_total_snoc:
  "group_total k (as @ [a]) = Some (case group_total k as of None \<Rightarrow> agg_new k a | Some v \<Rightarrow> agg_add a v)"
  by (cases as) (simp_all add: group_total_def)

lemma agg_loop:
  assumes "valid_aggregate s"
  shows "each (agg_step s) as Map.empty = Inr (\<lambda>k. group_total k (filter (\<lambda>a. key_of s a = k) as))"
proof (induction as rule: rev_induct)
  case Nil
  then show ?case by (simp add: group_total_def)
next
  case (snoc a as)
  show ?case
    unfolding each_append snoc.IH
    by (auto simp: agg_step_valid [OF assms] group_total_snoc fun_eq_iff split: option.split)
qed

text \<open>The fields of a group.\<close>

lemma fold_agg_add:
  "Cost (fold agg_add as v) = fsum (map Cost as) (Cost v)"
  "CostRatio (fold agg_add as v) = fsum (map CostRatio as) (CostRatio v)"
  "CustomCost (fold agg_add as v) = fsum (map CustomCost as) (CustomCost v)"
  "Name (fold agg_add as v) = Name v"
  "Start (fold agg_add as v) = Start v" "End (fold agg_add as v) = End v"
  by (induction as arbitrary: v) (simp_all add: agg_add_def)

lemma group_total_Some:
  assumes "group_total k as = Some t"
  shows "as \<noteq> []" "Name t = k" "Cost t = fsum (map Cost (tl as)) (Cost (hd as))"
    "CostRatio t = fsum (map CostRatio (tl as)) (CostRatio (hd as))"
  using assms by (auto simp: group_total_def fold_agg_add agg_new_def split: list.splits)

definition members :: "string list \<Rightarrow> allocation_set \<Rightarrow> allocation list" where
  "members ks m = map (\<lambda>k. the (m k)) ks"

definition group :: "string \<Rightarrow> string \<Rightarrow> allocation list \<Rightarrow> allocation list" where
  "group s k as = filter (\<lambda>a. key_of s a = k) as"

lemma AggregateBy_group:
  assumes "valid_aggregate s" "m \<noteq> Map.empty"
  shows "AggregateBy ks ls s idle (Some m) =
    Inr (Some (if s = ''node'' \<and> idle
      then fold idle_step ls (\<lambda>k. group_total k (group s k (members ks m)))
      else (\<lambda>k. group_total k (group s k (members ks m)))))"
proof -
  have "s \<noteq> ''pod''"
    using assms(1) by (auto simp: valid_aggregate_def aggregates_def has_prefix_def)
  then show ?thesis
    using assms by (simp add: AggregateBy_def IsEmpty_def agg_loop members_def group_def)
qed

lemma group_total_None [simp]: "group_total k as = None \<longleftrightarrow> as = []"
  by (simp add: group_total_def split: list.split)

lemma dom_group_total: "dom (\<lambda>k. group_total k (group s k as)) = set (map (key_of s) as)"
  by (auto simp: group_def filter_empty_conv dom_def)

lemma sum_groups:
  fixes g :: "allocation \<Rightarrow> rat"
  shows "(\<Sum>k \<in> set (map f as). \<Sum>a\<leftarrow>filter (\<lambda>a. f a = k) as. g a) = (\<Sum>a\<leftarrow>as. g a)"
proof (induction as rule: rev_induct)
  case (snoc a as)
  let ?S = "\<lambda>k. \<Sum>a\<leftarrow>filter (\<lambda>a. f a = k) as. g a"
  have z: "?S k = 0" if "k \<notin> set (map f as)" for k
  proof -
    have "filter (\<lambda>a. f a = k) as = []" using that by (auto simp: filter_empty_conv)
    then show ?thesis by simp
  qed
  have fin: "finite (set (map f (as @ [a])))" by simp
  have "(\<Sum>k \<in> set (map f (as @ [a])). \<Sum>a\<leftarrow>filter (\<lambda>a. f a = k) (as @ [a]). g a) =
      (\<Sum>k \<in> set (map f (as @ [a])). ?S k + (if k = f a then g a else 0))"
    by (rule sum.cong) auto
  also have "\<dots> = (\<Sum>k \<in> set (map f (as @ [a])). ?S k) + g a"
    using fin by (simp add: sum.distrib)
  also have "(\<Sum>k \<in> set (map f (as @ [a])). ?S k) = (\<Sum>k \<in> set (map f as). ?S k)"
    using z by (intro sum.mono_neutral_right) auto
  finally show ?case using snoc by simp
qed simp

text \<open>The error of one group.\<close>

definition fine_cost :: "allocation \<Rightarrow> bool" where
  "fine_cost a \<longleftrightarrow> is_fin (Cost a) \<and> wf64 (Cost a)"

definition magnitude :: "allocation list \<Rightarrow> rat" where
  "magnitude as = (\<Sum>a\<leftarrow>as. \<bar>val (Cost a)\<bar>)"

lemma magnitude_nonneg [simp]: "0 \<le> magnitude as"
  using sum_abs_nonneg [of "\<lambda>a. val (Cost a)" as] by (simp add: magnitude_def)

lemma magnitude_filter: "magnitude (filter P as) \<le> magnitude as"
  by (induction as) (auto simp: magnitude_def intro: add_increasing)

lemma growth_mono: "n \<le> m \<Longrightarrow> (1 + eps) ^ n \<le> (1 + eps) ^ m"
  by (rule power_increasing) simp_all

lemma group_error:
  assumes "group_total k as = Some t" "\<And>a. a \<in> set as \<Longrightarrow> fine_cost a"
    and "length as \<le> n" "(1 + eps) ^ n * magnitude as \<le> pow2 1023"
  shows "is_fin (Cost t) \<and> \<bar>val (Cost t) - (\<Sum>a\<leftarrow>as. val (Cost a))\<bar> \<le> ((1 + eps) ^ n - 1) * magnitude as"
proof -
  obtain a r where as: "as = a # r" using group_total_Some(1) [OF assms(1)] by (cases as) auto
  have t: "Cost t = fsum (map Cost r) (Cost a)" using group_total_Some(3) [OF assms(1)] as by simp
  have le: "(1 + eps) ^ length r \<le> (1 + eps) ^ n" using assms(3) as by (intro growth_mono) simp
  have m: "magnitude as = \<bar>val (Cost a)\<bar> + (\<Sum>x\<leftarrow>map Cost r. \<bar>val x\<bar>)"
    by (simp add: magnitude_def as comp_def)
  have "(1 + eps) ^ length r * magnitude as \<le> (1 + eps) ^ n * magnitude as"
    by (rule mult_right_mono [OF le]) simp
  then have "(1 + eps) ^ length (map Cost r) * (\<bar>val (Cost a)\<bar> + (\<Sum>x\<leftarrow>map Cost r. \<bar>val x\<bar>)) \<le> pow2 1023"
    using assms(4) unfolding m by simp
  moreover have "is_fin (Cost a)" "wf64 (Cost a)" "\<And>x. x \<in> set (map Cost r) \<Longrightarrow> is_fin x \<and> wf64 x"
    using assms(2) by (auto simp: as fine_cost_def)
  ultimately have e: "is_fin (Cost t) \<and>
      \<bar>val (Cost t) - (val (Cost a) + (\<Sum>x\<leftarrow>map Cost r. val x))\<bar>
        \<le> ((1 + eps) ^ length (map Cost r) - 1) * magnitude as"
    unfolding t m by (intro fsum_error)
  have "((1 + eps) ^ length r - 1) * magnitude as \<le> ((1 + eps) ^ n - 1) * magnitude as"
    using le by (intro mult_right_mono) simp_all
  then show ?thesis using e by (auto simp: as comp_def)
qed

section \<open>Idle entries by node\<close>

text \<open>
  When no node name starts with the idle prefix, each turn of the second loop changes its
  own entry from entries no turn changes.
\<close>

definition plain_nodes :: "allocation_set \<Rightarrow> bool" where
  "plain_nodes agg \<longleftrightarrow> (\<forall>n. agg (SplitIdlePrefix @ SplitIdlePrefix @ n) = None)"

definition net_idle :: "allocation_set \<Rightarrow> string \<Rightarrow> allocation option" where
  "net_idle agg k =
     (case agg k of
        Some i \<Rightarrow>
          if has_prefix k SplitIdlePrefix
          then case agg (trim_prefix k SplitIdlePrefix) of
              Some a \<Rightarrow> Some (i\<lparr>Cost := fsub (Cost i) (Cost a), CostRatio := fsub (CostRatio i) (CostRatio a)\<rparr>)
            | None \<Rightarrow> Some i
          else Some i
      | None \<Rightarrow> None)"

lemma idle_step_net:
  assumes "b k = agg k"
    and "has_prefix k SplitIdlePrefix \<Longrightarrow> b (trim_prefix k SplitIdlePrefix) = agg (trim_prefix k SplitIdlePrefix)"
  shows "idle_step k b = b(k := net_idle agg k)"
  using assms by (auto simp: idle_step_def net_idle_def fun_eq_iff split: option.split)

lemma idle_loop:
  assumes "plain_nodes agg" "distinct ks"
  shows "fold idle_step ks agg = (\<lambda>k. if k \<in> set ks then net_idle agg k else agg k)"
  using assms(2)
proof (induction ks rule: rev_induct)
  case (snoc k ks)
  let ?a = "\<lambda>k. if k \<in> set ks then net_idle agg k else agg k"
  have "idle_step k ?a = ?a(k := net_idle agg k)" if nn: "net_idle agg k \<noteq> None"
  proof (rule idle_step_net)
    show "?a k = agg k" using snoc.prems by simp
    assume "has_prefix k SplitIdlePrefix"
    then obtain n where n: "k = SplitIdlePrefix @ n" by (auto simp: has_prefix_iff)
    have "agg n = None" if "has_prefix n SplitIdlePrefix"
      using that nn n assms(1) by (auto simp: has_prefix_iff plain_nodes_def net_idle_def)
    then have "net_idle agg n = agg n" by (auto simp: net_idle_def split: option.split)
    then show "?a (trim_prefix k SplitIdlePrefix) = agg (trim_prefix k SplitIdlePrefix)" by (simp add: n)
  qed
  moreover have "idle_step k ?a = ?a(k := net_idle agg k)" if "net_idle agg k = None"
  proof -
    have "agg k = None" using that by (auto simp: net_idle_def split: option.splits if_splits)
    then have "?a k = None" using snoc.prems by simp
    then show ?thesis
      using that by (auto simp: idle_step_def fun_eq_iff split: option.split)
  qed
  ultimately have "idle_step k ?a = ?a(k := net_idle agg k)" by blast
  moreover have "fold idle_step ks agg = ?a" using snoc by simp
  ultimately have "fold idle_step (ks @ [k]) agg = ?a(k := net_idle agg k)" by simp
  then show ?case by (auto simp: fun_eq_iff)
qed simp

section \<open>Properties\<close>

text \<open>
  C10. \<open>AggregateBy\<close> conserves cost: summed over the aggregated set, the costs differ from those of the
  set by at most the rounding of the additions, \<open>((1 + eps)^n - 1)\<close> of the total
  magnitude for \<open>n\<close> allocations, in whatever order the run visits the map. No allocation is lost or counted twice. The one
  case left out is the dimension \<open>node\<close> with \<open>idleByNode\<close>, in which the idle entries are reduced on purpose.
\<close>

theorem AggregateBy_conserves_cost:
  assumes "valid_aggregate s" "m \<noteq> Map.empty" "iter_order ks m" "s \<noteq> ''node'' \<or> \<not> idle"
    and fine: "\<forall>a \<in> set (members ks m). fine_cost a"
    and small: "(1 + eps) ^ length ks * magnitude (members ks m) \<le> pow2 1023"
  shows "\<exists>agg. AggregateBy ks ls s idle (Some m) = Inr (Some agg) \<and> finite (dom agg) \<and>
    \<bar>(\<Sum>k \<in> dom agg. val (Cost (the (agg k)))) - (\<Sum>a\<leftarrow>members ks m. val (Cost a))\<bar>
      \<le> ((1 + eps) ^ length ks - 1) * magnitude (members ks m)"
proof (intro exI conjI)
  let ?as = "members ks m" and ?G = "(1 + eps) ^ length ks"
  let ?agg = "\<lambda>k. group_total k (group s k ?as)"
  show "AggregateBy ks ls s idle (Some m) = Inr (Some ?agg)"
    using assms(4) AggregateBy_group [OF assms(1,2)] by auto
  show fin: "finite (dom ?agg)" unfolding dom_group_total by simp
  have err: "\<bar>val (Cost (the (?agg k))) - (\<Sum>a\<leftarrow>group s k ?as. val (Cost a))\<bar> \<le> (?G - 1) * magnitude (group s k ?as)"
    if "k \<in> dom ?agg" for k
  proof -
    from that obtain t where t: "?agg k = Some t" by (blast dest: domD)
    have "?G * magnitude (group s k ?as) \<le> ?G * magnitude ?as"
      using magnitude_filter by (intro mult_left_mono) (simp_all add: group_def)
    then have "?G * magnitude (group s k ?as) \<le> pow2 1023" using small by linarith
    then have "is_fin (Cost t) \<and> \<bar>val (Cost t) - (\<Sum>a\<leftarrow>group s k ?as. val (Cost a))\<bar> \<le> (?G - 1) * magnitude (group s k ?as)"
      using fine by (intro group_error [OF t]) (auto simp: group_def members_def le_trans [OF length_filter_le])
    then show ?thesis by (simp add: t)
  qed
  have split: "(\<Sum>k \<in> dom ?agg. \<Sum>a\<leftarrow>group s k ?as. f a) = (\<Sum>a\<leftarrow>?as. f a)" for f :: "allocation \<Rightarrow> rat"
    unfolding dom_group_total by (simp only: group_def sum_groups)
  have "\<bar>(\<Sum>k \<in> dom ?agg. val (Cost (the (?agg k)))) - (\<Sum>a\<leftarrow>?as. val (Cost a))\<bar> =
      \<bar>\<Sum>k \<in> dom ?agg. val (Cost (the (?agg k))) - (\<Sum>a\<leftarrow>group s k ?as. val (Cost a))\<bar>"
    by (simp add: sum_subtractf split)
  also have "\<dots> \<le> (\<Sum>k \<in> dom ?agg. (?G - 1) * magnitude (group s k ?as))"
    by (rule order_trans [OF sum_abs sum_mono]) (rule err)
  also have "\<dots> = (?G - 1) * magnitude ?as"
    using split [of "\<lambda>a. \<bar>val (Cost a)\<bar>"] by (simp add: sum_distrib_left [symmetric] magnitude_def)
  finally show "\<bar>(\<Sum>k \<in> dom ?agg. val (Cost (the (?agg k)))) - (\<Sum>a\<leftarrow>?as. val (Cost a))\<bar> \<le> (?G - 1) * magnitude ?as" .
qed

text \<open>An allocation that only carries a name, its properties and a cost.\<close>

definition cost_of :: "string \<Rightarrow> alloc_props option \<Rightarrow> f64 \<Rightarrow> allocation" where
  "cost_of n p c = \<lparr>Name = n, Properties = p, Start = zero_time, End = zero_time,
     CPUCoreRequestAverage = Fin 0, CPUCoreUsageAverage = Fin 0, RAMBytesRequestAverage = Fin 0,
     RAMBytesUsageAverage = Fin 0, Cost = c, CostRatio = Fin 0, CustomCost = Fin 0\<rparr>"

definition on_node :: "string \<Rightarrow> alloc_props option" where
  "on_node n = Some \<lparr>pCluster = [], pNode = n, pController = [], pControllerKind = [],
     pNamespace = [], pPod = [], pLabels = None, pProviderID = []\<rparr>"

lemma cost_of_simps [simp]:
  "Name (cost_of n p c) = n" "Properties (cost_of n p c) = p" "Cost (cost_of n p c) = c"
  by (simp_all add: cost_of_def)

lemma fine_cost_of [simp]: "\<bar>i\<bar> \<le> 2 ^ 53 \<Longrightarrow> fine_cost (cost_of n p (Fin (of_int i)))"
  by (simp add: fine_cost_def fits_int)

theorem AggregateBy_conserves_cost_witness:
  "\<exists>agg. AggregateBy [''a'', ''b''] [] ''node'' False
      (Some [''a'' \<mapsto> cost_of ''a'' (on_node ''n'') (Fin (of_int 3)),
             ''b'' \<mapsto> cost_of ''b'' (on_node ''n'') (Fin (of_int 4))]) = Inr (Some agg) \<and> finite (dom agg) \<and>
    \<bar>(\<Sum>k \<in> dom agg. val (Cost (the (agg k)))) - 7\<bar> \<le> ((1 + eps) ^ 2 - 1) * 7"
proof -
  let ?m = "[''a'' \<mapsto> cost_of ''a'' (on_node ''n'') (Fin (of_int 3)),
             ''b'' \<mapsto> cost_of ''b'' (on_node ''n'') (Fin (of_int 4))]"
  have mem: "members [''a'', ''b''] ?m = [cost_of ''a'' (on_node ''n'') (Fin (of_int 3)),
      cost_of ''b'' (on_node ''n'') (Fin (of_int 4))]"
    by (simp add: members_def)
  have fine: "\<forall>a \<in> set (members [''a'', ''b''] ?m). fine_cost a"
    unfolding mem using fine_cost_of [of 3 "''a''"] fine_cost_of [of 4 "''b''"] by simp
  have mag: "magnitude (members [''a'', ''b''] ?m) = 7" unfolding mem by (simp add: magnitude_def)
  have "eps \<le> pow2 0" unfolding pow2_le_iff by simp
  then have "(1 + eps) ^ 2 \<le> 2 ^ 2" by (intro power_mono) (simp_all add: pow2_def)
  then have "(1 + eps) ^ length [''a'', ''b''] \<le> 4" by (simp add: numeral_2_eq_2)
  moreover have "(28 :: rat) \<le> pow2 5" by (simp add: pow2_def)
  moreover have "pow2 5 \<le> pow2 1023" unfolding pow2_le_iff by simp
  moreover have "x \<le> 4 \<Longrightarrow> 28 \<le> y \<Longrightarrow> y \<le> z \<Longrightarrow> x * 7 \<le> z" for x y z :: rat by linarith
  ultimately have "(1 + eps) ^ length [''a'', ''b''] * 7 \<le> pow2 1023" by blast
  then have small: "(1 + eps) ^ length [''a'', ''b''] * magnitude (members [''a'', ''b''] ?m) \<le> pow2 1023"
    unfolding mag .
  have "valid_aggregate ''node''" "iter_order [''a'', ''b''] ?m" "?m \<noteq> Map.empty"
    by (auto simp: valid_aggregate_def aggregates_def iter_order_def)
  from AggregateBy_conserves_cost [OF this(1,3,2) _ fine small, of False "[]"]
  show ?thesis unfolding mag unfolding mem by (simp add: numeral_2_eq_2)
qed

text \<open>
  \<open>AggregateBy\<close> on every branch: nil for an empty set, the set itself for \<open>pod\<close>, the error naming
  the parameter for an unknown one, and otherwise the grouping by key: each key holds
  the \<open>float64\<close> sums of exactly the allocations with that key, in the order of the run.
\<close>

theorem AggregateBy_cases:
  assumes "iter_order ks m" "s \<noteq> ''node'' \<or> \<not> idle"
  shows "AggregateBy ks ls s idle (Some m) =
    (if m = Map.empty then Inr None
     else if s = ''pod'' then Inr (Some m)
     else if valid_aggregate s then Inr (Some (\<lambda>k. group_total k (group s k (members ks m))))
     else Inl (Err (''invalid 'aggregate' parameter: '' @ s)))"
proof (cases "m = Map.empty \<or> s = ''pod'' \<or> valid_aggregate s")
  case True
  then show ?thesis
    using assms(2) AggregateBy_group [of s m ks ls idle] by (auto simp: AggregateBy_def IsEmpty_def)
next
  case False
  then obtain k where "m k \<noteq> None" by (auto simp: fun_eq_iff)
  then obtain x xs where "members ks m = x # xs"
    using assms(1) by (cases ks) (auto simp: members_def iter_order_def)
  then have "map (\<lambda>k. the (m k)) ks = x # xs" by (simp add: members_def)
  then show ?thesis
    using False by (simp add: AggregateBy_def IsEmpty_def agg_step_def agg_key_invalid)
qed

theorem AggregateBy_cases_witness:
  "AggregateBy [''a''] [] ''zone'' False (Some [''a'' \<mapsto> cost_of ''a'' None (Fin 1)]) =
     Inl (Err ''invalid 'aggregate' parameter: zone'')"
proof -
  have "\<not> valid_aggregate ''zone''" "iter_order [''a''] [''a'' \<mapsto> cost_of ''a'' None (Fin 1)]"
    by (auto simp: valid_aggregate_def aggregates_def has_prefix_def iter_order_def)
  then show ?thesis
    using AggregateBy_cases [of "[''a'']" "[''a'' \<mapsto> cost_of ''a'' None (Fin 1)]" "''zone''" False "[]"]
    by simp
qed

text \<open>
  C34. Idle cost by node: aggregating by node with \<open>idleByNode\<close> is aggregating by node and then, for
  each node with an idle entry, replacing its cost and ratio by what is left after the cost allocated on
  that node; the order of the second map loop does not matter.
\<close>

theorem AggregateBy_idle_by_node:
  assumes "AggregateBy ks ls' ''node'' False (Some m) = Inr (Some agg)"
    and "plain_nodes agg" "iter_order ls agg"
  shows "AggregateBy ks ls ''node'' True (Some m) = Inr (Some (net_idle agg))
    \<and> (\<forall>n i a. agg (SplitIdlePrefix @ n) = Some i \<and> agg n = Some a \<longrightarrow>
         net_idle agg (SplitIdlePrefix @ n) = Some (i\<lparr>Cost := fsub (Cost i) (Cost a),
           CostRatio := fsub (CostRatio i) (CostRatio a)\<rparr>))"
proof
  have ne: "m \<noteq> Map.empty" using assms(1) by (auto simp: AggregateBy_def IsEmpty_def)
  have v: "valid_aggregate ''node''" by (simp add: valid_aggregate_def aggregates_def)
  have agg: "(\<lambda>k. group_total k (group ''node'' k (members ks m))) = agg"
    using assms(1) AggregateBy_group [OF v ne] by simp
  have "fold idle_step ls agg = net_idle agg"
    using idle_loop [OF assms(2), of ls] assms(3)
    by (auto simp: iter_order_def fun_eq_iff net_idle_def dom_def)
  then show "AggregateBy ks ls ''node'' True (Some m) = Inr (Some (net_idle agg))"
    unfolding AggregateBy_group [OF v ne] agg by simp
qed (simp add: net_idle_def)

theorem AggregateBy_idle_by_node_witness:
  "\<exists>agg. AggregateBy [''p'', ''idle:x''] [''idle:x'', ''x''] ''node'' True
      (Some [''p'' \<mapsto> cost_of ''p'' (on_node ''x'') (Fin 1), ''idle:x'' \<mapsto> cost_of ''idle:x'' None (Fin 3)]) =
        Inr (Some agg) \<and> map_option Cost (agg ''idle:x'') = Some (fsub (Fin 3) (Fin 1))"
proof -
  let ?m = "[''p'' \<mapsto> cost_of ''p'' (on_node ''x'') (Fin 1), ''idle:x'' \<mapsto> cost_of ''idle:x'' None (Fin 3)]"
  let ?a = "cost_of ''x'' None (Fin 1)" and ?i = "cost_of ''idle:x'' None (Fin 3)"
  let ?agg = "[''x'' \<mapsto> ?a, ''idle:x'' \<mapsto> ?i]"
  have run: "AggregateBy [''p'', ''idle:x''] [''idle:x'', ''x''] ''node'' False (Some ?m) = Inr (Some ?agg)"
    by (simp add: AggregateBy_def IsEmpty_def agg_step_def agg_key_def agg_new_def cost_of_def on_node_def
        has_prefix_def SplitIdlePrefix_def IdleSuffix_def UnallocatedSuffix_def)
  have plain: "plain_nodes ?agg" by (simp add: plain_nodes_def SplitIdlePrefix_def)
  have order: "iter_order [''idle:x'', ''x''] ?agg" by (auto simp: iter_order_def)
  have "?agg (SplitIdlePrefix @ ''x'') = Some ?i \<and> ?agg ''x'' = Some ?a" by (simp add: SplitIdlePrefix_def)
  with AggregateBy_idle_by_node [OF run plain order]
  have "net_idle ?agg (SplitIdlePrefix @ ''x'') = Some (?i\<lparr>Cost := fsub (Cost ?i) (Cost ?a),
      CostRatio := fsub (CostRatio ?i) (CostRatio ?a)\<rparr>)" by blast
  with AggregateBy_idle_by_node [OF run plain order] show ?thesis
    by (intro exI [of _ "net_idle ?agg"]) (simp add: SplitIdlePrefix_def)
qed

end
