(* ===== verification/Cost_Manager.thy ===== *)
theory Cost_Manager
  imports Cost_Metrics Allocation_Model
begin

text \<open>
  \<open>pkg/metrics/costv2/cost_manager.go\<close>: the computation of allocations from external metrics
  over a window (\<open>ComputeAllocation\<close>) and over a range of windows (\<open>GetRangeAllocation\<close>).
  What the code asks of the cluster is the argument \<open>env\<close>. The pods' allocations are shared: the
  allocation set holds references to them (\<open>alloc_ref\<close>), so later updates of a pod show in
  the set. The window filter is mutated in place and is threaded through the loop.
\<close>

section \<open>Types\<close>

datatype APIType = TypeCost | TypeAllocation

datatype AccumulateOption =
  AccumulateOptionNone | AccumulateOptionAll | AccumulateOptionHour | AccumulateOptionDay
  | AccumulateOptionWeek | AccumulateOptionMonth | AccumulateOptionQuarter

definition ShareSplitWeighted :: string where "ShareSplitWeighted = ''weighted''"
definition ShareSplitEven :: string where "ShareSplitEven = ''even''"

record AllocationParams =
  apiType :: APIType
  window_param :: window
  resolution :: string
  step :: duration
  aggregate :: string
  filter_param :: "cost_filter option"
  accumulateBy :: AccumulateOption
  costType :: CostType
  idle :: bool
  shareIdle :: bool
  shareSplit :: string
  idleByNode :: bool
  targetType :: string

text \<open>An item of an external metric: its labels in the order the run visits them, and its value.\<close>

record metric_item =
  itemLabels :: "(string \<times> string) list"
  itemMilli :: int

definition label :: "metric_item \<Rightarrow> string \<Rightarrow> string option" where
  "label item k = map_of (itemLabels item) k"

definition label_or_empty :: "metric_item \<Rightarrow> string \<Rightarrow> string" where
  "label_or_empty item k = (case label item k of Some v \<Rightarrow> v | None \<Rightarrow> [])"

text \<open>\<open>float64(value.Value.MilliValue()) / 1000\<close>\<close>

definition value_of :: "metric_item \<Rightarrow> f64" where
  "value_of item = fdiv (f64_of_int (itemMilli item)) (Fin 1000)"

record owner_ref =
  refController :: "bool option" \<comment> \<open>a pointer\<close>
  refUID :: string

record replica_set =
  rsName :: string
  rsOwners :: "owner_ref list"

record deployment =
  depNamespace :: string
  depUID :: string
  depSelector :: string

text \<open>
  The cluster during one computation: the external metrics API (metric and selector), the
  selector parser of apimachinery, the kind and name of a replica set's owners, the
  deployments of a name and the replica sets of a namespace and selector (empty when the
  request fails, as client-go returns), the parsed cost weights, and the orders in which
  the run visits the filter's labels and, for each loop, the pods.
\<close>

record cost_env =
  ext_list :: "string \<Rightarrow> string \<Rightarrow> metric_item list res"
  parse_selector :: "string \<Rightarrow> string res"
  rs_owners :: "string \<Rightarrow> string \<Rightarrow> (string \<times> string) list"
  deployments :: "string \<Rightarrow> deployment list"
  replica_sets :: "string \<Rightarrow> string \<Rightarrow> replica_set list"
  weights :: "(f64 \<times> f64) option"
  label_order :: "string list"
  pod_order :: "nat \<Rightarrow> pod_meta list"

type_synonym pod_map = "(pod_meta, pod) gomap"

section \<open>Reading metrics\<close>

text \<open>The client returns a nil list with an error, and the error is only logged.\<close>

definition getExternalMetrics :: "cost_env \<Rightarrow> string \<Rightarrow> string \<Rightarrow> metric_item list option" where
  "getExternalMetrics env metricName selector =
     (case ext_list env metricName selector of Inr l \<Rightarrow> Some l | Inl _ \<Rightarrow> None)"

definition getSingleValueMetric :: "cost_env \<Rightarrow> string \<Rightarrow> string \<Rightarrow> f64" where
  "getSingleValueMetric env metricName selector =
     (case getExternalMetrics env metricName selector of
        None \<Rightarrow> Fin 0 | Some [] \<Rightarrow> Fin 0 | Some (v # _) \<Rightarrow> value_of v)"

definition getCostWeights :: "cost_env \<Rightarrow> f64 \<times> f64" where
  "getCostWeights env = (case weights env of None \<Rightarrow> (Fin 1, Fin 0) | Some w \<Rightarrow> w)"

section \<open>The pod map\<close>

definition item_key :: "metric_item \<Rightarrow> pod_meta option" where
  "item_key item =
     (case label item ''pod'' of
        None \<Rightarrow> None
      | Some p \<Rightarrow> (case label item ''namespace'' of
          None \<Rightarrow> None | Some n \<Rightarrow> Some \<lparr>mNamespace = n, mPod = p\<rparr>))"

text \<open>The controller of a pod: a replica set is replaced by its first owner.\<close>

definition controller_of :: "cost_env \<Rightarrow> string \<Rightarrow> metric_item \<Rightarrow> string \<times> string" where
  "controller_of env namespace item =
     (let controllerKind = to_lower (label_or_empty item ''created_by_kind'');
          controller = to_lower (label_or_empty item ''created_by_name'')
      in if controllerKind = ''replicaset'' then
           (case rs_owners env namespace controller of
              (kind, owner) # _ \<Rightarrow> (to_lower kind, owner)
            | [] \<Rightarrow> (controllerKind, controller))
         else (controllerKind, controller))"

definition cluster_of :: "metric_item \<Rightarrow> string" where
  "cluster_of item =
     (case label item ''cluster'' of
        Some c \<Rightarrow> c | None \<Rightarrow> label_or_empty item ''unique_cluster_id'')"

definition new_pod :: "cost_env \<Rightarrow> gotime \<Rightarrow> gotime \<Rightarrow> pod_meta \<Rightarrow> metric_item \<Rightarrow> pod" where
  "new_pod env s e key item =
     (let (controllerKind, controller) = controller_of env (mNamespace key) item in
      \<lparr>podKey = key, podNode = [],
       Allocations = \<lparr>
         Name = mNamespace key @ ''/'' @ mPod key,
         Properties = Some \<lparr>
           pCluster = cluster_of item, pNode = label_or_empty item ''node'',
           pController = controller, pControllerKind = controllerKind,
           pNamespace = mNamespace key, pPod = mPod key, pLabels = None, pProviderID = []\<rparr>,
         Start = s, End = e,
         CPUCoreRequestAverage = Fin 0, CPUCoreUsageAverage = Fin 0,
         RAMBytesRequestAverage = Fin 0, RAMBytesUsageAverage = Fin 0,
         Cost = Fin 0, CostRatio = Fin 0, CustomCost = Fin 0\<rparr>,
       CostMeta = \<lparr>CostCPURequest = Fin 0, CostRAMRequest = Fin 0\<rparr>,
       podWindow = NewClosedWindow s e\<rparr>)"

definition add_pod :: "cost_env \<Rightarrow> gotime \<Rightarrow> gotime \<Rightarrow> metric_item \<Rightarrow> pod_map \<Rightarrow> pod_map" where
  "add_pod env s e item podMap =
     (case item_key item of
        None \<Rightarrow> podMap
      | Some key \<Rightarrow>
          if podMap key = None then podMap(key \<mapsto> new_pod env s e key item) else podMap)"

text \<open>The labels of a pod: the metric labels under \<open>label_\<close>.\<close>

definition label_step :: "(string \<times> string) \<Rightarrow> (string, string) gomap \<Rightarrow> (string, string) gomap" where
  "label_step kv m =
     (if has_prefix (fst kv) ''label_'' then m(trim_prefix (fst kv) ''label_'' \<mapsto> snd kv) else m)"

definition getLabelsFromMetricLabels :: "(string \<times> string) list \<Rightarrow> (string, string) gomap" where
  "getLabelsFromMetricLabels kvs = fold label_step kvs Map.empty"

definition set_props :: "(alloc_props \<Rightarrow> alloc_props) \<Rightarrow> pod \<Rightarrow> pod" where
  "set_props f p = p\<lparr>Allocations := (Allocations p)\<lparr>Properties := map_option f (Properties (Allocations p))\<rparr>\<rparr>"

definition add_labels :: "metric_item \<Rightarrow> pod_map \<Rightarrow> pod_map" where
  "add_labels item podMap =
     (case item_key item of
        None \<Rightarrow> podMap
      | Some key \<Rightarrow> (case podMap key of
          None \<Rightarrow> podMap
        | Some p \<Rightarrow>
            podMap(key \<mapsto> set_props (pLabels_update (\<lambda>_. Some (getLabelsFromMetricLabels (itemLabels item)))) p)))"

definition add_node :: "metric_item \<Rightarrow> (string, string) gomap \<Rightarrow> (string, string) gomap" where
  "add_node item m =
     (case label item ''node'' of
        None \<Rightarrow> m
      | Some node \<Rightarrow> (case label item ''provider_id'' of None \<Rightarrow> m | Some pid \<Rightarrow> m(node \<mapsto> pid)))"

definition pod_node :: "pod \<Rightarrow> string" where
  "pod_node p = (case Properties (Allocations p) of Some q \<Rightarrow> pNode q | None \<Rightarrow> [])"

definition set_provider :: "(string, string) gomap \<Rightarrow> pod_meta \<Rightarrow> pod_map \<Rightarrow> pod_map" where
  "set_provider providers key podMap =
     (case podMap key of
        None \<Rightarrow> podMap
      | Some p \<Rightarrow> (case providers (pod_node p) of
          None \<Rightarrow> podMap
        | Some pid \<Rightarrow> podMap(key \<mapsto> set_props (pProviderID_update (\<lambda>_. pid)) p)))"

text \<open>
  Only logging follows the nil tests, so a nil list is dereferenced. The last loop visits
  the pods in the order \<open>pod_order env 0\<close>.
\<close>

definition initPodMap :: "cost_env \<Rightarrow> gotime \<Rightarrow> gotime \<Rightarrow> string \<Rightarrow> pod_map res" where
  "initPodMap env s e selector =
     and_then (deref (getExternalMetrics env mKubePodInfo selector)) (\<lambda>infos.
     and_then (deref (getExternalMetrics env mKubePodLabels selector)) (\<lambda>labels.
     and_then (deref (getExternalMetrics env mKubeNodeInfo selector)) (\<lambda>nodes.
       let podMap = fold (add_pod env s e) infos Map.empty;
           podMap = fold add_labels labels podMap;
           providers = fold add_node nodes Map.empty
       in Inr (fold (set_provider providers) (pod_order env 0) podMap))))"

section \<open>Usage and cost metrics\<close>

definition set_metric :: "string \<Rightarrow> f64 \<Rightarrow> pod \<Rightarrow> pod" where
  "set_metric metricName v p =
     (let a = Allocations p; c = CostMeta p in
      if metricName = mCPUCoreRequestAverage then p\<lparr>Allocations := a\<lparr>CPUCoreRequestAverage := v\<rparr>\<rparr>
      else if metricName = mCPUCoreUsageAverage then p\<lparr>Allocations := a\<lparr>CPUCoreUsageAverage := v\<rparr>\<rparr>
      else if metricName = mMemoryRequestAverage then p\<lparr>Allocations := a\<lparr>RAMBytesRequestAverage := v\<rparr>\<rparr>
      else if metricName = mMemoryUsageAverage then p\<lparr>Allocations := a\<lparr>RAMBytesUsageAverage := v\<rparr>\<rparr>
      else if metricName = mCostPodCPURequest then p\<lparr>CostMeta := c\<lparr>CostCPURequest := v\<rparr>\<rparr>
      else if metricName = mCostPodMemoryRequest then p\<lparr>CostMeta := c\<lparr>CostRAMRequest := v\<rparr>\<rparr>
      else if metricName = mCostCustom then p\<lparr>Allocations := a\<lparr>CustomCost := v\<rparr>\<rparr>
      else p)"

text \<open>The seven metrics of a pod: the cases of the switch, and the order in which a computation applies them.\<close>

definition pod_metrics :: "string list" where
  "pod_metrics =
     [mCPUCoreRequestAverage, mCPUCoreUsageAverage, mMemoryRequestAverage, mMemoryUsageAverage,
      mCostPodCPURequest, mCostPodMemoryRequest, mCostCustom]"

text \<open>
  A pod the map does not hold reads as a nil pointer, which the assignment of a case dereferences; a metric without a case
  reads no pod.
\<close>

definition apply_item :: "string \<Rightarrow> metric_item \<Rightarrow> pod_map \<Rightarrow> pod_map res" where
  "apply_item metricName item podMap =
     (case item_key item of
        None \<Rightarrow> Inr podMap
      | Some key \<Rightarrow>
          if metricName \<in> set pod_metrics then
            and_then (deref (podMap key)) (\<lambda>p.
              Inr (podMap(key \<mapsto> set_metric metricName (value_of item) p)))
          else Inr podMap)"

definition applyMetricToPodMap :: "cost_env \<Rightarrow> string \<Rightarrow> string \<Rightarrow> pod_map \<Rightarrow> pod_map res" where
  "applyMetricToPodMap env selector metricName podMap =
     (case getExternalMetrics env metricName selector of
        None \<Rightarrow> Inr podMap
      | Some items \<Rightarrow> each (apply_item metricName) items podMap)"

section \<open>The filter of a computation\<close>

text \<open>
  A deployment is replaced by its replica sets: the owner reference is compared through the
  pointer \<open>Controller\<close>, which may be nil.
\<close>

definition owned_by :: "deployment \<Rightarrow> string \<Rightarrow> owner_ref \<Rightarrow> string list \<Rightarrow> string list res" where
  "owned_by dep name ref names =
     and_then (deref (refController ref)) (\<lambda>c.
       Inr (if c \<and> refUID ref = depUID dep then names @ [name] else names))"

definition owned_sets :: "cost_env \<Rightarrow> deployment \<Rightarrow> string list \<Rightarrow> string list res" where
  "owned_sets env dep names =
     each (\<lambda>rs. each (owned_by dep (rsName rs)) (rsOwners rs))
       (replica_sets env (depNamespace dep) (depSelector dep)) names"

definition controller_names :: "cost_env \<Rightarrow> string \<Rightarrow> string list \<Rightarrow> string list res" where
  "controller_names env controller names =
     (if deployments env controller = [] then Inr (names @ [controller])
      else each (owned_sets env) (deployments env controller) names)"

definition preprocessFilter :: "cost_env \<Rightarrow> cost_filter option \<Rightarrow> cost_filter option res" where
  "preprocessFilter env f =
     (case f of
        None \<Rightarrow> Inr None
      | Some g \<Rightarrow> (case fControllerName g of
          None \<Rightarrow> Inr (Some g)
        | Some cs \<Rightarrow>
            and_then (each (controller_names env) cs []) (\<lambda>names.
              Inr (Some (g\<lparr>fControllerName := Some names\<rparr>)))))"

text \<open>The selector of the metrics, and the filter left behind by the preprocessing.\<close>

definition metric_selector ::
  "cost_env \<Rightarrow> gotime \<Rightarrow> gotime \<Rightarrow> string \<Rightarrow> cost_filter option \<Rightarrow> (string \<times> cost_filter) res" where
  "metric_selector env s e res_param f =
     and_then (GetLabelSelectorStr (NewClosedWindow s e)) (\<lambda>w.
     and_then (preprocessFilter env f) (\<lambda>f'.
     and_then (deref f') (\<lambda>g.
       let fs = GetLabelSelectorStr_filter (label_order env) g;
           parts = (if w \<noteq> [] then [w] else []) @ (if fs \<noteq> [] then [fs] else []) @
             (if res_param \<noteq> [] then [''resolution='' @ res_param] else [])
       in and_then (parse_selector env (join '','' parts)) (\<lambda>sel. Inr (sel, g)))))"

section \<open>Costs of pods\<close>

text \<open>The state of the computation: pods, totals, and the set of references to allocations.\<close>

datatype alloc_ref = PodAlloc pod_meta | Own allocation

record alloc_state =
  pods :: pod_map
  totalPodCost :: f64
  totalPodCostRatio :: f64
  allocSet :: "(string, alloc_ref) gomap"

definition set_cost :: "f64 \<Rightarrow> pod \<Rightarrow> pod" where
  "set_cost c p = p\<lparr>Allocations := (Allocations p)\<lparr>Cost := c\<rparr>\<rparr>"

definition set_ratio :: "f64 \<Rightarrow> pod \<Rightarrow> pod" where
  "set_ratio r p = p\<lparr>Allocations := (Allocations p)\<lparr>CostRatio := r\<rparr>\<rparr>"

definition pod_cost :: "pod \<Rightarrow> f64" where
  "pod_cost p = Cost (Allocations p)"

definition pod_ratio :: "pod \<Rightarrow> f64" where
  "pod_ratio p = CostRatio (Allocations p)"

definition estimated_cost :: "f64 \<times> f64 \<Rightarrow> pod \<Rightarrow> f64" where
  "estimated_cost w p =
     (let c = fadd (fmul (CostCPURequest (CostMeta p)) (fst w)) (fmul (CostRAMRequest (CostMeta p)) (snd w))
      in fdiv (fround (fmul c (Fin 1000))) (Fin 1000))"

definition cost_step :: "f64 \<times> f64 \<Rightarrow> f64 \<Rightarrow> pod_meta \<Rightarrow> alloc_state \<Rightarrow> alloc_state" where
  "cost_step w totalCost key st =
     (case pods st key of
        None \<Rightarrow> st
      | Some p \<Rightarrow>
          let p = set_cost (estimated_cost w p) p;
              p = (if \<not> feq totalCost (Fin 0) then set_ratio (fdiv (pod_cost p) totalCost) p else p)
          in \<lparr>pods = (pods st)(key \<mapsto> p),
              totalPodCost = fadd (totalPodCost st) (pod_cost p),
              totalPodCostRatio = fadd (totalPodCostRatio st) (pod_ratio p),
              allocSet = (allocSet st)(Name (Allocations p) \<mapsto> PodAlloc key)\<rparr>)"

definition billing_step :: "f64 \<Rightarrow> pod_meta \<Rightarrow> alloc_state \<Rightarrow> alloc_state" where
  "billing_step totalCost key st =
     (case pods st key of
        None \<Rightarrow> st
      | Some p \<Rightarrow>
          let p = set_cost (fmul (pod_ratio p) totalCost) p
          in st\<lparr>pods := (pods st)(key \<mapsto> p), totalPodCost := fadd (totalPodCost st) (pod_cost p)\<rparr>)"

definition total_billing :: "cost_env \<Rightarrow> string \<Rightarrow> string \<Rightarrow> CostType \<Rightarrow> f64 res" where
  "total_billing env selector target cost_type =
     (if target = ''cluster'' then
        Inr (case cost_type of
               AllocationPretaxAmount \<Rightarrow> getSingleValueMetric env mBillingPretaxAmountTotal selector
             | AllocationPretaxGrossAmount \<Rightarrow> getSingleValueMetric env mBillingPretaxGrossAmountTotal selector
             | CostEstimated \<Rightarrow> Fin 0)
      else if target = ''node'' then
        Inr (case cost_type of
               AllocationPretaxAmount \<Rightarrow> getSingleValueMetric env mBillingPretaxAmountNode selector
             | _ \<Rightarrow> Fin 0)
      else Inl (Err (''invalid 'targetType' parameter: '' @ target)))"

section \<open>Idle cost\<close>

text \<open>\<open>n\<close> is \<open>len(podMap)\<close>.\<close>

definition share_step ::
  "string \<Rightarrow> int \<Rightarrow> f64 \<Rightarrow> f64 \<Rightarrow> f64 \<Rightarrow> pod_meta \<Rightarrow> pod_map \<Rightarrow> pod_map res" where
  "share_step split n totalIdleCost podTotal totalCost key podMap =
     (case podMap key of
        None \<Rightarrow> Inr podMap
      | Some p \<Rightarrow>
          and_then
            (if split = ShareSplitWeighted then
               Inr (fadd (pod_cost p) (fdiv (fmul totalIdleCost (pod_cost p)) podTotal))
             else if split = ShareSplitEven then
               Inr (fadd (pod_cost p) (fdiv totalIdleCost (f64_of_int n)))
             else Inl (Err (''invalid 'shareSplit' parameter: '' @ split))) (\<lambda>c.
          let p = set_cost c p; p = set_ratio (fdiv (pod_cost p) totalCost) p
          in Inr (podMap(key \<mapsto> p))))"

definition idle_alloc :: "string \<Rightarrow> gotime \<Rightarrow> gotime \<Rightarrow> f64 \<Rightarrow> f64 \<Rightarrow> allocation" where
  "idle_alloc n s e c r =
     \<lparr>Name = n, Properties = None, Start = s, End = e, CPUCoreRequestAverage = Fin 0,
      CPUCoreUsageAverage = Fin 0, RAMBytesRequestAverage = Fin 0, RAMBytesUsageAverage = Fin 0,
      Cost = c, CostRatio = r, CustomCost = Fin 0\<rparr>"

definition set_own :: "allocation \<Rightarrow> (string, alloc_ref) gomap \<Rightarrow> (string, alloc_ref) gomap" where
  "set_own a refs = refs(Name a \<mapsto> Own a)"

definition node_idle ::
  "gotime \<Rightarrow> gotime \<Rightarrow> f64 \<Rightarrow> f64 \<Rightarrow> metric_item \<Rightarrow> (string, alloc_ref) gomap \<Rightarrow> (string, alloc_ref) gomap" where
  "node_idle s e totalNodeCost totalCost item refs =
     (let r = fdiv (value_of item) totalNodeCost in
      set_own (idle_alloc (SplitIdlePrefix @ label_or_empty item ''node'') s e (fmul r totalCost) r) refs)"

text \<open>The references read at the end, when every pod has its final values.\<close>

definition read_set :: "alloc_state \<Rightarrow> allocation_set" where
  "read_set st n =
     (case allocSet st n of
        None \<Rightarrow> None
      | Some (Own a) \<Rightarrow> Some a
      | Some (PodAlloc key) \<Rightarrow> map_option Allocations (pods st key))"

definition idle_phase ::
  "cost_env \<Rightarrow> gotime \<Rightarrow> gotime \<Rightarrow> AllocationParams \<Rightarrow> metric_item list \<Rightarrow> f64 \<Rightarrow> f64 \<Rightarrow> alloc_state \<Rightarrow> alloc_state res" where
  "idle_phase env s e params nodeCosts totalNodeCost totalCost st =
     (let totalIdleCost = fsub totalCost (totalPodCost st);
          totalIdleCostRatio = fsub (Fin 1) (totalPodCostRatio st)
      in if shareIdle params then
           and_then (each (share_step (shareSplit params) (int (length (pod_order env 3)))
               totalIdleCost (totalPodCost st) totalCost) (pod_order env 3) (pods st)) (\<lambda>ps.
             Inr (st\<lparr>pods := ps\<rparr>))
         else if aggregate params = ''node'' \<and> idleByNode params then
           Inr (st\<lparr>allocSet := fold (node_idle s e totalNodeCost totalCost) nodeCosts (allocSet st)\<rparr>)
         else Inr (st\<lparr>allocSet := set_own (idle_alloc IdleSuffix s e totalIdleCost totalIdleCostRatio) (allocSet st)\<rparr>))"

definition node_total :: "metric_item list \<Rightarrow> f64" where
  "node_total items = fsum (map value_of items) (Fin 0)"

definition pods_phase :: "cost_env \<Rightarrow> f64 \<Rightarrow> pod_map \<Rightarrow> alloc_state" where
  "pods_phase env totalCost podMap =
     fold (cost_step (getCostWeights env) totalCost) (pod_order env 1)
       \<lparr>pods = podMap, totalPodCost = Fin 0, totalPodCostRatio = Fin 0, allocSet = Map.empty\<rparr>"

text \<open>The billing amount replaces the total cost when the allocation API asks for it.\<close>

definition billing_phase ::
  "cost_env \<Rightarrow> string \<Rightarrow> AllocationParams \<Rightarrow> f64 \<Rightarrow> alloc_state \<Rightarrow> (f64 \<times> alloc_state) res" where
  "billing_phase env selector params totalCost st =
     (case apiType params of
        TypeCost \<Rightarrow> Inr (totalCost, st)
      | TypeAllocation \<Rightarrow>
          and_then (total_billing env selector (targetType params) (costType params)) (\<lambda>billing.
            Inr (billing, fold (billing_step billing) (pod_order env 2) (st\<lparr>totalPodCost := Fin 0\<rparr>))))"

definition ComputeAllocation ::
  "cost_env \<Rightarrow> gotime \<Rightarrow> gotime \<Rightarrow> AllocationParams \<Rightarrow> (allocation_set \<times> cost_filter option) res" where
  "ComputeAllocation env s e params =
     and_then (metric_selector env s e (resolution params) (filter_param params)) (\<lambda>(selector, f).
     and_then (initPodMap env s e selector) (\<lambda>podMap.
     and_then (each (applyMetricToPodMap env selector) pod_metrics podMap) (\<lambda>podMap.
     and_then (deref (getExternalMetrics env mCostNode selector)) (\<lambda>nodeCosts.
       let totalNodeCost = node_total nodeCosts in
       and_then (billing_phase env selector params totalNodeCost (pods_phase env totalNodeCost podMap))
         (\<lambda>(totalCost, st).
         and_then
           (if idle params \<and> IsEmptyExceptCluster f
            then idle_phase env s e params nodeCosts totalNodeCost totalCost st
            else Inr st) (\<lambda>st.
           Inr (read_set st, Some f)))))))"

section \<open>Ranges\<close>

text \<open>
  The loop over the steps of the window. It may not end: not returning is \<open>None\<close>. Step
  number \<open>i\<close> meets the cluster \<open>envs i\<close>; \<open>show\<close> is the printed form of a window (its
  pointers are printed as addresses).
\<close>

definition wrap_error :: "string \<Rightarrow> error \<Rightarrow> error" where
  "wrap_error prefix e = (case e of Err m \<Rightarrow> Err (prefix @ m) | Panic p \<Rightarrow> Panic p)"

definition next_end :: "gotime \<Rightarrow> duration \<Rightarrow> gotime \<Rightarrow> gotime" where
  "next_end end_time d stepStart =
     (let stepEnd = time_add stepStart d in if after stepEnd end_time then end_time else stepEnd)"

partial_function (option) range_loop ::
  "(window \<Rightarrow> string) \<Rightarrow> (nat \<Rightarrow> cost_env) \<Rightarrow> gotime \<Rightarrow> AllocationParams \<Rightarrow> nat \<Rightarrow> gotime \<Rightarrow> gotime \<Rightarrow>
   allocation_set_range \<Rightarrow> allocation_set_range res option" where
  "range_loop show_window envs end_time params i stepStart stepEnd asr =
     (if after end_time stepStart then
        (case ComputeAllocation (envs i) stepStart stepEnd params of
           Inl e \<Rightarrow> Some (Inl (wrap_error
             (''error computing allocations for '' @ show_window (NewClosedWindow stepStart stepEnd) @ '': '') e))
         | Inr (allocs, f) \<Rightarrow>
             range_loop show_window envs end_time (params\<lparr>filter_param := f\<rparr>) (Suc i) stepEnd
               (next_end end_time (step params) stepEnd) (Append (Some allocs) asr))
      else Some (Inr asr))"

definition GetRangeAllocation ::
  "(window \<Rightarrow> string) \<Rightarrow> (nat \<Rightarrow> cost_env) \<Rightarrow> (nat \<Rightarrow> string list \<times> string list) \<Rightarrow> AllocationParams \<Rightarrow>
   allocation_set_range res option" where
  "GetRangeAllocation show_window envs orders params =
     (let w = window_param params in
      if IsOpen w \<or> IsNegative w
      then Some (Inl (Err (''bad request - illegal window: '' @ show_window w)))
      else map_option (\<lambda>r.
        and_then r (\<lambda>asr.
          case AggregateRange orders (aggregate params) (idleByNode params) asr of
            Inl e \<Rightarrow> Inl (wrap_error ''error aggregating allocations: '' e)
          | Inr asr' \<Rightarrow> Inr asr'))
        (range_loop show_window envs (the (end w)) params 0 (the (start w))
          (time_add (the (start w)) (step params)) NewAllocationSetRange))"

section \<open>The steps of a range\<close>

text \<open>Step number \<open>i\<close> of a window from \<open>s\<close> to \<open>e\<close>: only the first is not cut off at the end.\<close>

definition step_start :: "gotime \<Rightarrow> duration \<Rightarrow> nat \<Rightarrow> gotime" where
  "step_start s d i = time_add s (int i * d)"

definition step_end :: "gotime \<Rightarrow> gotime \<Rightarrow> duration \<Rightarrow> nat \<Rightarrow> gotime" where
  "step_end s e d i =
     (if i = 0 then time_add s d
      else if ns e < ns s + (int i + 1) * d then e else time_add s ((int i + 1) * d))"

lemma step_end_Suc: "ns (step_end s e d i) < ns e \<Longrightarrow> step_end s e d i = step_start s d (Suc i)"
  by (auto simp: step_end_def step_start_def algebra_simps split: if_splits)

lemma next_end_step:
  assumes "step_end s e d i = step_start s d (Suc i)"
  shows "next_end e d (step_end s e d i) = step_end s e d (Suc i)"
  unfolding assms by (simp add: next_end_def step_end_def step_start_def after_def time_add_def Let_def algebra_simps)

lemma step_end_gt: "0 < d \<Longrightarrow> ns (step_start s d i) < ns e \<Longrightarrow> ns (step_start s d i) < ns (step_end s e d i)"
  by (auto simp: step_end_def step_start_def algebra_simps)

text \<open>The loop from step \<open>i\<close> on: it returns, and its result lists the sets of the remaining steps.\<close>

definition same_but_filter :: "AllocationParams \<Rightarrow> AllocationParams \<Rightarrow> bool" where
  "same_but_filter p q \<longleftrightarrow> (\<exists>f. q = p\<lparr>filter_param := f\<rparr>)"

lemma same_but_filter_update: "same_but_filter p q \<Longrightarrow> same_but_filter p (q\<lparr>filter_param := f\<rparr>)"
  by (auto simp: same_but_filter_def)

lemma same_but_filter_step: "same_but_filter p q \<Longrightarrow> step q = step p"
  by (auto simp: same_but_filter_def)

definition computed :: "(nat \<Rightarrow> cost_env) \<Rightarrow> AllocationParams \<Rightarrow> gotime \<Rightarrow> gotime \<Rightarrow> nat \<Rightarrow> allocation_set option \<Rightarrow> bool" where
  "computed envs p s e i as \<longleftrightarrow>
     (\<exists>q a f. same_but_filter p q \<and> as = Some a \<and>
        ComputeAllocation (envs i) (step_start s (step p) i) (step_end s e (step p) i) q = Inr (a, f))"

lemma range_loop_steps:
  assumes "0 < step p" "same_but_filter p q"
    and "ns e \<le> ns ss \<or> ss = step_start s (step p) i \<and> se = step_end s e (step p) i"
  shows "\<exists>r. range_loop sw envs e q i ss se asr = Some r \<and>
    (\<forall>out. r = Inr out \<longrightarrow>
       (\<exists>new. out = asr @ new \<and> (\<forall>j < length new. computed envs p s e (i + j) (new ! j)
          \<and> ns (step_start s (step p) (i + j)) < ns e) \<and>
          (ns ss < ns e \<longrightarrow> ns e \<le> ns (step_end s e (step p) (i + length new - 1)) \<and> new \<noteq> [])))"
  using assms
proof (induction "nat (ns e - ns ss)" arbitrary: q i ss se asr rule: less_induct)
  case less
  show ?case
  proof (cases "ns ss < ns e")
    case False
    then show ?thesis by (subst range_loop.simps) (simp add: after_def)
  next
    case True
    then have s: "ss = step_start s (step p) i" "se = step_end s e (step p) i" using less.prems(3) by auto
    show ?thesis
    proof (cases "ComputeAllocation (envs i) ss se q")
      case (Inl x)
      then show ?thesis using True by (subst range_loop.simps) (simp add: after_def)
    next
      case (Inr af)
      obtain a f where af: "ComputeAllocation (envs i) ss se q = Inr (a, f)" using Inr by (cases af) auto
      let ?q = "q\<lparr>filter_param := f\<rparr>" and ?ne = "next_end e (step q) se"
      have gt: "ns ss < ns se" using step_end_gt [OF less.prems(1), of s i e] True s by simp
      have inv: "ns e \<le> ns se \<or> se = step_start s (step p) (Suc i) \<and> ?ne = step_end s e (step p) (Suc i)"
      proof (cases "ns se < ns e")
        case True
        then have "se = step_start s (step p) (Suc i)" using step_end_Suc s(2) by simp
        then show ?thesis
          using next_end_step [of s e "step p" i] s(2) same_but_filter_step [OF less.prems(2)] by simp
      qed simp
      have "nat (ns e - ns se) < nat (ns e - ns ss)" using gt True by simp
      from less.hyps [OF this less.prems(1) same_but_filter_update [OF less.prems(2)] inv, where asr = "Append (Some a) asr"]
      obtain r where r: "range_loop sw envs e ?q (Suc i) se ?ne (Append (Some a) asr) = Some r"
        "\<And>out. r = Inr out \<Longrightarrow> \<exists>new. out = Append (Some a) asr @ new \<and>
          (\<forall>j < length new. computed envs p s e (Suc i + j) (new ! j) \<and> ns (step_start s (step p) (Suc i + j)) < ns e) \<and>
          (ns se < ns e \<longrightarrow> ns e \<le> ns (step_end s e (step p) (Suc i + length new - 1)) \<and> new \<noteq> [])"
        by blast
      have here: "computed envs p s e i (Some a)" "ns (step_start s (step p) i) < ns e"
        using af less.prems(2) True s by (auto simp: computed_def)
      have "range_loop sw envs e q i ss se asr = Some r"
        using True af r(1) by (subst range_loop.simps) (simp add: after_def)
      moreover have "\<exists>new. out = asr @ new \<and> (\<forall>j < length new. computed envs p s e (i + j) (new ! j)
          \<and> ns (step_start s (step p) (i + j)) < ns e) \<and>
          (ns ss < ns e \<longrightarrow> ns e \<le> ns (step_end s e (step p) (i + length new - 1)) \<and> new \<noteq> [])"
        if out: "r = Inr out" for out
      proof -
        obtain new where new: "out = asr @ Some a # new"
          "\<forall>j < length new. computed envs p s e (Suc i + j) (new ! j) \<and> ns (step_start s (step p) (Suc i + j)) < ns e"
          "ns se < ns e \<longrightarrow> ns e \<le> ns (step_end s e (step p) (Suc i + length new - 1)) \<and> new \<noteq> []"
          using r(2) [OF out] by (auto simp: Append_def)
        show ?thesis
        proof (intro exI [of _ "Some a # new"] conjI allI impI)
          show "out = asr @ Some a # new" by (rule new(1))
          show "computed envs p s e (i + j) ((Some a # new) ! j)" "ns (step_start s (step p) (i + j)) < ns e"
            if "j < length (Some a # new)" for j
            using that here new(2) by (cases j; force)+
          show "ns e \<le> ns (step_end s e (step p) (i + length (Some a # new) - 1))"
          proof (cases "ns se < ns e")
            case False
            have "new = []"
            proof (rule ccontr)
              assume "new \<noteq> []"
              then have lt: "ns (step_start s (step p) (Suc i)) < ns e" using new(2) by force
              have "se = step_start s (step p) (Suc i) \<or> ns se = ns e"
                using s(2) False lt by (auto simp: step_end_def step_start_def algebra_simps split: if_splits)
              then show False using False lt s(2)
                by (auto simp: step_end_def step_start_def algebra_simps split: if_splits)
            qed
            then show ?thesis using False s(2) by simp
          qed (use new(3) in simp)
        qed simp
      qed
      ultimately show ?thesis by blast
    qed
  qed
qed

lemma AggregateRange_length:
  assumes "AggregateRange orders ag b asr = Inr asr'"
  shows "length asr' = length asr"
proof -
  have "each (\<lambda>(i, as) asList. and_then (AggregateBy (fst (orders i)) (snd (orders i)) ag b as)
      (\<lambda>newAs. Inr (asList @ [newAs]))) xs ys = Inr zs \<Longrightarrow> length zs = length ys + length xs" for xs ys zs
  proof (induction xs arbitrary: ys)
    case (Cons x xs)
    obtain i as where x: "x = (i, as)" by (cases x)
    from Cons.prems obtain n where "each (\<lambda>(i, as) asList. and_then (AggregateBy (fst (orders i)) (snd (orders i)) ag b as)
      (\<lambda>newAs. Inr (asList @ [newAs]))) xs (ys @ [n]) = Inr zs"
      unfolding x by (auto simp: and_then_eq_Inr)
    from Cons.IH [OF this] show ?case by simp
  qed simp
  from this [of "zip [0..<length asr] asr" "[]" asr'] assms show ?thesis by (simp add: AggregateRange_def)
qed

lemma range_start:
  "time_add s (step p) = step_end s e (step p) 0" "s = step_start s (step p) 0"
  by (simp_all add: step_end_def step_start_def time_add_def)

lemma GetRangeAllocation_loop:
  assumes "0 < step p" "start (window_param p) = Some s" "end (window_param p) = Some e"
  shows "\<exists>r. range_loop sw envs e p 0 s (time_add s (step p)) NewAllocationSetRange = Some r \<and>
    (\<forall>out. r = Inr out \<longrightarrow>
       (\<forall>j < length out. computed envs p s e j (out ! j) \<and> ns (step_start s (step p) j) < ns e) \<and>
       (ns s < ns e \<longrightarrow> ns e \<le> ns (step_end s e (step p) (length out - 1)) \<and> out \<noteq> []))"
proof -
  have "same_but_filter p p" unfolding same_but_filter_def by (intro exI [of _ "filter_param p"]) simp
  then have "\<exists>r. range_loop sw envs e p 0 s (time_add s (step p)) NewAllocationSetRange = Some r \<and>
    (\<forall>out. r = Inr out \<longrightarrow>
       (\<exists>new. out = NewAllocationSetRange @ new \<and> (\<forall>j < length new. computed envs p s e (0 + j) (new ! j)
          \<and> ns (step_start s (step p) (0 + j)) < ns e) \<and>
          (ns s < ns e \<longrightarrow> ns e \<le> ns (step_end s e (step p) (0 + length new - 1)) \<and> new \<noteq> [])))"
    using range_start(1) [of s p e] range_start(2) [of s p] by (intro range_loop_steps [OF assms(1)]) auto
  then show ?thesis by (auto simp: NewAllocationSetRange_def)
qed

text \<open>A cluster without metrics.\<close>

definition quiet_env :: cost_env where
  "quiet_env = \<lparr>ext_list = \<lambda>_ _. Inr [], parse_selector = Inr, rs_owners = \<lambda>_ _. [], deployments = \<lambda>_. [],
     replica_sets = \<lambda>_ _. [], weights = None, label_order = [], pod_order = \<lambda>_. []\<rparr>"

definition basic_params :: "window \<Rightarrow> duration \<Rightarrow> AllocationParams" where
  "basic_params w d =
     \<lparr>apiType = TypeCost, window_param = w, resolution = [], step = d, aggregate = ''pod'',
      filter_param = Some empty_filter, accumulateBy = AccumulateOptionNone, costType = CostEstimated,
      idle = False, shareIdle = False, shareSplit = ShareSplitWeighted, idleByNode = False, targetType = []\<rparr>"

lemma quiet_metrics: "getExternalMetrics quiet_env n sel = Some []"
  by (simp add: getExternalMetrics_def quiet_env_def)

lemma quiet_computes:
  assumes "apiType p = TypeCost" "filter_param p = Some empty_filter" "resolution p = []" "\<not> idle p"
  shows "ComputeAllocation quiet_env s e p = Inr (Map.empty, Some empty_filter)"
proof -
  obtain sel where "metric_selector quiet_env s e [] (Some empty_filter) = Inr (sel, empty_filter)"
    by (auto simp: metric_selector_def GetLabelSelectorStr_def NewClosedWindow_def preprocessFilter_def
        quiet_env_def empty_filter_def Let_def)
  moreover have "initPodMap quiet_env s e sel = Inr Map.empty"
    by (simp add: initPodMap_def quiet_metrics) (simp add: quiet_env_def)
  moreover have "each (applyMetricToPodMap quiet_env sel) pod_metrics Map.empty = Inr Map.empty"
    by (simp add: pod_metrics_def applyMetricToPodMap_def quiet_metrics)
  ultimately show ?thesis
    using assms by (simp add: ComputeAllocation_def quiet_metrics billing_phase_def Let_def pods_phase_def)
      (simp add: quiet_env_def read_set_def fun_eq_iff)
qed

lemma quiet_compute:
  "ComputeAllocation quiet_env s e (basic_params w d) = Inr (Map.empty, Some empty_filter)"
  by (rule quiet_computes) (simp_all add: basic_params_def)

lemma basic_params_simps [simp]:
  "window_param (basic_params w d) = w" "step (basic_params w d) = d"
  "aggregate (basic_params w d) = ''pod''" "filter_param (basic_params w d) = Some empty_filter"
  "(basic_params w d)\<lparr>filter_param := Some empty_filter\<rparr> = basic_params w d"
  by (simp_all add: basic_params_def)

text \<open>A step that does not move forward: the loop never reaches the end of the window.\<close>

definition always_computes :: "(nat \<Rightarrow> cost_env) \<Rightarrow> AllocationParams \<Rightarrow> bool" where
  "always_computes envs params \<longleftrightarrow>
     (\<forall>i s e. \<exists>a. ComputeAllocation (envs i) s e params = Inr (a, filter_param params))"

lemma filter_param_id: "p\<lparr>filter_param := filter_param p\<rparr> = p"
  by simp

lemma range_loop_diverges:
  assumes "range_loop sw envs e p i ss se asr = Some r"
  shows "always_computes envs p \<longrightarrow> step p \<le> 0 \<longrightarrow> ns ss < ns e \<longrightarrow> ns se < ns e \<longrightarrow> False"
  using assms
proof (rule range_loop.raw_induct [rotated], intro impI)
  fix loop sw envs e p i ss se asr r
  assume IH: "\<And>sw envs e p i ss se asr r. loop sw envs e p i ss se asr = Some r \<Longrightarrow>
      always_computes envs p \<longrightarrow> step p \<le> 0 \<longrightarrow> ns ss < ns e \<longrightarrow> ns se < ns e \<longrightarrow> False"
    and body: "(if after e ss then
        (case ComputeAllocation (envs i) ss se p of
           Inl x \<Rightarrow> Some (Inl (wrap_error
             (''error computing allocations for '' @ sw (NewClosedWindow ss se) @ '': '') x))
         | Inr (allocs, f) \<Rightarrow>
             loop sw envs e (p\<lparr>filter_param := f\<rparr>) (Suc i) se (next_end e (step p) se) (Append (Some allocs) asr))
      else Some (Inr asr)) = Some r"
    and ac: "always_computes envs p" and st: "step p \<le> 0" and lt: "ns ss < ns e" "ns se < ns e"
  obtain a where a: "ComputeAllocation (envs i) ss se p = Inr (a, filter_param p)"
    using ac unfolding always_computes_def by blast
  have "loop sw envs e (p\<lparr>filter_param := filter_param p\<rparr>) (Suc i) se (next_end e (step p) se) (Append (Some a) asr) = Some r"
    using body lt(1) a by (simp add: after_def)
  from IH [OF this] show False
    using ac st lt unfolding filter_param_id by (simp add: next_end_def after_def Let_def)
qed

lemma quiet_range:
  assumes "ns s < ns e" "ns s + d < ns e" "ns e \<le> ns s + 2 * d"
  shows "range_loop sw (\<lambda>_. quiet_env) e (basic_params w d) 0 s (time_add s d) [] =
    Some (Inr [Some Map.empty, Some Map.empty])"
proof -
  have "\<not> after e (next_end e d (time_add s d))"
    using assms by (auto simp: next_end_def after_def Let_def)
  then show ?thesis
    using assms
    by (subst range_loop.simps) (simp add: quiet_compute after_def, subst range_loop.simps,
      simp add: quiet_compute after_def, subst range_loop.simps, simp add: after_def Append_def)
qed

section \<open>Phases of a computation\<close>

definition priced :: "f64 \<times> f64 \<Rightarrow> f64 \<Rightarrow> pod \<Rightarrow> pod" where
  "priced w totalCost p =
     (let p = set_cost (estimated_cost w p) p
      in if \<not> feq totalCost (Fin 0) then set_ratio (fdiv (pod_cost p) totalCost) p else p)"

lemma priced_simps [simp]:
  "pod_cost (priced w t p) = estimated_cost w p"
  "Name (Allocations (priced w t p)) = Name (Allocations p)"
  by (simp_all add: priced_def pod_cost_def set_cost_def set_ratio_def Let_def)

lemma cost_step_priced:
  "pods st key = Some p \<Longrightarrow> cost_step w t key st =
     \<lparr>pods = (pods st)(key \<mapsto> priced w t p),
      totalPodCost = fadd (totalPodCost st) (estimated_cost w p),
      totalPodCostRatio = fadd (totalPodCostRatio st) (pod_ratio (priced w t p)),
      allocSet = (allocSet st)(Name (Allocations p) \<mapsto> PodAlloc key)\<rparr>"
  using priced_simps(1) [of w t p] by (simp add: cost_step_def priced_def Let_def set_cost_def set_ratio_def)

definition pod_name :: "pod_map \<Rightarrow> pod_meta \<Rightarrow> string" where
  "pod_name pm k = Name (Allocations (the (pm k)))"

lemma cost_loop:
  assumes "distinct ks" "set ks \<subseteq> dom pm" "inj_on (pod_name pm) (set ks)"
  shows "\<exists>r. fold (cost_step w t) ks
      \<lparr>pods = pm, totalPodCost = c, totalPodCostRatio = q, allocSet = Map.empty\<rparr> =
    \<lparr>pods = (\<lambda>k. if k \<in> set ks then map_option (priced w t) (pm k) else pm k),
     totalPodCost = fsum (map (\<lambda>k. estimated_cost w (the (pm k))) ks) c,
     totalPodCostRatio = r,
     allocSet = (\<lambda>n. map_option PodAlloc (find (\<lambda>k. pod_name pm k = n) ks))\<rparr>"
  using assms
proof (induction ks rule: rev_induct)
  case (snoc k ks)
  then obtain r where IH: "fold (cost_step w t) ks
      \<lparr>pods = pm, totalPodCost = c, totalPodCostRatio = q, allocSet = Map.empty\<rparr> =
    \<lparr>pods = (\<lambda>k. if k \<in> set ks then map_option (priced w t) (pm k) else pm k),
     totalPodCost = fsum (map (\<lambda>k. estimated_cost w (the (pm k))) ks) c,
     totalPodCostRatio = r,
     allocSet = (\<lambda>n. map_option PodAlloc (find (\<lambda>k. pod_name pm k = n) ks))\<rparr>" by auto
  obtain p where p: "pm k = Some p" using snoc.prems(2) by auto
  have new: "k \<notin> set ks" "\<And>l. l \<in> set ks \<Longrightarrow> pod_name pm l \<noteq> pod_name pm k"
    using snoc.prems(1,3) by (auto simp: inj_on_def)
  have none: "find (\<lambda>l. pod_name pm l = pod_name pm k) ks = None"
    using new(2) by (simp add: find_None_iff)
  have fnd: "find P (ks @ [k]) = (case find P ks of Some l \<Rightarrow> Some l | None \<Rightarrow> if P k then Some k else None)" for P
    by (induction ks) auto
  have nm: "Name (Allocations p) = pod_name pm k" by (simp add: pod_name_def p)
  show ?case
    unfolding fold_append comp_apply IH fold_simps
    by (subst cost_step_priced [where p = p])
      (auto simp: p new(1) fnd none nm fun_eq_iff split: option.split)
qed simp

lemma find_key:
  assumes "distinct ks" "inj_on f (set ks)" "k \<in> set ks"
  shows "find (\<lambda>l. f l = f k) ks = Some k"
proof -
  have "find (\<lambda>l. f l = f k) ks \<noteq> None" using assms(3) by (auto simp: find_None_iff)
  then obtain l where "find (\<lambda>l. f l = f k) ks = Some l" by auto
  moreover from this have "l \<in> set ks" "f l = f k" by (auto simp: find_Some_iff)
  ultimately show ?thesis using assms(2,3) by (auto simp: inj_on_def)
qed

text \<open>The set of a computation over the pods \<open>ks\<close> with one idle entry.\<close>

lemma read_pods:
  assumes "distinct ks" "set ks = dom pm" "inj_on (pod_name pm) (set ks)"
    and "\<And>k. k \<in> set ks \<Longrightarrow> pod_name pm k \<noteq> Name i"
    and "pods st = (\<lambda>k. if k \<in> set ks then map_option (priced w t) (pm k) else pm k)"
    and "allocSet st = set_own i (\<lambda>n. map_option PodAlloc (find (\<lambda>k. pod_name pm k = n) ks))"
  shows "dom (read_set st) = insert (Name i) (pod_name pm ` set ks)"
    and "read_set st (Name i) = Some i"
    and "k \<in> set ks \<Longrightarrow> read_set st (pod_name pm k) = Some (Allocations (priced w t (the (pm k))))"
proof -
  show i: "read_set st (Name i) = Some i" by (simp add: read_set_def assms(6) set_own_def)
  show k: "read_set st (pod_name pm k) = Some (Allocations (priced w t (the (pm k))))" if "k \<in> set ks" for k
  proof -
    have "find (\<lambda>l. pod_name pm l = pod_name pm k) ks = Some k"
      by (rule find_key [OF assms(1,3) that])
    moreover have "k \<in> dom pm" using assms(2) that by simp
    then obtain p where "pm k = Some p" by (blast dest: domD)
    ultimately show ?thesis
      using assms(4) [OF that] that by (simp add: read_set_def assms(5,6) set_own_def)
  qed
  have "read_set st n = None" if "n \<noteq> Name i" "n \<notin> pod_name pm ` set ks" for n
  proof -
    have "find (\<lambda>k. pod_name pm k = n) ks = None" using that(2) by (auto simp: find_None_iff)
    then show ?thesis using that(1) by (simp add: read_set_def assms(6) set_own_def)
  qed
  note none = this
  show "dom (read_set st) = insert (Name i) (pod_name pm ` set ks)"
  proof (rule set_eqI)
    show "n \<in> dom (read_set st) \<longleftrightarrow> n \<in> insert (Name i) (pod_name pm ` set ks)" for n
      using none [of n] i k by (cases "n = Name i"; cases "n \<in> pod_name pm ` set ks") (auto simp: dom_def)
  qed
qed

section \<open>Well-formed pod maps\<close>

text \<open>Every pod sits under its own key, with the name, window and properties that key implies.\<close>

definition wf_pod :: "gotime \<Rightarrow> gotime \<Rightarrow> pod_meta \<Rightarrow> pod \<Rightarrow> bool" where
  "wf_pod s e k p \<longleftrightarrow>
     podKey p = k \<and> Name (Allocations p) = pod_meta_string k \<and>
     Start (Allocations p) = s \<and> End (Allocations p) = e \<and>
     (\<exists>q. Properties (Allocations p) = Some q \<and> pNamespace q = mNamespace k \<and> pPod q = mPod k)"

definition wf_pods :: "gotime \<Rightarrow> gotime \<Rightarrow> pod_map \<Rightarrow> bool" where
  "wf_pods s e pm \<longleftrightarrow> (\<forall>k p. pm k = Some p \<longrightarrow> wf_pod s e k p)"

lemma wf_podsD: "wf_pods s e pm \<Longrightarrow> pm k = Some p \<Longrightarrow> wf_pod s e k p"
  by (simp add: wf_pods_def)

lemma wf_pods_upd: "wf_pods s e pm \<Longrightarrow> wf_pod s e k p \<Longrightarrow> wf_pods s e (pm(k \<mapsto> p))"
  by (simp add: wf_pods_def)

lemma wf_new_pod: "wf_pod s e key (new_pod env s e key item)"
  by (simp add: wf_pod_def new_pod_def pod_meta_string_def split: prod.split)

lemma wf_set_props:
  "(\<And>q. pNamespace (g q) = pNamespace q \<and> pPod (g q) = pPod q) \<Longrightarrow> wf_pod s e k p \<Longrightarrow> wf_pod s e k (set_props g p)"
  by (auto simp: wf_pod_def set_props_def)

lemma wf_set_metric: "wf_pod s e k p \<Longrightarrow> wf_pod s e k (set_metric m v p)"
  by (auto simp: wf_pod_def set_metric_def Let_def)

lemma fold_invariant: "P s \<Longrightarrow> (\<And>x s. x \<in> set xs \<Longrightarrow> P s \<Longrightarrow> P (f x s)) \<Longrightarrow> P (fold f xs s)"
  by (induction xs arbitrary: s) auto

lemma wf_add_pod: "wf_pods s e pm \<Longrightarrow> wf_pods s e (add_pod env s e item pm)"
  by (auto simp: add_pod_def intro!: wf_pods_upd wf_new_pod split: option.split)

lemma wf_add_labels: "wf_pods s e pm \<Longrightarrow> wf_pods s e (add_labels item pm)"
  by (auto simp: add_labels_def intro!: wf_pods_upd wf_set_props dest: wf_podsD split: option.split)

lemma wf_set_provider: "wf_pods s e pm \<Longrightarrow> wf_pods s e (set_provider ps k pm)"
  by (auto simp: set_provider_def intro!: wf_pods_upd wf_set_props dest: wf_podsD split: option.split)

lemma wf_apply_item: "apply_item m item pm = Inr pm' \<Longrightarrow> wf_pods s e pm \<Longrightarrow> wf_pods s e pm'"
  by (auto simp: apply_item_def deref_def and_then_eq_Inr intro!: wf_pods_upd wf_set_metric
      dest: wf_podsD split: option.splits if_splits)

lemma wf_apply_metric: "applyMetricToPodMap env sel m pm = Inr pm' \<Longrightarrow> wf_pods s e pm \<Longrightarrow> wf_pods s e pm'"
  by (auto simp: applyMetricToPodMap_def split: option.splits
      elim!: each_invariant [where P = "wf_pods s e"] intro: wf_apply_item)

text \<open>The keys of a pod map are those of the pod-info items; later phases keep them.\<close>

definition info_keys :: "metric_item list \<Rightarrow> pod_meta set" where
  "info_keys items = {k. \<exists>i \<in> set items. item_key i = Some k}"

lemma dom_add_pods: "dom (fold (add_pod env s e) items pm) = dom pm \<union> info_keys items"
  by (induction items arbitrary: pm)
    (auto simp: info_keys_def add_pod_def split: option.splits if_splits)

lemma dom_add_labels: "dom (fold add_labels items pm) = dom pm"
proof (induction items arbitrary: pm)
  case (Cons i items)
  have "dom (add_labels i pm) = dom pm" by (auto simp: add_labels_def split: option.split)
  with Cons show ?case by simp
qed simp

lemma dom_set_providers: "dom (fold (set_provider ps) ks pm) = dom pm"
proof (induction ks arbitrary: pm)
  case (Cons k ks)
  have "dom (set_provider ps k pm) = dom pm" by (auto simp: set_provider_def split: option.split)
  with Cons show ?case by simp
qed simp

lemma dom_apply_item: "apply_item m item pm = Inr pm' \<Longrightarrow> dom pm' = dom pm"
  by (auto simp: apply_item_def deref_def split: option.splits if_splits)

lemma dom_apply_items: "each (apply_item m) items pm = Inr pm' \<Longrightarrow> dom pm' = dom pm"
  by (erule each_invariant [where P = "\<lambda>x. dom x = dom pm"]) (simp_all only: dom_apply_item)

lemma dom_apply_metric: "applyMetricToPodMap env sel m pm = Inr pm' \<Longrightarrow> dom pm' = dom pm"
  using dom_apply_items by (auto simp: applyMetricToPodMap_def split: option.splits)

lemma initPodMap_wf:
  assumes "initPodMap env s e sel = Inr pm"
  shows "wf_pods s e pm" "\<exists>infos. getExternalMetrics env mKubePodInfo sel = Some infos \<and> dom pm = info_keys infos"
proof -
  obtain infos labels nodes where m: "getExternalMetrics env mKubePodInfo sel = Some infos"
    and pm: "pm = fold (set_provider (fold add_node nodes Map.empty)) (pod_order env 0)
      (fold add_labels labels (fold (add_pod env s e) infos Map.empty))"
    using assms by (auto simp: initPodMap_def and_then_eq_Inr deref_def Let_def split: option.splits)
  have "wf_pods s e Map.empty" by (simp add: wf_pods_def)
  then show "wf_pods s e pm" unfolding pm
    by (intro fold_invariant [where P = "wf_pods s e"] wf_set_provider wf_add_labels wf_add_pod)
  show "\<exists>infos. getExternalMetrics env mKubePodInfo sel = Some infos \<and> dom pm = info_keys infos"
    using m by (simp add: pm dom_set_providers dom_add_labels dom_add_pods)
qed

lemma metrics_wf:
  assumes "each (applyMetricToPodMap env sel) ms pm = Inr pm'" "wf_pods s e pm"
  shows "wf_pods s e pm'" "dom pm' = dom pm"
  using each_invariant [OF assms(1), of "\<lambda>x. wf_pods s e x \<and> dom x = dom pm"] assms(2)
    wf_apply_metric dom_apply_metric by auto

text \<open>Names of pods in namespaces without a slash.\<close>

lemma pod_meta_string_inj:
  assumes "CHR ''/'' \<notin> set (mNamespace k)" "CHR ''/'' \<notin> set (mNamespace l)"
    "pod_meta_string k = pod_meta_string l"
  shows "k = (l :: pod_meta)"
proof -
  have "cut_str [CHR ''/''] (pod_meta_string k) = Some (mNamespace k, mPod k)"
    "cut_str [CHR ''/''] (pod_meta_string l) = Some (mNamespace l, mPod l)"
    using cut_str_char assms(1,2) by (simp_all add: pod_meta_string_def)
  with assms(3) show ?thesis by (intro pod_meta.equality) auto
qed

lemma pod_meta_string_not_idle: "pod_meta_string k \<noteq> IdleSuffix"
proof
  assume "pod_meta_string k = IdleSuffix"
  then have "CHR ''/'' \<in> set IdleSuffix" by (metis pod_meta_string_def in_set_conv_decomp append_Cons append_Nil)
  then show False by (simp add: IdleSuffix_def)
qed

section \<open>Rounding of an idle cost\<close>

lemma sum_abs_list: "\<bar>\<Sum>x\<leftarrow>xs. f x\<bar> \<le> (\<Sum>x\<leftarrow>xs. \<bar>f x :: rat\<bar>)"
  by (induction xs) (auto intro: order_trans [OF abs_triangle_ineq])

lemma idle_sum_error:
  fixes cs :: "f64 list"
  defines "P \<equiv> (\<Sum>x\<leftarrow>cs. \<bar>val x\<bar>)" and "n \<equiv> length cs" and "S \<equiv> fsum cs (Fin 0)"
  assumes cs: "\<And>x. x \<in> set cs \<Longrightarrow> is_fin x \<and> wf64 x" and T: "is_fin T" "wf64 T"
    and small: "(1 + eps) ^ (n + 1) * (P + \<bar>val T\<bar>) \<le> pow2 1023"
  shows "\<bar>(\<Sum>x\<leftarrow>cs. val x) + val (fsub T S) - val T\<bar> \<le> ((1 + eps) ^ (n + 1) - 1) * (P + \<bar>val T\<bar>)"
proof -
  define G where "G = (1 + eps) ^ n"
  define W where "W = (\<Sum>x\<leftarrow>cs. val x)"
  have G: "1 \<le> G" unfolding G_def by (rule one_le_growth)
  have P: "0 \<le> P" "\<bar>W\<bar> \<le> P" unfolding P_def W_def by (auto intro: sum_abs_list)
  have GP: "0 \<le> G * (P + \<bar>val T\<bar>)" "G * P \<le> G * (P + \<bar>val T\<bar>)" "\<bar>val T\<bar> \<le> G * \<bar>val T\<bar>"
    using G P by (auto intro: mult_nonneg_nonneg mult_left_mono simp: mult_le_cancel_right1)
  have big: "G * (P + \<bar>val T\<bar>) + eps * (G * (P + \<bar>val T\<bar>)) \<le> pow2 1023"
    using small by (simp add: G_def algebra_simps)
  have e0: "0 \<le> eps * (G * (P + \<bar>val T\<bar>))" using GP(1) by simp
  have "G * P \<le> pow2 1023" using GP(2) big e0 by linarith
  then have s: "is_fin S" "\<bar>val S - W\<bar> \<le> (G - 1) * P"
    using fsum_error [of "Fin 0" cs] cs by (auto simp: S_def P_def G_def n_def W_def)
  have wS: "wf64 S" unfolding S_def using cs by (intro wf64_fsum) auto
  have "(G - 1) * P = G * P - P" by (simp add: left_diff_distrib)
  then have "\<bar>val S\<bar> \<le> G * P" using s(2) P by linarith
  then have ts: "\<bar>val T + val (fneg S)\<bar> \<le> G * (P + \<bar>val T\<bar>)"
    using GP(3) by (simp add: distrib_left)
  then have "\<bar>val T + val (fneg S)\<bar> \<le> pow2 1023" using big e0 by linarith
  from fadd_error [OF T(1) _ T(2) _ this] have
    "\<bar>val (fsub T S) - (val T + val (fneg S))\<bar> \<le> \<bar>val T + val (fneg S)\<bar> * eps"
    using s(1) wS by (simp add: fsub_def)
  also have "\<dots> \<le> G * (P + \<bar>val T\<bar>) * eps" using ts by (intro mult_right_mono) auto
  finally have f: "\<bar>val (fsub T S) - (val T - val S)\<bar> \<le> G * (P + \<bar>val T\<bar>) * eps" by simp
  have "(G - 1) * P \<le> (G - 1) * (P + \<bar>val T\<bar>)" using G by (intro mult_left_mono) auto
  with s(2) f have "\<bar>W + val (fsub T S) - val T\<bar> \<le> (G - 1) * (P + \<bar>val T\<bar>) + G * (P + \<bar>val T\<bar>) * eps"
    by linarith
  also have "\<dots> = ((1 + eps) ^ (n + 1) - 1) * (P + \<bar>val T\<bar>)" by (simp add: G_def algebra_simps)
  finally show ?thesis by (simp add: W_def)
qed

text \<open>The set returned by a computation with a separate idle entry, and the sum of its costs.\<close>

lemma compute_idle_set:
  assumes sel: "metric_selector env s e (resolution params) (filter_param params) = Inr (sel, f)"
    and init: "initPodMap env s e sel = Inr pm0"
    and metrics: "each (applyMetricToPodMap env sel) pod_metrics pm0 = Inr pm"
    and nodes: "getExternalMetrics env mCostNode sel = Some nodes"
    and mode: "apiType params = TypeCost" "idle params" "IsEmptyExceptCluster f" "\<not> shareIdle params"
      "aggregate params \<noteq> ''node'' \<or> \<not> idleByNode params"
    and order: "iter_order (pod_order env 1) pm"
    and slash: "\<forall>k \<in> dom pm. CHR ''/'' \<notin> set (mNamespace k)"
  defines "cost \<equiv> \<lambda>k. estimated_cost (getCostWeights env) (the (pm k))"
    and "T \<equiv> node_total nodes"
  shows "\<exists>m. ComputeAllocation env s e params = Inr (m, Some f) \<and>
    dom m = insert IdleSuffix (pod_meta_string ` dom pm) \<and>
    (\<Sum>x \<in> dom m. val (Cost (the (m x)))) =
      (\<Sum>k\<leftarrow>pod_order env 1. val (cost k)) + val (fsub T (fsum (map cost (pod_order env 1)) (Fin 0)))"
proof -
  let ?ks = "pod_order env 1" and ?w = "getCostWeights env"
  have ks: "distinct ?ks" "set ?ks = dom pm" using order by (auto simp: iter_order_def)
  have wf: "wf_pods s e pm" using metrics_wf(1) [OF metrics initPodMap_wf(1) [OF init]] .
  have nm: "pod_name pm k = pod_meta_string k" if "k \<in> dom pm" for k
    using that wf by (auto simp: pod_name_def wf_pods_def wf_pod_def)
  have inj: "inj_on (pod_name pm) (set ?ks)"
    using slash nm unfolding ks(2) inj_on_def by (metis pod_meta_string_inj)
  obtain r where st: "pods_phase env T pm =
    \<lparr>pods = (\<lambda>k. if k \<in> set ?ks then map_option (priced ?w T) (pm k) else pm k),
     totalPodCost = fsum (map cost ?ks) (Fin 0), totalPodCostRatio = r,
     allocSet = (\<lambda>n. map_option PodAlloc (find (\<lambda>k. pod_name pm k = n) ?ks))\<rparr>"
    using cost_loop [OF ks(1) equalityD1 [OF ks(2)] inj, of ?w T "Fin 0" "Fin 0"]
    unfolding pods_phase_def cost_def by blast
  define S where "S = fsum (map cost ?ks) (Fin 0)"
  define idl where "idl = idle_alloc IdleSuffix s e (fsub T S) (fsub (Fin 1) r)"
  define fst' where "fst' = (pods_phase env T pm)\<lparr>allocSet := set_own idl (allocSet (pods_phase env T pm))\<rparr>"
  have comp: "ComputeAllocation env s e params = Inr (read_set fst', Some f)"
    using mode by (auto simp: ComputeAllocation_def sel init metrics nodes Let_def billing_phase_def
        T_def [symmetric] idle_phase_def fst'_def idl_def st S_def)
  have ni: "pod_name pm k \<noteq> Name idl" if "k \<in> set ?ks" for k
    using nm that ks(2) pod_meta_string_not_idle by (simp add: idl_def idle_alloc_def)
  note rp = read_pods [OF ks inj ni, of fst' ?w T]
  have names: "Name idl = IdleSuffix" "Cost idl = fsub T S" by (simp_all add: idl_def idle_alloc_def)
  have dom: "dom (read_set fst') = insert IdleSuffix (pod_name pm ` set ?ks)"
    and ri: "read_set fst' IdleSuffix = Some idl"
    and rk: "\<And>k. k \<in> set ?ks \<Longrightarrow> read_set fst' (pod_name pm k) = Some (Allocations (priced ?w T (the (pm k))))"
    using rp by (simp_all add: fst'_def st names)
  have "(\<Sum>x \<in> pod_name pm ` set ?ks. val (Cost (the (read_set fst' x)))) = (\<Sum>k \<in> set ?ks. val (cost k))"
    unfolding sum.reindex [OF inj] comp_def
    by (rule sum.cong) (simp_all add: rk cost_def priced_simps(1) [unfolded pod_cost_def] del: One_nat_def)
  also have "\<dots> = (\<Sum>k\<leftarrow>?ks. val (cost k))" using ks(1) by (simp add: sum_list_distinct_conv_sum_set)
  moreover have "IdleSuffix \<notin> pod_name pm ` set ?ks" using ni names(1) by force
  ultimately have sum: "(\<Sum>x \<in> dom (read_set fst'). val (Cost (the (read_set fst' x)))) =
      (\<Sum>k\<leftarrow>?ks. val (cost k)) + val (fsub T S)"
    using names ri by (subst dom, subst sum.insert) auto
  show ?thesis using comp dom nm ks(2) sum unfolding S_def by (intro exI [of _ "read_set fst'"]) auto
qed

section \<open>Whether a range returns\<close>

lemma range_returns:
  assumes "0 < step params"
  shows "\<exists>r. GetRangeAllocation sw envs orders params = Some r"
proof (cases "IsOpen (window_param params)")
  case True
  then show ?thesis by (simp add: GetRangeAllocation_def)
next
  case False
  then obtain s e where "start (window_param params) = Some s" "end (window_param params) = Some e"
    by (auto simp: Window_Model.IsOpen_def)
  note se = this
  obtain r where "range_loop sw envs e params 0 s (time_add s (step params)) NewAllocationSetRange = Some r"
    using GetRangeAllocation_loop [OF assms se, of sw envs] by blast
  then show ?thesis using se by (simp add: GetRangeAllocation_def Let_def)
qed

lemma range_never_returns:
  assumes "start (window_param params) = Some s" "end (window_param params) = Some e" "ns s < ns e"
    and "step params \<le> 0" "always_computes envs params"
  shows "GetRangeAllocation sw envs orders params = None"
proof -
  have "range_loop sw envs e params 0 s (time_add s (step params)) NewAllocationSetRange \<noteq> Some r" for r
    using range_loop_diverges [of sw envs e params 0 s "time_add s (step params)" NewAllocationSetRange r] assms
    by auto
  then have "range_loop sw envs e params 0 s (time_add s (step params)) NewAllocationSetRange = None"
    by (cases "range_loop sw envs e params 0 s (time_add s (step params)) NewAllocationSetRange") auto
  then show ?thesis
    using assms(1-3) by (simp add: GetRangeAllocation_def Let_def Window_Model.IsOpen_def IsNegative_def before_def)
qed

section \<open>Properties\<close>

text \<open>
  With a positive step \<open>GetRangeAllocation\<close> returns, whatever the cluster answers at each step.
\<close>

theorem GetRangeAllocation_terminates:
  assumes "0 < step params"
  shows "\<exists>r. GetRangeAllocation sw envs orders params = Some r"
  using assms by (rule range_returns)

theorem GetRangeAllocation_terminates_witness:
  "\<exists>r. GetRangeAllocation (\<lambda>_. []) (\<lambda>_. quiet_env) (\<lambda>_. ([], []))
     (basic_params (NewClosedWindow \<lparr>ns = 0, zone = utc\<rparr> \<lparr>ns = 3 * Day, zone = utc\<rparr>) Day) = Some r"
  by (rule GetRangeAllocation_terminates) (simp add: Day_def)

text \<open>Where the last of \<open>n\<close> steps ends.\<close>

lemma range_last:
  assumes "0 < d" "(int n - 1) * d < ns e - ns s" "ns e - ns s \<le> int n * d" "n \<noteq> 0"
  shows "if d \<le> ns e - ns s then ns (step_end s e d (n - 1)) = ns e else n = 1 \<and> ns e < ns (step_end s e d 0)"
proof (cases "n = 1")
  case True
  with assms show ?thesis by (auto simp: step_end_def)
next
  case False
  with assms(4) obtain k where k: "n = Suc (Suc k)" by (metis One_nat_def not0_implies_Suc)
  have "0 \<le> int k * d" using assms(1) by simp
  with assms(2) k have "d < ns e - ns s" by (simp add: algebra_simps)
  with assms(3) k show ?thesis by (auto simp: step_end_def algebra_simps)
qed

text \<open>
  C9. The sets \<open>GetRangeAllocation\<close> returns tile the window: set number \<open>j\<close> is the aggregation of the
  allocations computed from \<open>start + j * step\<close> to \<open>start + (j + 1) * step\<close>, the latter cut off
  at the end of the window for every step but the first, and their number \<open>n\<close> is the window's
  length over the step, rounded up: no gap, no overlap, nothing left out. With a step of at most the length of the window the last
  set ends with the window; with a longer one the only set runs to \<open>start + step\<close>, past the end of the window.
\<close>

theorem GetRangeAllocation_tiles:
  assumes "GetRangeAllocation sw envs orders params = Some (Inr asr)" "0 < step params"
    and "start (window_param params) = Some s" "end (window_param params) = Some e" "ns s < ns e"
  shows "\<exists>sets. AggregateRange orders (aggregate params) (idleByNode params) sets = Inr asr \<and>
    length sets = length asr \<and> asr \<noteq> [] \<and>
    (\<forall>j < length asr. computed envs params s e j (sets ! j)) \<and>
    (int (length asr) - 1) * step params < ns e - ns s \<and> ns e - ns s \<le> int (length asr) * step params \<and>
    (if step params \<le> ns e - ns s then ns (step_end s e (step params) (length asr - 1)) = ns e
     else length asr = 1 \<and> ns e < ns (step_end s e (step params) 0))"
proof -
  obtain r where r: "range_loop sw envs e params 0 s (time_add s (step params)) NewAllocationSetRange = Some r"
    and out: "\<forall>out. r = Inr out \<longrightarrow>
       (\<forall>j < length out. computed envs params s e j (out ! j) \<and> ns (step_start s (step params) j) < ns e) \<and>
       (ns s < ns e \<longrightarrow> ns e \<le> ns (step_end s e (step params) (length out - 1)) \<and> out \<noteq> [])"
    using GetRangeAllocation_loop [OF assms(2-4), of sw envs] by blast
  have "\<not> IsOpen (window_param params) \<and> \<not> IsNegative (window_param params)"
    using assms(3-5) by (simp add: Window_Model.IsOpen_def IsNegative_def before_def)
  then obtain sets where sets: "r = Inr sets"
    "AggregateRange orders (aggregate params) (idleByNode params) sets = Inr asr"
    using assms(1) r assms(3,4)
    by (cases r; cases "AggregateRange orders (aggregate params) (idleByNode params) (projr r)")
      (auto simp: GetRangeAllocation_def Let_def)
  note o = out [rule_format, OF sets(1)]
  have len: "length sets = length asr" using AggregateRange_length [OF sets(2)] by simp
  have ne: "sets \<noteq> []" using o assms(5) by simp
  then have n: "int (length sets - 1) = int (length sets) - 1" by (cases sets) simp_all
  have "ns (step_start s (step params) (length sets - 1)) < ns e" using o ne by simp
  then have lo: "(int (length sets) - 1) * step params < ns e - ns s" using n by (simp add: step_start_def)
  have "ns e \<le> ns (step_end s e (step params) (length sets - 1))" using o assms(5) by simp
  then have "ns e \<le> ns s + (int (length sets - 1) + 1) * step params"
    by (auto simp: step_end_def split: if_splits)
  then have hi: "ns e - ns s \<le> int (length sets) * step params" using n by simp
  have last: "if step params \<le> ns e - ns s then ns (step_end s e (step params) (length sets - 1)) = ns e
      else length sets = 1 \<and> ns e < ns (step_end s e (step params) 0)"
    using range_last [OF assms(2) lo] hi ne by simp
  show ?thesis using sets(2) len ne o lo hi last by (intro exI [of _ sets]) auto
qed

theorem GetRangeAllocation_tiles_witness:
  "\<exists>asr sets. GetRangeAllocation (\<lambda>_. []) (\<lambda>_. quiet_env) (\<lambda>_. ([], []))
      (basic_params (NewClosedWindow \<lparr>ns = 0, zone = utc\<rparr> \<lparr>ns = 36 * hour, zone = utc\<rparr>) Day) = Some (Inr asr) \<and>
    length sets = 2 \<and> length asr = 2 \<and>
    (\<forall>j < 2. computed (\<lambda>_. quiet_env)
      (basic_params (NewClosedWindow \<lparr>ns = 0, zone = utc\<rparr> \<lparr>ns = 36 * hour, zone = utc\<rparr>) Day)
      \<lparr>ns = 0, zone = utc\<rparr> \<lparr>ns = 36 * hour, zone = utc\<rparr> j (sets ! j))"
proof -
  let ?s = "\<lparr>ns = 0, zone = utc\<rparr>" and ?e = "\<lparr>ns = 36 * hour, zone = utc\<rparr>"
  let ?p = "basic_params (NewClosedWindow ?s ?e) Day"
  have "range_loop (\<lambda>_. []) (\<lambda>_. quiet_env) ?e ?p 0 ?s (time_add ?s Day) [] =
      Some (Inr [Some Map.empty, Some Map.empty])"
    by (rule quiet_range) (simp_all add: Day_def)
  moreover have "AggregateRange (\<lambda>_. ([], [])) ''pod'' (idleByNode ?p) [Some Map.empty, Some Map.empty] =
      Inr [None, None]"
    by (simp add: AggregateRange_def AggregateBy_def IsEmpty_def upt_rec)
  ultimately have run: "GetRangeAllocation (\<lambda>_. []) (\<lambda>_. quiet_env) (\<lambda>_. ([], [])) ?p = Some (Inr [None, None])"
    by (simp add: GetRangeAllocation_def NewAllocationSetRange_def NewClosedWindow_def
        Window_Model.IsOpen_def IsNegative_def before_def)
  obtain sets where "length sets = 2" "\<forall>j < 2. computed (\<lambda>_. quiet_env) ?p ?s ?e j (sets ! j)"
    using GetRangeAllocation_tiles [OF run, of ?s ?e] by (auto simp: NewClosedWindow_def Day_def numeral_2_eq_2)
  with run show ?thesis by (intro exI [of _ "[None, None]"] exI [of _ sets]) (simp add: NewClosedWindow_def)
qed

text \<open>
  With a step that is zero or negative (the cost handler accepts both) a query over a
  non-empty window never returns, provided its computations succeed and leave the filter as it
  is: the loop recomputes forever.
\<close>

theorem GetRangeAllocation_diverges:
  assumes "start (window_param params) = Some s" "end (window_param params) = Some e" "ns s < ns e"
    and "step params \<le> 0" "always_computes envs params"
  shows "GetRangeAllocation sw envs orders params = None"
  using assms by (rule range_never_returns)

theorem GetRangeAllocation_diverges_witness:
  "GetRangeAllocation (\<lambda>_. []) (\<lambda>_. quiet_env) (\<lambda>_. ([], []))
     (basic_params (NewClosedWindow \<lparr>ns = 0, zone = utc\<rparr> \<lparr>ns = Day, zone = utc\<rparr>) 0) = None"
proof (rule GetRangeAllocation_diverges [where s = "\<lparr>ns = 0, zone = utc\<rparr>" and e = "\<lparr>ns = Day, zone = utc\<rparr>"])
  show "always_computes (\<lambda>_. quiet_env)
      (basic_params (NewClosedWindow \<lparr>ns = 0, zone = utc\<rparr> \<lparr>ns = Day, zone = utc\<rparr>) 0)"
    by (simp add: always_computes_def quiet_compute)
qed (simp_all add: NewClosedWindow_def Day_def)

text \<open>
  An open or negative window is refused before the cluster is asked anything, with an error that
  begins with \<open>bad request\<close>, which the handlers turn into status 400.
\<close>

theorem GetRangeAllocation_bad_window:
  assumes "IsOpen (window_param params) \<or> IsNegative (window_param params)"
  shows "GetRangeAllocation sw envs orders params =
    Some (Inl (Err (''bad request - illegal window: '' @ sw (window_param params))))"
  using assms by (simp add: GetRangeAllocation_def Let_def)

theorem GetRangeAllocation_bad_window_witness:
  "GetRangeAllocation (\<lambda>_. ''w'') (\<lambda>_. quiet_env) (\<lambda>_. ([], []))
     (basic_params (NewClosedWindow \<lparr>ns = Day, zone = utc\<rparr> \<lparr>ns = 0, zone = utc\<rparr>) Day) =
   Some (Inl (Err ''bad request - illegal window: w''))"
proof -
  let ?w = "NewClosedWindow \<lparr>ns = Day, zone = utc\<rparr> \<lparr>ns = 0, zone = utc\<rparr>"
  have "IsNegative ?w"
    by (simp add: IsNegative_def Window_Model.IsOpen_def NewClosedWindow_def before_def Day_def)
  then show ?thesis using GetRangeAllocation_bad_window [of "basic_params ?w Day"] by simp
qed

text \<open>
  C11. Cost accounting of \<open>ComputeAllocation\<close> for the cost API with separate idle cost: the costs of
  the returned set, one entry per pod and one for the idle cost, add up to the total node cost
  within the rounding of \<open>n + 1\<close> additions for \<open>n\<close> pods. Every pod of the cluster is in
  the set, whatever order the run visits the pods in, provided namespaces contain no slash.
\<close>

theorem ComputeAllocation_accounts_cost:
  assumes sel: "metric_selector env s e (resolution params) (filter_param params) = Inr (sel, f)"
    and init: "initPodMap env s e sel = Inr pm0"
    and metrics: "each (applyMetricToPodMap env sel) pod_metrics pm0 = Inr pm"
    and nodes: "getExternalMetrics env mCostNode sel = Some nodes"
    and mode: "apiType params = TypeCost" "idle params" "IsEmptyExceptCluster f" "\<not> shareIdle params"
      "aggregate params \<noteq> ''node'' \<or> \<not> idleByNode params"
    and order: "iter_order (pod_order env 1) pm"
    and slash: "\<forall>k \<in> dom pm. CHR ''/'' \<notin> set (mNamespace k)"
  defines "cost \<equiv> \<lambda>k. estimated_cost (getCostWeights env) (the (pm k))"
    and "n \<equiv> length (pod_order env 1)" and "T \<equiv> node_total nodes"
  defines "P \<equiv> (\<Sum>k\<leftarrow>pod_order env 1. \<bar>val (cost k)\<bar>)"
  assumes fin: "is_fin T" "\<forall>k \<in> dom pm. is_fin (cost k)"
    and small: "(1 + eps) ^ (n + 1) * (P + \<bar>val T\<bar>) \<le> pow2 1023"
  shows "\<exists>m. ComputeAllocation env s e params = Inr (m, Some f) \<and>
    dom m = insert IdleSuffix (pod_meta_string ` dom pm) \<and>
    \<bar>(\<Sum>x \<in> dom m. val (Cost (the (m x)))) - val T\<bar> \<le> ((1 + eps) ^ (n + 1) - 1) * (P + \<bar>val T\<bar>)"
proof -
  let ?ks = "pod_order env 1"
  obtain m where m: "ComputeAllocation env s e params = Inr (m, Some f)"
    "dom m = insert IdleSuffix (pod_meta_string ` dom pm)"
    "(\<Sum>x \<in> dom m. val (Cost (the (m x)))) = (\<Sum>k\<leftarrow>?ks. val (cost k)) + val (fsub T (fsum (map cost ?ks) (Fin 0)))"
    using compute_idle_set [OF sel init metrics nodes mode order slash] unfolding cost_def T_def by blast
  have cs: "is_fin x \<and> wf64 x" if "x \<in> set (map cost ?ks)" for x
    using that fin(2) order by (auto simp: cost_def estimated_cost_def Let_def iter_order_def)
  have wT: "wf64 T" unfolding T_def node_total_def by (rule wf64_fsum) (auto simp: value_of_def)
  have eqs: "(\<Sum>x\<leftarrow>map cost ?ks. \<bar>val x\<bar>) = P" "(\<Sum>x\<leftarrow>map cost ?ks. val x) = (\<Sum>k\<leftarrow>?ks. val (cost k))"
    by (simp_all add: P_def comp_def)
  have sm: "(1 + eps) ^ (length (map cost ?ks) + 1) * ((\<Sum>x\<leftarrow>map cost ?ks. \<bar>val x\<bar>) + \<bar>val T\<bar>) \<le> pow2 1023"
    using small unfolding eqs length_map n_def .
  from idle_sum_error [OF cs fin(1) wT sm] show ?thesis
    using m unfolding eqs length_map n_def by auto
qed

text \<open>A cluster with one pod, which requests half of the one node's cost of 5.\<close>

definition demo_item :: "(string \<times> string) list \<Rightarrow> int \<Rightarrow> metric_item" where
  "demo_item ls v = \<lparr>itemLabels = ls, itemMilli = v\<rparr>"

definition demo_env :: cost_env where
  "demo_env = quiet_env\<lparr>
     ext_list := (\<lambda>n _. Inr
       (if n = mKubePodInfo then [demo_item [(''namespace'', ''ns''), (''pod'', ''p''), (''node'', ''x'')] 1000]
        else if n = mCostPodCPURequest then [demo_item [(''namespace'', ''ns''), (''pod'', ''p'')] 2500]
        else if n = mCostNode then [demo_item [(''node'', ''x'')] 5000]
        else [])),
     pod_order := (\<lambda>_. [\<lparr>mNamespace = ''ns'', mPod = ''p''\<rparr>])\<rparr>"

definition demo_time :: gotime where
  "demo_time = \<lparr>ns = 0, zone = utc\<rparr>"

definition demo_pods :: "string \<Rightarrow> pod_map" where
  "demo_pods sel = projr (each (applyMetricToPodMap demo_env sel) pod_metrics
     (projr (initPodMap demo_env demo_time demo_time sel)))"

lemma not_isl: "isl x = False \<Longrightarrow> x = Inr (projr x)"
  by (cases x) simp_all

lemma demo_init: "initPodMap demo_env demo_time demo_time sel = Inr (projr (initPodMap demo_env demo_time demo_time sel))"
  by (rule not_isl) code_simp

lemma demo_metrics:
  "each (applyMetricToPodMap demo_env sel) pod_metrics (projr (initPodMap demo_env demo_time demo_time sel)) =
   Inr (demo_pods sel)"
  unfolding demo_pods_def by (rule not_isl) code_simp

lemma demo_nodes: "getExternalMetrics demo_env mCostNode sel = Some [demo_item [(''node'', ''x'')] 5000]"
  by (simp add: getExternalMetrics_def demo_env_def metric_names)

lemma demo_dom: "dom (demo_pods sel) = {\<lparr>mNamespace = ''ns'', mPod = ''p''\<rparr>}"
proof -
  have "dom (demo_pods sel) = dom (projr (initPodMap demo_env demo_time demo_time sel))"
    by (rule metrics_wf(2) [OF demo_metrics initPodMap_wf(1) [OF demo_init]])
  moreover obtain infos where "getExternalMetrics demo_env mKubePodInfo sel = Some infos"
    "dom (projr (initPodMap demo_env demo_time demo_time sel)) = info_keys infos"
    using initPodMap_wf(2) [OF demo_init] by blast
  moreover have "getExternalMetrics demo_env mKubePodInfo sel =
      Some [demo_item [(''namespace'', ''ns''), (''pod'', ''p''), (''node'', ''x'')] 1000]"
    by (simp add: getExternalMetrics_def demo_env_def metric_names)
  ultimately show ?thesis by (auto simp: info_keys_def item_key_def label_def demo_item_def)
qed

lemma demo_cost:
  "estimated_cost (getCostWeights demo_env) (the (demo_pods sel \<lparr>mNamespace = ''ns'', mPod = ''p''\<rparr>)) = Fin (5 / 2)"
  unfolding demo_pods_def by code_simp

lemma demo_selector:
  obtains sel where "metric_selector demo_env demo_time demo_time [] (Some empty_filter) = Inr (sel, empty_filter)"
  by (auto simp: metric_selector_def GetLabelSelectorStr_def NewClosedWindow_def preprocessFilter_def
      quiet_env_def demo_env_def empty_filter_def Let_def)

lemma small_growth: "n \<le> 3 \<Longrightarrow> 0 \<le> x \<Longrightarrow> x \<le> 8 \<Longrightarrow> (1 + eps) ^ n * x \<le> pow2 1023"
proof -
  assume n: "n \<le> 3" and x: "0 \<le> x" "x \<le> 8"
  have "eps \<le> pow2 0" unfolding pow2_le_iff by simp
  then have "(1 + eps) ^ n \<le> 2 ^ n" by (intro power_mono) (simp_all add: pow2_def)
  also have "(2 :: rat) ^ n \<le> 2 ^ 3" using n by (intro power_increasing) simp_all
  finally have "(1 + eps) ^ n * x \<le> 2 ^ 3 * 8" using x by (intro mult_mono) simp_all
  also have "(2 ^ 3 * 8 :: rat) = pow2 6" by (simp add: pow2_def)
  also have "pow2 6 \<le> pow2 1023" unfolding pow2_le_iff by simp
  finally show ?thesis .
qed

theorem ComputeAllocation_accounts_cost_witness:
  "\<exists>m. ComputeAllocation demo_env demo_time demo_time
      ((basic_params (NewClosedWindow demo_time demo_time) Day)\<lparr>idle := True\<rparr>) = Inr (m, Some empty_filter) \<and>
    dom m = {''__idle__'', ''ns/p''} \<and>
    \<bar>(\<Sum>x \<in> dom m. val (Cost (the (m x)))) - 5\<bar> \<le> ((1 + eps) ^ 2 - 1) * (15 / 2)"
proof -
  let ?p = "(basic_params (NewClosedWindow demo_time demo_time) Day)\<lparr>idle := True\<rparr>"
  let ?k = "\<lparr>mNamespace = ''ns'', mPod = ''p''\<rparr>"
  obtain sel where "metric_selector demo_env demo_time demo_time (resolution ?p) (filter_param ?p) = Inr (sel, empty_filter)"
    using demo_selector by (auto simp: basic_params_def)
  note sel = this
  have T: "node_total [demo_item [(''node'', ''x'')] 5000] = Fin 5" by code_simp
  have o: "pod_order demo_env i = [?k]" for i by (simp add: demo_env_def)
  have small: "(1 + eps)\<^sup>2 * 15 \<le> pow2 1023 * 2" using small_growth [of 2 "15 / 2"] by simp
  have io: "iter_order (pod_order demo_env 1) (demo_pods sel)" unfolding o iter_order_def demo_dom by simp
  have mode: "apiType ?p = TypeCost" "idle ?p" "IsEmptyExceptCluster empty_filter" "\<not> shareIdle ?p"
    "aggregate ?p \<noteq> ''node'' \<or> \<not> idleByNode ?p"
    by (simp_all add: basic_params_def IsEmptyExceptCluster_def empty_filter_def label_map_def)
  have "\<exists>m. ComputeAllocation demo_env demo_time demo_time ?p = Inr (m, Some empty_filter) \<and>
    dom m = insert IdleSuffix (pod_meta_string ` dom (demo_pods sel)) \<and>
    \<bar>(\<Sum>x \<in> dom m. val (Cost (the (m x)))) - val (node_total [demo_item [(''node'', ''x'')] 5000])\<bar>
      \<le> ((1 + eps) ^ (length (pod_order demo_env 1) + 1) - 1) *
        ((\<Sum>k\<leftarrow>pod_order demo_env 1. \<bar>val (estimated_cost (getCostWeights demo_env) (the (demo_pods sel k)))\<bar>)
          + \<bar>val (node_total [demo_item [(''node'', ''x'')] 5000])\<bar>)"
    by (rule ComputeAllocation_accounts_cost [OF sel demo_init demo_metrics demo_nodes mode io])
      (simp_all add: demo_dom demo_cost T o small del: power_Suc One_nat_def)
  then show ?thesis by (simp add: demo_dom demo_cost T o pod_meta_string_def IdleSuffix_def numeral_2_eq_2)
qed

end
