(* ===== verification/Pod_Properties.thy ===== *)
theory Pod_Properties
  imports Cost_Manager
begin

text \<open>
  What the pod map of a computation holds: \<open>initPodMap\<close> against a reference definition pod
  by pod, the independence of its map loop from the iteration order, the metrics
  written into the map, and the replica sets a deployment filter is replaced by.
\<close>

section \<open>First and last items of a pod\<close>

definition item_of :: "pod_meta \<Rightarrow> metric_item list \<Rightarrow> metric_item option" where
  "item_of k items = find (\<lambda>i. item_key i = Some k) items"

definition node_item :: "string \<Rightarrow> metric_item list \<Rightarrow> metric_item option" where
  "node_item n nodes = find (\<lambda>i. label i ''node'' = Some n \<and> label i ''provider_id'' \<noteq> None) nodes"

lemma find_append: "find P (xs @ ys) = (case find P xs of None \<Rightarrow> find P ys | Some x \<Rightarrow> Some x)"
  by (induction xs) auto

lemma item_of_Nil [simp]: "item_of k [] = None"
  by (simp add: item_of_def)

lemma item_of_Cons [simp]: "item_of k (i # is) = (if item_key i = Some k then Some i else item_of k is)"
  by (simp add: item_of_def)

lemma item_of_snoc [simp]:
  "item_of k (is @ [i]) = (case item_of k is of None \<Rightarrow> if item_key i = Some k then Some i else None | Some j \<Rightarrow> Some j)"
  by (cases "item_of k is") (auto simp: item_of_def find_append)

lemma item_of_None_iff: "item_of k is = None \<longleftrightarrow> k \<notin> info_keys is"
  by (auto simp: item_of_def info_keys_def find_None_iff)

lemma add_pods_at:
  "fold (add_pod env s e) infos pm k =
     (case pm k of Some p \<Rightarrow> Some p | None \<Rightarrow> map_option (new_pod env s e k) (item_of k infos))"
  by (induction infos arbitrary: pm)
    (auto simp: add_pod_def split: option.splits)

text \<open>The labels written by the last item of a pod remain.\<close>

definition with_labels :: "metric_item option \<Rightarrow> pod \<Rightarrow> pod" where
  "with_labels l p =
     (case l of None \<Rightarrow> p
      | Some i \<Rightarrow> set_props (pLabels_update (\<lambda>_. Some (getLabelsFromMetricLabels (itemLabels i)))) p)"

definition with_provider :: "string option \<Rightarrow> pod \<Rightarrow> pod" where
  "with_provider pid p = (case pid of None \<Rightarrow> p | Some v \<Rightarrow> set_props (pProviderID_update (\<lambda>_. v)) p)"

lemma set_props_twice: "set_props f (set_props g p) = set_props (\<lambda>q. f (g q)) p"
  by (simp add: set_props_def option.map_comp comp_def)

lemma with_labels_twice [simp]: "with_labels (Some i) (with_labels l p) = with_labels (Some i) p"
  by (cases l) (simp_all add: with_labels_def set_props_twice)

lemma with_labels_None [simp]: "with_labels None p = p" and with_provider_None [simp]: "with_provider None p = p"
  by (simp_all add: with_labels_def with_provider_def)

lemma add_labels_at:
  "fold add_labels items pm k = map_option (with_labels (item_of k (rev items))) (pm k)"
proof (induction items arbitrary: pm)
  case Nil
  show ?case by (cases "pm k") simp_all
next
  case (Cons i items)
  have "add_labels i pm k = map_option (with_labels (if item_key i = Some k then Some i else None)) (pm k)"
    by (auto simp: add_labels_def with_labels_def split: option.split)
  then show ?case
    by (cases "pm k"; cases "item_of k (rev items)") (simp_all add: Cons.IH)
qed

lemma add_nodes_at:
  "fold add_node nodes m n =
     (case node_item n (rev nodes) of Some i \<Rightarrow> label i ''provider_id'' | None \<Rightarrow> m n)"
proof (induction nodes arbitrary: m)
  case (Cons i nodes)
  have "add_node i m n = (if label i ''node'' = Some n \<and> label i ''provider_id'' \<noteq> None then label i ''provider_id'' else m n)"
    by (auto simp: add_node_def split: option.split)
  then show ?case
    by (cases "node_item n (rev nodes)") (auto simp: Cons.IH node_item_def find_append)
qed (simp add: node_item_def)

section \<open>The loop over the pods does not depend on its order\<close>

lemma set_provider_at:
  "set_provider ps k pm = pm(k := map_option (\<lambda>p. with_provider (ps (pod_node p)) p) (pm k))"
  by (auto simp: set_provider_def with_provider_def fun_eq_iff split: option.split)

interpretation provider_loop: commuting_body "set_provider ps" for ps
  by unfold_locales (simp add: set_provider_at fun_upd_twist)

lemma pod_node_provider [simp]: "pod_node (with_provider v p) = pod_node p"
  by (cases v; cases "Properties (Allocations p)") (simp_all add: with_provider_def pod_node_def set_props_def)

lemma pod_node_labels [simp]: "pod_node (with_labels l p) = pod_node p"
  by (cases l; cases "Properties (Allocations p)") (simp_all add: with_labels_def pod_node_def set_props_def)

lemma pod_node_new [simp]: "pod_node (new_pod env s e k item) = label_or_empty item ''node''"
  by (simp add: pod_node_def new_pod_def split: prod.split)

lemma with_provider_idem [simp]: "with_provider v (with_provider v p) = with_provider v p"
  by (cases v) (simp_all add: with_provider_def set_props_twice)

lemma set_providers_at:
  "fold (set_provider ps) ks pm k =
     (if k \<in> set ks then map_option (\<lambda>p. with_provider (ps (pod_node p)) p) (pm k) else pm k)"
  by (induction ks arbitrary: pm) (auto simp: set_provider_at option.map_comp comp_def)

section \<open>The pod map of a window\<close>

text \<open>
  The reference: a pod takes its first pod-info item, the labels of its last label item and the
  provider id of the last item of its node.
\<close>

definition expected_pod ::
  "cost_env \<Rightarrow> gotime \<Rightarrow> gotime \<Rightarrow> metric_item list \<Rightarrow> metric_item list \<Rightarrow> metric_item list \<Rightarrow> pod_map" where
  "expected_pod env s e infos labels nodes k =
     map_option (\<lambda>item.
       with_provider
         (case node_item (label_or_empty item ''node'') (rev nodes) of
            Some n \<Rightarrow> label n ''provider_id'' | None \<Rightarrow> None)
         (with_labels (item_of k (rev labels)) (new_pod env s e k item)))
       (item_of k infos)"

lemma initPodMap_eq:
  assumes "getExternalMetrics env mKubePodInfo sel = Some infos"
    and "getExternalMetrics env mKubePodLabels sel = Some labels"
    and "getExternalMetrics env mKubeNodeInfo sel = Some nodes"
  shows "initPodMap env s e sel = Inr (fold (set_provider (fold add_node nodes Map.empty)) (pod_order env 0)
    (fold add_labels labels (fold (add_pod env s e) infos Map.empty)))"
  using assms by (simp add: initPodMap_def)

text \<open>
  C13. The pod map built for a window: whatever order the map loop takes, a pod is present exactly
  when a pod-info item names it; it has the properties of its first pod-info item (a replica set replaced by
  its owner), the labels of its last label item and the provider id last reported for its node.
\<close>

theorem initPodMap_pods:
  assumes "getExternalMetrics env mKubePodInfo sel = Some infos"
    and "getExternalMetrics env mKubePodLabels sel = Some labels"
    and "getExternalMetrics env mKubeNodeInfo sel = Some nodes"
    and "set (pod_order env 0) = info_keys infos"
  shows "initPodMap env s e sel = Inr (expected_pod env s e infos labels nodes)"
proof -
  have "fold (set_provider (fold add_node nodes Map.empty)) (pod_order env 0)
      (fold add_labels labels (fold (add_pod env s e) infos Map.empty)) k =
    expected_pod env s e infos labels nodes k" for k
    using assms(4) item_of_None_iff [of k infos]
    by (cases "item_of k infos")
      (auto simp: set_providers_at add_labels_at add_pods_at add_nodes_at expected_pod_def split: option.split)
  then show ?thesis using initPodMap_eq [OF assms(1-3)] by (simp add: fun_eq_iff)
qed

theorem initPodMap_pods_witness:
  "\<exists>pm. initPodMap demo_env demo_time demo_time '''' = Inr pm \<and> dom pm = {\<lparr>mNamespace = ''ns'', mPod = ''p''\<rparr>}"
proof -
  let ?k = "\<lparr>mNamespace = ''ns'', mPod = ''p''\<rparr>"
  obtain infos labels nodes where m:
    "getExternalMetrics demo_env mKubePodInfo '''' = Some infos"
    "getExternalMetrics demo_env mKubePodLabels '''' = Some labels"
    "getExternalMetrics demo_env mKubeNodeInfo '''' = Some nodes"
    and k: "info_keys infos = {?k}"
    by (auto simp: getExternalMetrics_def demo_env_def metric_names info_keys_def item_key_def label_def demo_item_def)
  have o: "set (pod_order demo_env 0) = info_keys infos" unfolding k by (simp add: demo_env_def)
  have "dom (expected_pod demo_env demo_time demo_time infos labels nodes) = info_keys infos"
    using item_of_None_iff by (auto simp: expected_pod_def dom_def)
  then show ?thesis using initPodMap_pods [OF m o, of demo_time demo_time] k by simp
qed

text \<open>
  The map loop of \<open>initPodMap\<close> is deterministic: two runs that differ only in the order in which
  Go visits the pod map build the same map.
\<close>

theorem initPodMap_deterministic:
  assumes "mset (pod_order env 0) = mset ks"
  shows "initPodMap (env\<lparr>pod_order := (pod_order env)(0 := ks)\<rparr>) s e sel = initPodMap env s e sel"
proof -
  have "fold (set_provider ps) ks pm = fold (set_provider ps) (pod_order env 0) pm" for ps pm
    using assms by (intro provider_loop.order_irrelevant) simp
  moreover have "controller_of (env\<lparr>pod_order := f\<rparr>) n i = controller_of env n i" for f n i
    by (simp add: controller_of_def Let_def)
  then have "new_pod (env\<lparr>pod_order := f\<rparr>) s e k i = new_pod env s e k i" for f k i
    by (simp add: new_pod_def)
  then have "add_pod (env\<lparr>pod_order := f\<rparr>) s e = add_pod env s e" for f
    by (intro ext) (simp add: add_pod_def split: option.split)
  moreover have "getExternalMetrics (env\<lparr>pod_order := f\<rparr>) = getExternalMetrics env" for f
    by (simp add: getExternalMetrics_def fun_eq_iff)
  ultimately show ?thesis by (simp add: initPodMap_def)
qed

theorem initPodMap_deterministic_witness:
  "initPodMap (quiet_env\<lparr>pod_order := (pod_order quiet_env)(0 := [])\<rparr>) demo_time demo_time '''' =
     initPodMap quiet_env demo_time demo_time ''''"
  by (rule initPodMap_deterministic) (simp add: quiet_env_def)

section \<open>Metrics written into the pod map\<close>

lemma set_metric_twice: "set_metric m v (set_metric m w p) = set_metric m v p"
  by (simp add: set_metric_def Let_def)

definition with_metric :: "string \<Rightarrow> metric_item option \<Rightarrow> pod \<Rightarrow> pod" where
  "with_metric m i p = (case i of None \<Rightarrow> p | Some j \<Rightarrow> set_metric m (value_of j) p)"

lemma info_keys_Cons: "info_keys (i # is) = (case item_key i of None \<Rightarrow> {} | Some k \<Rightarrow> {k}) \<union> info_keys is"
  by (auto simp: info_keys_def split: option.split)

lemma apply_items_eq:
  "m \<in> set pod_metrics \<Longrightarrow> each (apply_item m) items pm =
     (if info_keys items \<subseteq> dom pm
      then Inr (\<lambda>k. map_option (with_metric m (item_of k (rev items))) (pm k))
      else Inl (Panic ''nil pointer dereference''))"
proof (induction items arbitrary: pm)
  case Nil
  have "(\<lambda>k. map_option (with_metric m None) (pm k)) = pm"
  proof
    show "map_option (with_metric m None) (pm k) = pm k" for k by (cases "pm k") (simp_all add: with_metric_def)
  qed
  then show ?case by (simp add: info_keys_def)
next
  case (Cons i items)
  show ?case
  proof (cases "item_key i")
    case None
    then have "item_of k (rev items @ [i]) = item_of k (rev items)" for k by (simp split: option.split)
    moreover have "apply_item m i pm = Inr pm" using None by (simp add: apply_item_def)
    ultimately show ?thesis using None Cons.prems by (simp add: Cons.IH info_keys_Cons del: item_of_snoc)
  next
    case (Some key)
    show ?thesis
    proof (cases "pm key")
      case None
      with Some Cons.prems show ?thesis by (auto simp: apply_item_def info_keys_Cons)
    next
      case (Some p)
      let ?pm = "pm(key \<mapsto> set_metric m (value_of i) p)"
      have d: "dom ?pm = dom pm" "insert key (dom pm) = dom pm" using Some by auto
      have "map_option (with_metric m (item_of k (rev items))) (?pm k) =
          map_option (with_metric m (item_of k (rev items @ [i]))) (pm k)" for k
        using Some \<open>item_key i = Some key\<close>
        by (cases "item_of k (rev items)") (auto simp: with_metric_def set_metric_twice)
      moreover have "apply_item m i pm = Inr ?pm" using Some \<open>item_key i = Some key\<close> Cons.prems by (simp add: apply_item_def)
      ultimately show ?thesis
        using Some \<open>item_key i = Some key\<close> Cons.prems
        by (simp add: Cons.IH d info_keys_Cons domIff del: item_of_snoc fun_upd_apply)
    qed
  qed
qed

lemma apply_items_other: "m \<notin> set pod_metrics \<Longrightarrow> each (apply_item m) items pm = Inr pm"
  by (induction items) (simp_all add: apply_item_def split: option.split)



section \<open>Deployments of a filter\<close>

definition owned_names :: "cost_env \<Rightarrow> deployment \<Rightarrow> string list" where
  "owned_names env dep =
     [rsName rs. rs \<leftarrow> replica_sets env (depNamespace dep) (depSelector dep), ref \<leftarrow> rsOwners rs,
        refController ref = Some True \<and> refUID ref = depUID dep]"

definition controllers_known :: "cost_env \<Rightarrow> string \<Rightarrow> bool" where
  "controllers_known env c \<longleftrightarrow>
     (\<forall>dep \<in> set (deployments env c). \<forall>rs \<in> set (replica_sets env (depNamespace dep) (depSelector dep)).
        \<forall>ref \<in> set (rsOwners rs). refController ref \<noteq> None)"

lemma each_collect: "(\<And>x s. x \<in> set xs \<Longrightarrow> f x s = Inr (s @ g x)) \<Longrightarrow> each f xs s = Inr (s @ concat (map g xs))"
  by (induction xs arbitrary: s) auto

lemma owned_sets_eq:
  assumes "\<forall>rs \<in> set (replica_sets env (depNamespace dep) (depSelector dep)). \<forall>ref \<in> set (rsOwners rs). refController ref \<noteq> None"
  shows "owned_sets env dep names = Inr (names @ owned_names env dep)"
  unfolding owned_sets_def owned_names_def
proof (rule each_collect)
  fix rs names assume "rs \<in> set (replica_sets env (depNamespace dep) (depSelector dep))"
  with assms have refs: "\<And>ref. ref \<in> set (rsOwners rs) \<Longrightarrow> refController ref \<noteq> None" by blast
  show "each (owned_by dep (rsName rs)) (rsOwners rs) names =
    Inr (names @ concat (map (\<lambda>ref. if refController ref = Some True \<and> refUID ref = depUID dep then [rsName rs] else []) (rsOwners rs)))"
    by (rule each_collect) (auto simp: owned_by_def dest!: refs)
qed

text \<open>
  C38. A deployment filter: every name that is a deployment is replaced by the names of the replica sets its
  selector matches and whose controlling owner it is, in order; other names are kept, and the rest of the filter is
  untouched.
\<close>

theorem preprocessFilter_replaces:
  assumes "\<forall>c \<in> set cs. controllers_known env c" "fControllerName f = Some cs"
  shows "preprocessFilter env (Some f) =
    Inr (Some (f\<lparr>fControllerName := Some (concat (map (\<lambda>c.
      if deployments env c = [] then [c] else concat (map (owned_names env) (deployments env c))) cs))\<rparr>))"
proof -
  have "each (controller_names env) cs [] = Inr ([] @ concat (map (\<lambda>c.
      if deployments env c = [] then [c] else concat (map (owned_names env) (deployments env c))) cs))"
  proof (rule each_collect)
    fix c names assume "c \<in> set cs"
    with assms(1) have "controllers_known env c" by blast
    then have "each (owned_sets env) (deployments env c) names =
        Inr (names @ concat (map (owned_names env) (deployments env c)))"
      by (intro each_collect owned_sets_eq) (simp add: controllers_known_def)
    then show "controller_names env c names = Inr (names @
        (if deployments env c = [] then [c] else concat (map (owned_names env) (deployments env c))))"
      by (simp add: controller_names_def)
  qed
  then show ?thesis using assms(2) by (simp add: preprocessFilter_def)
qed

definition deploy_env :: cost_env where
  "deploy_env = quiet_env\<lparr>
     deployments := (\<lambda>c. if c = ''web'' then [\<lparr>depNamespace = ''ns'', depUID = ''u'', depSelector = ''app=web''\<rparr>] else []),
     replica_sets := (\<lambda>n s. [\<lparr>rsName = ''web-1'', rsOwners = [\<lparr>refController = Some True, refUID = ''u''\<rparr>]\<rparr>,
        \<lparr>rsName = ''web-2'', rsOwners = [\<lparr>refController = Some True, refUID = ''v''\<rparr>]\<rparr>])\<rparr>"

theorem preprocessFilter_replaces_witness:
  "preprocessFilter deploy_env (Some (empty_filter\<lparr>fControllerName := Some [''db'', ''web'']\<rparr>)) =
     Inr (Some (empty_filter\<lparr>fControllerName := Some [''db'', ''web-1'']\<rparr>))"
proof -
  have "\<forall>c \<in> set [''db'', ''web'']. controllers_known deploy_env c"
    by (auto simp: controllers_known_def deploy_env_def)
  from preprocessFilter_replaces [OF this, of "empty_filter\<lparr>fControllerName := Some [''db'', ''web'']\<rparr>"]
  show ?thesis by (simp add: deploy_env_def owned_names_def)
qed

section \<open>Sharing the idle cost\<close>

text \<open>
  Sharing by weight divides by the total cost of the pods: when that is zero every pod's cost and
  ratio become NaN, which \<open>encoding/json\<close> refuses, so the handler's JSON answer is empty.
\<close>

theorem weighted_share_of_nothing:
  assumes "pm key = Some p" "is_zero (pod_cost p)" "is_zero podTotal" "is_fin idleCost"
  shows "\<exists>p'. share_step ShareSplitWeighted n idleCost podTotal totalCost key pm = Inr (pm(key \<mapsto> p')) \<and>
    pod_cost p' = NaN \<and> pod_ratio p' = NaN"
proof -
  have mul: "is_zero (fmul idleCost (pod_cost p))"
    using assms(2,4) by (cases idleCost; cases "pod_cost p") (auto simp: fmul_def is_zero_def round64_def zero64_def Let_def)
  have "is_zero x \<Longrightarrow> x \<noteq> NaN \<and> \<not> is_inf x" for x by (cases x) (auto simp: is_zero_def)
  with mul assms(3) have "fdiv (fmul idleCost (pod_cost p)) podTotal = NaN" by (auto simp: fdiv_def Let_def)
  then have "fadd (pod_cost p) (fdiv (fmul idleCost (pod_cost p)) podTotal) = NaN" by (simp add: fadd_def)
  moreover have "fdiv NaN totalCost = NaN" by (simp add: fdiv_def)
  moreover have "pod_cost (set_cost c q) = c" "pod_cost (set_ratio r q) = pod_cost q" "pod_ratio (set_ratio r q) = r" for c r q
    by (simp_all add: pod_cost_def pod_ratio_def set_cost_def set_ratio_def)
  ultimately show ?thesis
    using assms(1) by (intro exI [of _ "set_ratio NaN (set_cost NaN p)"]) (simp add: share_step_def)
qed

theorem weighted_share_of_nothing_witness:
  "\<exists>p'. share_step ShareSplitWeighted 1 (Fin 5) (Fin 0) (Fin 5) \<lparr>mNamespace = ''n'', mPod = ''p''\<rparr>
      [\<lparr>mNamespace = ''n'', mPod = ''p''\<rparr> \<mapsto> new_pod quiet_env demo_time demo_time \<lparr>mNamespace = ''n'', mPod = ''p''\<rparr> (demo_item [] 0)] =
        Inr [\<lparr>mNamespace = ''n'', mPod = ''p''\<rparr> \<mapsto> p'] \<and> pod_cost p' = NaN \<and> pod_ratio p' = NaN"
proof -
  let ?k = "\<lparr>mNamespace = ''n'', mPod = ''p''\<rparr>"
  let ?p = "new_pod quiet_env demo_time demo_time ?k (demo_item [] 0)"
  have "pod_cost ?p = Fin 0" by (simp add: pod_cost_def new_pod_def split: prod.split)
  then have z: "is_zero (pod_cost ?p)" "is_zero (Fin 0)" "is_fin (Fin 5)" by (simp_all add: is_zero_def)
  have "[?k \<mapsto> ?p] ?k = Some ?p" by simp
  from weighted_share_of_nothing [where pm = "[?k \<mapsto> ?p]" and key = ?k and n = 1 and totalCost = "Fin 5", OF this z] show ?thesis by (simp only: fun_upd_upd)
qed

end
