(* ===== verification/Cost_Handlers.thy ===== *)
theory Cost_Handlers
  imports Pod_Properties Go_JSON "HOL-Library.Char_ord" "HOL-Library.List_Lexorder"
begin

text \<open>
  The two HTTP handlers of \<open>cost_manager.go\<close>: reading the query parameters, the errors they answer
  with, the range computation and the JSON or CSV answer. The text of the JSON answer is
  the set range itself (\<open>encoding/json\<close> writes it unless a number is not finite); error bodies and CSV
  records are written out.
\<close>

section \<open>Answers\<close>

record http_error =
  StatusCode :: int
  Body :: string

record json_response =
  Code :: int
  StatusText :: string
  Message :: string

datatype response =
    PlainError int string \<comment> \<open>\<open>http.Error\<close>\<close>
  | JsonError int string \<comment> \<open>\<open>WriteError\<close>: status and body\<close>
  | JsonBody "allocation_set_range option" \<comment> \<open>nothing when marshalling failed\<close>
  | CsvBody string "string list list" \<comment> \<open>file name and records\<close>
  | NoBody

definition BadRequest :: "string \<Rightarrow> http_error" where
  "BadRequest message = \<lparr>StatusCode = 400, Body = message\<rparr>"

definition InternalServerError :: "string \<Rightarrow> http_error" where
  "InternalServerError message =
     \<lparr>StatusCode = 500, Body = (if message = [] then ''Internal Server Error'' else message)\<rparr>"

text \<open>\<open>Response\<close> as JSON: a nil \<open>Data\<close> is \<open>null\<close>, and an empty \<open>Warning\<close> is omitted.\<close>

definition marshal_response :: "json_response \<Rightarrow> string" where
  "marshal_response r =
     ''{'' @ join '','' ([json_field ''code'' (itoa (Code r)), json_field ''status'' (json_string (StatusText r)),
       json_field ''data'' ''null''] @
       (if Message r = [] then [] else [json_field ''message'' (json_string (Message r))])) @ ''}''"

definition WriteError :: "http_error \<Rightarrow> response" where
  "WriteError err =
     (let status = (if StatusCode err = 0 then 500 else StatusCode err)
      in JsonError status (marshal_response
           \<lparr>Code = status, StatusText = [], Message = ''Error: '' @ Body err\<rparr>))"

section \<open>The CSV answer\<close>

text \<open>\<open>%f\<close>: six decimals of the exact value, ties to even.\<close>

definition format_f :: "f64 \<Rightarrow> string" where
  "format_f x =
     (if x = NaN then ''NaN'' else if x = PosInf then ''+Inf'' else if x = NegInf then ''-Inf''
      else (if neg x then ''-'' else []) @ decimals 6 (nat (rne (\<bar>val x\<bar> * 10 ^ 6))))"

text \<open>A map of labels as JSON: sorted keys, \<open>null\<close> for a nil map.\<close>

definition marshal_labels :: "(string, string) gomap option \<Rightarrow> string" where
  "marshal_labels m =
     (case m of
        None \<Rightarrow> ''null''
      | Some m \<Rightarrow> ''{'' @ join '','' (map (\<lambda>k. json_field k (json_string (the (m k)))) (sorted_list_of_set (dom m))) @ ''}'')"

definition csv_format :: "(string \<Rightarrow> string) \<Rightarrow> string \<Rightarrow> string list" where
  "csv_format title agg =
     (if agg = ''pod'' then
        [''Pod'', ''Start'', ''End'', ''Cost'', ''CostRatio'', ''Controller'', ''ControllerKind'', ''Node'',
         ''ProviderId'', ''Labels'', ''CpuCoreUsageAverage'', ''RamByteUsageAverage'', ''Cluster'']
      else [title agg, ''Start'', ''End'', ''Cost'', ''CostRatio''])"

definition csv_record :: "string \<Rightarrow> allocation \<Rightarrow> string list" where
  "csv_record agg a =
     [Name a, format_rfc3339 (Start a), format_rfc3339 (End a), format_f (Cost a), format_f (CostRatio a)] @
     (if agg = ''pod'' then
        (case Properties a of
           Some p \<Rightarrow> [pController p, pControllerKind p, pNode p, pProviderID p, marshal_labels (pLabels p)]
         | None \<Rightarrow> [[], [], [], [], []]) @
        [format_f (CPUCoreUsageAverage a), format_f (RAMBytesUsageAverage a),
         (case Properties a of Some p \<Rightarrow> pCluster p | None \<Rightarrow> [])]
      else [])"

text \<open>\<open>order i\<close> is the order in which the run visits set number \<open>i\<close>. A nil set is dereferenced.\<close>

fun csv_records :: "(nat \<Rightarrow> string list) \<Rightarrow> string \<Rightarrow> nat \<Rightarrow> allocation_set_range \<Rightarrow> string list list res" where
  "csv_records order agg i [] = Inr []"
| "csv_records order agg i (as # asr) =
     and_then (deref as) (\<lambda>m.
     and_then (csv_records order agg (Suc i) asr) (\<lambda>rows.
       Inr (map (\<lambda>k. csv_record agg (the (m k))) (order i) @ rows)))"

definition writeCSVAllocationResponse ::
  "(string \<Rightarrow> string) \<Rightarrow> (nat \<Rightarrow> string list) \<Rightarrow> string \<Rightarrow> allocation_set_range \<Rightarrow> string \<Rightarrow> response res" where
  "writeCSVAllocationResponse title order filename asr agg =
     and_then (csv_records order agg 0 asr) (\<lambda>rows. Inr (CsvBody filename (csv_format title agg # rows)))"

section \<open>Query parameters\<close>

text \<open>
  \<open>v[0]\<close> of every parameter. A handler that answers early stops with the answer; a parameter whose
  parser panics stops with the panic.
\<close>

definition params_map :: "(string, string list) gomap \<Rightarrow> (string, string) gomap" where
  "params_map q k = (case q k of Some (v # _) \<Rightarrow> Some v | _ \<Rightarrow> None)"

type_synonym 'a stage = "response res + 'a"

definition proceed :: "'a stage \<Rightarrow> ('a \<Rightarrow> 'b stage) \<Rightarrow> 'b stage" where
  "proceed m k = (case m of Inl r \<Rightarrow> Inl r | Inr v \<Rightarrow> k v)"

lemma proceed_simps [simp, res_simps]: "proceed (Inl r) k = Inl r" "proceed (Inr v) k = k v"
  by (simp_all add: proceed_def)

lemma proceed_eq_Inr [res_simps]: "proceed m k = Inr w \<longleftrightarrow> (\<exists>v. m = Inr v \<and> k v = Inr w)"
  by (cases m) auto

lemma proceed_eq_Inl [res_simps]: "proceed m k = Inl r \<longleftrightarrow> m = Inl r \<or> (\<exists>v. m = Inr v \<and> k v = Inl r)"
  by (cases m) auto

definition reject :: "string \<Rightarrow> 'a stage" where
  "reject msg = Inl (Inr (PlainError 400 (msg @ [CHR 0x0A])))"

definition or_reject :: "string \<Rightarrow> 'a res \<Rightarrow> 'a stage" where
  "or_reject prefix r =
     (case r of Inr v \<Rightarrow> Inr v | Inl (Err m) \<Rightarrow> reject (prefix @ m) | Inl (Panic p) \<Rightarrow> Inl (Inl (Panic p)))"

text \<open>\<open>strconv.Quote\<close> in a parse error, for ASCII parameters.\<close>

definition go_quote_char :: "char \<Rightarrow> string" where
  "go_quote_char c =
     (let b = of_char c :: nat in
      if c = quote_char \<or> c = CHR 0x5C then [CHR 0x5C, c]
      else if 7 \<le> b \<and> b \<le> 13 then [CHR 0x5C, ''abtnvfr'' ! (b - 7)]
      else if b < 32 \<or> b = 127 then [CHR 0x5C, CHR ''x'', hex_digit (b div 16), hex_digit (b mod 16)]
      else [c])"

definition ParseBool :: "string \<Rightarrow> bool res" where
  "ParseBool s =
     (case parse_bool s of
        Some b \<Rightarrow> Inr b
      | None \<Rightarrow> Inl (Err (''strconv.ParseBool: parsing '' @ quote_char # concat (map go_quote_char s) @ quote_char #
          '': invalid syntax'')))"

text \<open>\<open>Invalid 'key' parameter\<close>, with or without the value of the parameter.\<close>

definition invalid :: "string \<Rightarrow> string" where
  "invalid key = ''Invalid '' @ CHR 0x27 # key @ CHR 0x27 # '' parameter: ''"

definition invalid_value :: "string \<Rightarrow> string \<Rightarrow> string" where
  "invalid_value key v = ''Invalid '' @ CHR 0x27 # key @ CHR 0x27 # '' parameter '' @ v @ '': ''"

definition text_param :: "(string, string) gomap \<Rightarrow> string \<Rightarrow> string \<Rightarrow> string" where
  "text_param pm key d = (case pm key of Some v \<Rightarrow> v | None \<Rightarrow> d)"

definition bool_param :: "(string, string) gomap \<Rightarrow> string \<Rightarrow> bool \<Rightarrow> bool stage" where
  "bool_param pm key d =
     (case pm key of Some v \<Rightarrow> or_reject (invalid_value key v) (ParseBool v) | None \<Rightarrow> Inr d)"

definition resolution_param :: "(string, string) gomap \<Rightarrow> string stage" where
  "resolution_param pm =
     (case pm ''resolution'' of
        None \<Rightarrow> Inr []
      | Some v \<Rightarrow>
          proceed (or_reject (invalid_value ''resolution'' v) (IsValidDurationString v)) (\<lambda>matched.
            if matched then Inr v
            else reject (invalid_value ''resolution'' v @ ''resolution should be a valid duration string'')))"

definition filter_of :: "(string \<Rightarrow> string) \<Rightarrow> (string, string) gomap \<Rightarrow> cost_filter stage" where
  "filter_of msg pm =
     (case pm ''filter'' of None \<Rightarrow> Inr empty_filter | Some v \<Rightarrow> or_reject (msg v) (ParseFilter v))"

text \<open>The parameters of \<open>ComputeAllocationHandler\<close>: windows and steps are at least a day.\<close>

definition allocation_params :: "gotime \<Rightarrow> (string, string) gomap \<Rightarrow> AllocationParams stage" where
  "allocation_params now pm =
     proceed (or_reject (invalid ''window'') (ParseWindow now (text_param pm ''window'' []))) (\<lambda>window.
     proceed (if Duration window < Day
              then reject (invalid_value ''window'' (text_param pm ''window'' []) @ ''window duration should be at least 1 day'')
              else Inr ()) (\<lambda>_.
     proceed (filter_of (invalid_value ''filter'') pm) (\<lambda>flt.
     proceed (case pm ''step'' of
                None \<Rightarrow> Inr (Duration window)
              | Some v \<Rightarrow>
                  proceed (or_reject (invalid_value ''step'' v) (ParseDuration v)) (\<lambda>d.
                    if d < Day then reject (invalid_value ''step'' v @ ''step duration should be at least 1 day'')
                    else Inr d)) (\<lambda>stp.
     proceed (resolution_param pm) (\<lambda>res.
     proceed (bool_param pm ''idle'' True) (\<lambda>idl.
     proceed (bool_param pm ''shareIdle'' False) (\<lambda>shi.
     proceed (bool_param pm ''idleByNode'' False) (\<lambda>ibn.
       Inr \<lparr>apiType = TypeAllocation, window_param = window, resolution = res, step = stp,
         aggregate = text_param pm ''aggregate'' ''pod'', filter_param = Some flt,
         accumulateBy = AccumulateOptionNone, costType = AllocationPretaxAmount, idle = idl, shareIdle = shi,
         shareSplit = text_param pm ''shareSplit'' ShareSplitWeighted, idleByNode = ibn,
         targetType = text_param pm ''targetType'' ''cluster''\<rparr>))))))))"

text \<open>The parameters of \<open>ComputeEstimatedCostHandler\<close>: any window and any step.\<close>

definition cost_params :: "gotime \<Rightarrow> (string, string) gomap \<Rightarrow> AllocationParams stage" where
  "cost_params now pm =
     proceed (or_reject (invalid ''window'') (ParseWindow now (text_param pm ''window'' []))) (\<lambda>window.
     proceed (filter_of (\<lambda>_. invalid ''filter'') pm) (\<lambda>flt.
     proceed (case pm ''step'' of
                None \<Rightarrow> Inr (Duration window) | Some v \<Rightarrow> or_reject (invalid ''step'') (ParseDuration v)) (\<lambda>stp.
     proceed (resolution_param pm) (\<lambda>res.
     proceed (bool_param pm ''idle'' True) (\<lambda>idl.
     proceed (bool_param pm ''shareIdle'' False) (\<lambda>shi.
     proceed (bool_param pm ''idleByNode'' False) (\<lambda>ibn.
       Inr \<lparr>apiType = TypeCost, window_param = window, resolution = res, step = stp,
         aggregate = text_param pm ''aggregate'' ''pod'', filter_param = Some flt,
         accumulateBy = AccumulateOptionNone, costType = CostEstimated, idle = idl, shareIdle = shi,
         shareSplit = text_param pm ''shareSplit'' ShareSplitWeighted, idleByNode = ibn,
         targetType = []\<rparr>)))))))"

section \<open>The handlers\<close>

text \<open>
  The run of a handler: how a window prints, the cluster met at each step, the orders of the map loops of
  aggregation and of the CSV answer, and how a dimension is put in title case. Not returning is
  \<open>None\<close>; a panic is recovered by the HTTP server and ends the request.
\<close>

record run =
  show_window :: "window \<Rightarrow> string"
  clusters :: "nat \<Rightarrow> cost_env"
  agg_orders :: "nat \<Rightarrow> string list \<times> string list"
  csv_order :: "nat \<Rightarrow> string list"
  title_case :: "string \<Rightarrow> string"

definition finite_numbers :: "allocation \<Rightarrow> bool" where
  "finite_numbers a \<longleftrightarrow>
     list_all is_fin [CPUCoreRequestAverage a, CPUCoreUsageAverage a, RAMBytesRequestAverage a,
       RAMBytesUsageAverage a, Cost a, CostRatio a, CustomCost a]"

text \<open>\<open>order\<close> lists the keys of a set; \<open>json.Marshal\<close> refuses a number that is not finite.\<close>

definition marshals :: "(nat \<Rightarrow> string list) \<Rightarrow> allocation_set_range \<Rightarrow> bool" where
  "marshals order asr \<longleftrightarrow>
     list_all (\<lambda>i. case asr ! i of None \<Rightarrow> True | Some m \<Rightarrow> list_all (\<lambda>k. finite_numbers (the (m k))) (order i))
       [0..<length asr]"

definition error_response :: "string \<Rightarrow> response" where
  "error_response m =
     WriteError (if contains (to_lower m) ''bad request'' then BadRequest m else InternalServerError m)"

definition answer :: "run \<Rightarrow> string \<Rightarrow> (string, string) gomap \<Rightarrow> AllocationParams \<Rightarrow> allocation_set_range \<Rightarrow> response res" where
  "answer r filename pm params asr =
     (let format = text_param pm ''format'' [] in
      if format = ''json'' \<or> format = [] then Inr (JsonBody (if marshals (csv_order r) asr then Some asr else None))
      else if format = ''csv'' then
        (case writeCSVAllocationResponse (title_case r) (csv_order r) filename asr (aggregate params) of
           Inl (Err m) \<Rightarrow> Inr (PlainError 500 (m @ [CHR 0x0A]))
         | Inl (Panic p) \<Rightarrow> Inl (Panic p)
         | Inr resp \<Rightarrow> Inr resp)
      else Inr NoBody)"

definition serve ::
  "run \<Rightarrow> string \<Rightarrow> (string, string) gomap \<Rightarrow> AllocationParams stage \<Rightarrow> response res option" where
  "serve r filename pm stage =
     (case stage of
        Inl early \<Rightarrow> Some early
      | Inr params \<Rightarrow>
          map_option (\<lambda>result. case result of
              Inl (Err m) \<Rightarrow> Inr (error_response m)
            | Inl (Panic p) \<Rightarrow> Inl (Panic p)
            | Inr asr \<Rightarrow> answer r filename pm params asr)
            (GetRangeAllocation (show_window r) (clusters r) (agg_orders r) params))"

definition ComputeAllocationHandler :: "run \<Rightarrow> gotime \<Rightarrow> (string, string list) gomap \<Rightarrow> response res option" where
  "ComputeAllocationHandler r now query =
     serve r ''allocation.csv'' (params_map query) (allocation_params now (params_map query))"

definition ComputeEstimatedCostHandler :: "run \<Rightarrow> gotime \<Rightarrow> (string, string list) gomap \<Rightarrow> response res option" where
  "ComputeEstimatedCostHandler r now query =
     serve r ''cost.csv'' (params_map query) (cost_params now (params_map query))"

section \<open>Accepted parameters\<close>

lemma or_reject_eq_Inr [res_simps]: "or_reject msg r = Inr v \<longleftrightarrow> r = Inr v"
  by (simp add: or_reject_def reject_def split: sum.split error.split)

lemma reject_not_Inr [simp]: "reject msg \<noteq> Inr v" "Inr v \<noteq> reject msg"
  by (simp_all add: reject_def)

lemma if_reject [res_simps]:
  "(if c then reject msg else Inr v) = Inr w \<longleftrightarrow> \<not> c \<and> v = w"
  "(if c then Inr v else reject msg) = Inr w \<longleftrightarrow> c \<and> v = w"
  by auto

definition valid_resolution :: "string \<Rightarrow> bool" where
  "valid_resolution s \<longleftrightarrow> s = [] \<or> IsValidDurationString s = Inr True"

lemma resolution_param_valid: "resolution_param pm = Inr v \<Longrightarrow> valid_resolution v"
  by (auto simp: resolution_param_def valid_resolution_def res_simps split: option.splits)

lemma filter_of_wf: "filter_of msg pm = Inr f \<Longrightarrow> wf_filter f"
  using ParseFilter_result by (fastforce simp: filter_of_def res_simps wf_filter_defs empty_filter_def split: option.splits sum.splits)

lemma window_closed: "ParseWindow now s = Inr w \<Longrightarrow> \<not> IsOpen w"
  using ParseWindow_result [of s now] by simp

lemma allocation_params_accepted:
  assumes "allocation_params now pm = Inr p"
  shows "\<not> IsOpen (window_param p)" "Day \<le> Duration (window_param p)" "Day \<le> step p"
    "valid_resolution (resolution p)" "\<exists>f. filter_param p = Some f \<and> wf_filter f" "apiType p = TypeAllocation"
proof -
  obtain window flt stp where w: "ParseWindow now (text_param pm ''window'' []) = Inr window"
    and d: "\<not> Duration window < Day"
    and f: "filter_of (invalid_value ''filter'') pm = Inr flt"
    and s: "(case pm ''step'' of None \<Rightarrow> Inr (Duration window)
        | Some v \<Rightarrow> proceed (or_reject (invalid_value ''step'' v) (ParseDuration v)) (\<lambda>d.
            if d < Day then reject (invalid_value ''step'' v @ ''step duration should be at least 1 day'') else Inr d)) = Inr stp"
    and r: "resolution_param pm = Inr (resolution p)"
    and p: "window_param p = window" "filter_param p = Some flt" "step p = stp" "apiType p = TypeAllocation"
    using assms unfolding allocation_params_def by (auto simp: proceed_eq_Inr or_reject_eq_Inr if_reject)
  show "\<not> IsOpen (window_param p)" using window_closed [OF w] p by simp
  show "Day \<le> Duration (window_param p)" using d p by simp
  show "Day \<le> step p" using s d p by (auto simp: res_simps split: option.splits)
  show "valid_resolution (resolution p)" using resolution_param_valid [OF r] .
  show "\<exists>f. filter_param p = Some f \<and> wf_filter f" "apiType p = TypeAllocation"
    using filter_of_wf [OF f] p by auto
qed

section \<open>Rejected parameters\<close>

definition bad_request :: "response res \<Rightarrow> bool" where
  "bad_request r \<longleftrightarrow> (\<exists>msg. r = Inr (PlainError 400 (''Invalid '' @ msg)))"

definition no_panic :: "'a res \<Rightarrow> bool" where
  "no_panic r \<longleftrightarrow> (\<forall>p. r \<noteq> Inl (Panic p))"

lemma no_panicI: "(\<And>e. r = Inl e \<Longrightarrow> \<exists>m. e = Err m) \<Longrightarrow> no_panic r"
  by (auto simp: no_panic_def)

lemma no_panic_window: "no_panic (ParseWindow now s)"
  using ParseWindow_result [of s now] by (intro no_panicI) simp

lemma no_panic_filter: "no_panic (ParseFilter s)"
  using ParseFilter_result [of s] by (intro no_panicI) simp

lemma no_panic_bool: "no_panic (ParseBool s)"
  by (simp add: no_panic_def ParseBool_def split: option.split)

lemma no_panic_item: "no_panic (duration_item orig s)"
  by (auto simp: no_panic_def duration_item_def item_value_def invalid_duration_def Let_def and_then_eq_Inl
      split: option.splits prod.splits if_splits)

lemma no_panic_items: "no_panic (duration_items orig s d)"
proof (induction orig s d rule: duration_items.induct)
  case (1 orig s d)
  show ?case
  proof (cases "duration_item orig s")
    case (Inl e)
    with no_panic_item [of orig s] show ?thesis
      by (subst duration_items.simps) (simp add: no_panic_def)
  next
    case (Inr vr)
    with 1 show ?thesis
      by (subst duration_items.simps) (auto simp: no_panic_def invalid_duration_def Let_def split: prod.split)
  qed
qed

lemma no_panic_duration: "no_panic (ParseDuration s)"
  using no_panic_items
  by (auto simp: no_panic_def ParseDuration_def goParseDuration_def invalid_duration_def Let_def and_then_eq_Inl)

lemma or_reject_bad:
  "or_reject (''Invalid '' @ msg) r = Inl x \<Longrightarrow> no_panic r \<Longrightarrow> bad_request x"
  by (auto simp: or_reject_def reject_def no_panic_def bad_request_def split: sum.splits error.splits)

lemma reject_bad: "(reject (''Invalid '' @ msg) :: 'a stage) = Inl x \<Longrightarrow> bad_request x"
  by (auto simp: reject_def bad_request_def)

lemma proceed_bad:
  "proceed m k = Inl x \<Longrightarrow> (m = Inl x \<Longrightarrow> bad_request x) \<Longrightarrow> (\<And>v. m = Inr v \<Longrightarrow> k v = Inl x \<Longrightarrow> bad_request x) \<Longrightarrow> bad_request x"
  by (auto simp: proceed_eq_Inl)

lemma invalid_prefix:
  "\<exists>t. invalid key = ''Invalid '' @ t" "\<exists>t. invalid_value key v = ''Invalid '' @ t"
  "\<exists>t. invalid_value key v @ txt = ''Invalid '' @ t"
  by (simp_all add: invalid_def invalid_value_def)

lemma bad_stages:
  "or_reject (invalid key) r = Inl x \<Longrightarrow> no_panic r \<Longrightarrow> bad_request x"
  "or_reject (invalid_value key v) r = Inl x \<Longrightarrow> no_panic r \<Longrightarrow> bad_request x"
  "(reject (invalid_value key v @ txt) :: 'a stage) = Inl x \<Longrightarrow> bad_request x"
  using invalid_prefix or_reject_bad reject_bad by metis+

lemma bool_param_bad: "bool_param pm key d = Inl x \<Longrightarrow> bad_request x"
  using no_panic_bool by (auto simp: bool_param_def split: option.splits dest: bad_stages(2))

lemma resolution_param_bad: "resolution_param pm = Inl x \<Longrightarrow> bad_request x"
  by (auto simp: resolution_param_def IsValidDurationString_def proceed_eq_Inl or_reject_def
      split: option.splits if_splits dest: bad_stages(3))

lemma filter_of_bad:
  assumes "\<forall>v. \<exists>t. msg v = ''Invalid '' @ t" "filter_of msg pm = Inl x"
  shows "bad_request x"
proof -
  obtain v where v: "or_reject (msg v) (ParseFilter v) = Inl x"
    using assms(2) by (auto simp: filter_of_def split: option.splits)
  obtain t where "msg v = ''Invalid '' @ t" using assms(1) by blast
  with v show ?thesis using or_reject_bad [OF _ no_panic_filter] by metis
qed

lemma allocation_params_rejected:
  assumes "allocation_params now pm = Inl x"
  shows "bad_request x"
  using assms unfolding allocation_params_def
proof (elim proceed_bad)
  show "bad_request x" if "filter_of (invalid_value ''filter'') pm = Inl x"
    using that by (rule filter_of_bad [rotated]) (use invalid_prefix in blast)
qed (auto simp: proceed_eq_Inl split: option.splits if_splits intro: bool_param_bad resolution_param_bad
      dest: bad_stages(1) [OF _ no_panic_window] bad_stages(2) [OF _ no_panic_duration] bad_stages(3))

lemma cost_params_rejected:
  assumes "cost_params now pm = Inl x"
  shows "bad_request x"
  using assms unfolding cost_params_def
proof (elim proceed_bad)
  show "bad_request x" if "filter_of (\<lambda>_. invalid ''filter'') pm = Inl x"
    using that by (rule filter_of_bad [rotated]) (use invalid_prefix in blast)
qed (auto split: option.splits intro: bool_param_bad resolution_param_bad
      dest: bad_stages(1) [OF _ no_panic_window] bad_stages(1) [OF _ no_panic_duration])

section \<open>Properties of the handlers\<close>

text \<open>
  The allocation handler always answers: whatever the request, the clock and the cluster, it
  returns a response (or a panic), because every step it accepts is at least a day.
\<close>

theorem ComputeAllocationHandler_answers:
  "\<exists>resp. ComputeAllocationHandler r now query = Some resp"
proof (cases "allocation_params now (params_map query)")
  case (Inr p)
  then have "Day \<le> step p" by (rule allocation_params_accepted)
  then have "0 < step p" by (simp add: Day_def)
  then show ?thesis
    using range_returns [of p "show_window r" "clusters r" "agg_orders r"] Inr
    by (auto simp: ComputeAllocationHandler_def serve_def)
qed (simp add: ComputeAllocationHandler_def serve_def)

text \<open>
  C35. The cost handler does not check the step: a step of zero (or a negative one) over a window
  that is not empty keeps the request going forever when its computations succeed.
\<close>

theorem ComputeEstimatedCostHandler_hangs:
  assumes "cost_params now (params_map query) = Inr p" "step p \<le> 0"
    and "start (window_param p) = Some s" "end (window_param p) = Some e" "ns s < ns e"
    and "always_computes (clusters r) p"
  shows "ComputeEstimatedCostHandler r now query = None"
  using range_never_returns [OF assms(3-5) assms(2,6), of "show_window r" "agg_orders r"] assms(1)
  by (simp add: ComputeEstimatedCostHandler_def serve_def)

definition quiet_run :: run where
  "quiet_run = \<lparr>show_window = \<lambda>_. [], clusters = \<lambda>_. quiet_env, agg_orders = \<lambda>_. ([], []), csv_order = \<lambda>_. [],
     title_case = \<lambda>s. s\<rparr>"

definition leap_noon :: gotime where
  "leap_noon = \<lparr>ns = 1709208000 * second, zone = utc\<rparr>"

theorem ComputeEstimatedCostHandler_hangs_witness:
  "ComputeEstimatedCostHandler quiet_run leap_noon
     [''window'' \<mapsto> [''today''], ''step'' \<mapsto> [''0''], ''idle'' \<mapsto> [''false'']] = None"
proof -
  let ?q = "[''window'' \<mapsto> [''today''], ''step'' \<mapsto> [''0''], ''idle'' \<mapsto> [''false'']]"
  have "case cost_params leap_noon (params_map ?q) of Inl _ \<Rightarrow> False | Inr p \<Rightarrow>
      step p = 0 \<and> (case start (window_param p) of None \<Rightarrow> False | Some s \<Rightarrow>
        (case end (window_param p) of None \<Rightarrow> False | Some e \<Rightarrow> ns s < ns e)) \<and> resolution p = [] \<and> \<not> idle p"
    by code_simp
  then obtain p s e where p: "cost_params leap_noon (params_map ?q) = Inr p" "step p \<le> 0"
    "start (window_param p) = Some s" "end (window_param p) = Some e" "ns s < ns e" "resolution p = []" "\<not> idle p"
    by (auto split: sum.splits option.splits)
  have "filter_param p = Some empty_filter" "apiType p = TypeCost"
    using p(1) by (auto simp: cost_params_def filter_of_def params_map_def res_simps)
  then have "always_computes (clusters quiet_run) p"
    using p(6,7) by (simp add: always_computes_def quiet_run_def quiet_computes)
  from ComputeEstimatedCostHandler_hangs [OF p(1-5) this] show ?thesis .
qed

text \<open>A target type is only looked at when the first step of the range is computed, so that step fails.\<close>

lemma bad_target_compute:
  assumes "apiType p = TypeAllocation" "targetType p \<notin> {''cluster'', ''node''}"
  shows "\<exists>e. ComputeAllocation env s e' p = Inl e"
proof (cases "ComputeAllocation env s e' p")
  case (Inr x)
  with assms show ?thesis
    by (auto simp: ComputeAllocation_def and_then_eq_Inr billing_phase_def total_billing_def Let_def)
qed blast

lemma bad_target_range:
  assumes "\<not> IsOpen (window_param p)" "Day \<le> Duration (window_param p)" "apiType p = TypeAllocation"
    and "targetType p \<notin> {''cluster'', ''node''}"
  shows "\<exists>e. GetRangeAllocation sw envs orders p = Some (Inl e)"
proof -
  obtain s e where w: "start (window_param p) = Some s" "end (window_param p) = Some e"
    using assms(1) by (auto simp: Window_Model.IsOpen_def)
  have "ns s < ns e"
    using assms(1,2) w by (simp add: Window_Model.Duration_def Window_Model.IsOpen_def time_sub_def Day_def split: if_splits)
  then have "\<exists>x. range_loop sw envs e p 0 s (time_add s (step p)) NewAllocationSetRange = Some (Inl x)"
    using bad_target_compute [OF assms(3,4), of "envs 0" s "time_add s (step p)"]
    by (subst range_loop.simps) (auto simp: after_def)
  then show ?thesis using w by (auto simp: GetRangeAllocation_def Let_def)
qed

text \<open>
  C36. What becomes of parameters that are not accepted. Those that a handler reads itself (window, filter, step, resolution and
  the three flags) are answered with status 400 and a text that begins with \<open>Invalid\<close>; no parser panics, whatever
  the request. A target type that is neither \<open>cluster\<close> nor \<open>node\<close> is accepted by the allocation handler, and the computation of the
  first step refuses it: no such request is answered with allocations, but with the JSON error of the computation, whose status
  is 500 unless its text says \<open>bad request\<close> (or with a panic before it). The dimension and the way to share idle cost are not read
  by the handlers either.
\<close>

theorem bad_parameters_answered:
  "(case allocation_params now (params_map query) of
      Inl x \<Rightarrow> ComputeAllocationHandler r now query = Some x \<and> (\<exists>msg. x = Inr (PlainError 400 (''Invalid '' @ msg)))
    | Inr p \<Rightarrow> targetType p \<in> {''cluster'', ''node''} \<or>
        (\<exists>m. ComputeAllocationHandler r now query = Some (Inr (error_response m))) \<or>
        (\<exists>m. ComputeAllocationHandler r now query = Some (Inl (Panic m)))) \<and>
   (case cost_params now (params_map query) of
      Inl x \<Rightarrow> ComputeEstimatedCostHandler r now query = Some x \<and> (\<exists>msg. x = Inr (PlainError 400 (''Invalid '' @ msg)))
    | Inr p \<Rightarrow> True)"
proof
  show "case cost_params now (params_map query) of
      Inl x \<Rightarrow> ComputeEstimatedCostHandler r now query = Some x \<and> (\<exists>msg. x = Inr (PlainError 400 (''Invalid '' @ msg)))
    | Inr p \<Rightarrow> True"
    using cost_params_rejected [of now "params_map query"]
    by (auto simp: ComputeEstimatedCostHandler_def serve_def bad_request_def split: sum.split)
  show "case allocation_params now (params_map query) of
      Inl x \<Rightarrow> ComputeAllocationHandler r now query = Some x \<and> (\<exists>msg. x = Inr (PlainError 400 (''Invalid '' @ msg)))
    | Inr p \<Rightarrow> targetType p \<in> {''cluster'', ''node''} \<or>
        (\<exists>m. ComputeAllocationHandler r now query = Some (Inr (error_response m))) \<or>
        (\<exists>m. ComputeAllocationHandler r now query = Some (Inl (Panic m)))"
  proof (cases "allocation_params now (params_map query)")
    case (Inl x)
    then show ?thesis using allocation_params_rejected [OF Inl] by (auto simp: ComputeAllocationHandler_def serve_def bad_request_def)
  next
    case (Inr p)
    show ?thesis
    proof (cases "targetType p \<in> {''cluster'', ''node''}")
      case False
      note a = allocation_params_accepted [OF Inr]
      obtain e where "GetRangeAllocation (show_window r) (clusters r) (agg_orders r) p = Some (Inl e)"
        using bad_target_range [OF a(1,2,6) False] by blast
      with Inr show ?thesis by (cases e) (auto simp: ComputeAllocationHandler_def serve_def)
    qed (simp add: Inr)
  qed
qed

text \<open>
  What the allocation handler accepts: a closed window of at least a day, steps of at least a day, a
  resolution that is empty or a number with a unit, and a well-formed filter.
\<close>

theorem allocation_params_checked:
  assumes "allocation_params now pm = Inr p"
  shows "\<not> IsOpen (window_param p) \<and> Day \<le> Duration (window_param p) \<and> Day \<le> step p \<and>
    valid_resolution (resolution p) \<and> (\<exists>f. filter_param p = Some f \<and> wf_filter f)"
  using allocation_params_accepted [OF assms] by blast

theorem allocation_params_checked_witness:
  "\<exists>p. allocation_params leap_noon [''window'' \<mapsto> ''lastweek'', ''step'' \<mapsto> ''2d''] = Inr p \<and> Day \<le> step p"
proof -
  have "case allocation_params leap_noon [''window'' \<mapsto> ''lastweek'', ''step'' \<mapsto> ''2d''] of Inl _ \<Rightarrow> False | Inr _ \<Rightarrow> True"
    by code_simp
  then obtain p where p: "allocation_params leap_noon [''window'' \<mapsto> ''lastweek'', ''step'' \<mapsto> ''2d''] = Inr p"
    by (auto split: sum.splits)
  with allocation_params_checked [OF p] show ?thesis by blast
qed

section \<open>Answers of the handlers\<close>

lemma csv_records_cases:
  "csv_records order agg i asr =
     (if None \<in> set asr then Inl (Panic ''nil pointer dereference'')
      else Inr (concat (map (\<lambda>(j, as). map (\<lambda>k. csv_record agg (the (the as k))) (order j))
             (zip [i..<i + length asr] asr))))"
proof (induction asr arbitrary: i)
  case (Cons as asr)
  have "[i..<Suc (i + length asr)] = i # [Suc i..<Suc i + length asr]" by (simp add: upt_rec [of i] del: upt_Suc)
  with Cons.IH [of "Suc i"] show ?case by (cases as) (simp_all del: upt_Suc)
qed simp

lemma csv_record_width: "length (csv_record agg a) = length (csv_format title agg)"
  by (simp add: csv_record_def csv_format_def split: option.split)

text \<open>
  The CSV answer: a set that is nil (the aggregation of a step without allocations) is dereferenced; with
  none, the records have the width of the header and there is one for each allocation of each set.
\<close>

theorem writeCSVAllocationResponse_result:
  "case writeCSVAllocationResponse title order filename asr agg of
     Inl e \<Rightarrow> None \<in> set asr \<and> e = Panic ''nil pointer dereference''
   | Inr resp \<Rightarrow> None \<notin> set asr \<and> (\<exists>rows. resp = CsvBody filename rows \<and>
       length rows = Suc (\<Sum>i\<leftarrow>[0..<length asr]. length (order i)) \<and>
       list_all (\<lambda>row. length row = length (csv_format title agg)) rows)"
proof (cases "None \<in> set asr")
  case True
  then show ?thesis by (simp add: writeCSVAllocationResponse_def csv_records_cases)
next
  case False
  have "length (concat (map (\<lambda>(j, as). map (\<lambda>k. csv_record agg (the (the as k))) (order j)) (zip js xs))) =
      (\<Sum>i\<leftarrow>js. length (order i))" if "length js = length xs" for js and xs :: allocation_set_range
    using that by (induction js xs rule: list_induct2) simp_all
  from this [of "[0..<length asr]" asr] False show ?thesis
    using csv_record_width by (auto simp: writeCSVAllocationResponse_def csv_records_cases list_all_iff length_concat)
qed

text \<open>A window of one step.\<close>

lemma range_loop_one:
  assumes "ComputeAllocation (envs 0) s (time_add s (step p)) p = Inr (a, f)" "ns s < ns e"
    "ns s + step p = ns e"
  shows "range_loop sw envs e p 0 s (time_add s (step p)) [] = Some (Inr [Some a])"
  using assms
  by (subst range_loop.simps) (simp add: after_def, subst range_loop.simps, simp add: after_def Append_def)

text \<open>
  A CSV request over a window in which one step has neither pods nor idle cost panics: the aggregation of an
  empty set is nil and the writer reads through it.
\<close>

theorem csv_of_empty_step_panics:
  assumes "cost_params now (params_map query) = Inr p" "params_map query ''format'' = Some ''csv''"
    and "GetRangeAllocation (show_window r) (clusters r) (agg_orders r) p = Some (Inr asr)" "None \<in> set asr"
  shows "ComputeEstimatedCostHandler r now query = Some (Inl (Panic ''nil pointer dereference''))"
  using assms
  by (simp add: ComputeEstimatedCostHandler_def serve_def answer_def text_param_def writeCSVAllocationResponse_def
      csv_records_cases)

theorem csv_of_empty_step_panics_witness:
  "ComputeEstimatedCostHandler quiet_run leap_noon
     [''window'' \<mapsto> [''today''], ''idle'' \<mapsto> [''false''], ''format'' \<mapsto> [''csv'']] =
     Some (Inl (Panic ''nil pointer dereference''))"
proof -
  let ?q = "[''window'' \<mapsto> [''today''], ''idle'' \<mapsto> [''false''], ''format'' \<mapsto> [''csv'']]"
  have "case cost_params leap_noon (params_map ?q) of Inl _ \<Rightarrow> False | Inr p \<Rightarrow>
      (case start (window_param p) of None \<Rightarrow> False | Some s \<Rightarrow>
        (case end (window_param p) of None \<Rightarrow> False | Some e \<Rightarrow> ns s < ns e \<and> ns s + step p = ns e))
      \<and> resolution p = [] \<and> \<not> idle p"
    by code_simp
  then obtain p s e where p: "cost_params leap_noon (params_map ?q) = Inr p"
    "start (window_param p) = Some s" "end (window_param p) = Some e" "ns s < ns e" "ns s + step p = ns e"
    "resolution p = []" "\<not> idle p"
    by (auto split: sum.splits option.splits)
  have q: "filter_param p = Some empty_filter" "apiType p = TypeCost" "aggregate p = ''pod''"
    using p(1) by (auto simp: cost_params_def filter_of_def params_map_def text_param_def res_simps)
  have "range_loop (show_window quiet_run) (clusters quiet_run) e p 0 s (time_add s (step p)) [] = Some (Inr [Some Map.empty])"
    using p(4-7) q by (intro range_loop_one) (simp_all add: quiet_run_def quiet_computes)
  then have "GetRangeAllocation (show_window quiet_run) (clusters quiet_run) (agg_orders quiet_run) p = Some (Inr [None])"
    using p(2-4) q by (simp add: GetRangeAllocation_def Window_Model.IsOpen_def IsNegative_def before_def Let_def
        NewAllocationSetRange_def quiet_run_def AggregateRange_def AggregateBy_def IsEmpty_def)
  from csv_of_empty_step_panics [OF p(1) _ this] show ?thesis by (simp add: params_map_def)
qed

text \<open>
  A negative window (its end before its start) passes the parameter checks of the cost handler and
  is answered with status 400 by the range computation.
\<close>

lemma contains_prefix: "sub \<noteq> [] \<Longrightarrow> contains (sub @ t) sub"
  by (cases sub) (simp_all add: contains_def has_prefix_def)

theorem negative_window_answer:
  assumes "cost_params now (params_map query) = Inr p" "IsNegative (window_param p)"
  shows "ComputeEstimatedCostHandler r now query = Some (Inr (JsonError 400 (marshal_response
    \<lparr>Code = 400, StatusText = [], Message =
      ''Error: bad request - illegal window: '' @ show_window r (window_param p)\<rparr>)))"
proof -
  have "to_lower (''bad request - illegal window: '' @ t) = ''bad request'' @ to_lower ('' - illegal window: '' @ t)" for t
    by (simp add: to_lower_def lower_char_def)
  then have "contains (to_lower (''bad request - illegal window: '' @ t)) ''bad request''" for t
    using contains_prefix [of "''bad request''"] by simp
  then show ?thesis
    using assms
    by (simp add: ComputeEstimatedCostHandler_def serve_def GetRangeAllocation_def Let_def error_response_def
        WriteError_def BadRequest_def)
qed

theorem negative_window_answer_witness:
  "ComputeEstimatedCostHandler quiet_run leap_noon [''window'' \<mapsto> [''200,100'']] =
     Some (Inr (JsonError 400 (marshal_response
       \<lparr>Code = 400, StatusText = [], Message = ''Error: bad request - illegal window: ''\<rparr>)))"
proof -
  have "case cost_params leap_noon (params_map [''window'' \<mapsto> [''200,100'']]) of
      Inl _ \<Rightarrow> False | Inr p \<Rightarrow> IsNegative (window_param p)"
    by code_simp
  then obtain p where p: "cost_params leap_noon (params_map [''window'' \<mapsto> [''200,100'']]) = Inr p" "IsNegative (window_param p)"
    by (auto split: sum.splits)
  from negative_window_answer [OF p, of quiet_run] show ?thesis by (simp add: quiet_run_def)
qed

section \<open>Error texts\<close>

text \<open>A reader of JSON strings, for the round trip.\<close>

definition escaped :: "char \<Rightarrow> char option" where
  "escaped d = map_of [(CHR ''n'', CHR 0x0A), (CHR ''r'', CHR 0x0D), (CHR ''t'', CHR 0x09),
     (quote_char, quote_char), (CHR 0x5C, CHR 0x5C)] d"

fun json_unescape :: "string \<Rightarrow> string option" where
  "json_unescape [] = Some []"
| "json_unescape (c # s) =
     (if c \<noteq> CHR 0x5C then map_option ((#) c) (json_unescape s)
      else case s of
        [] \<Rightarrow> None
      | d # t \<Rightarrow>
          if d = CHR ''u'' then
            (case t of
               z # z' # h # l # t' \<Rightarrow>
                 if z = CHR ''0'' \<and> z' = CHR ''0''
                 then map_option ((#) (char_of (16 * hex_val h + hex_val l))) (json_unescape t')
                 else None
             | _ \<Rightarrow> None)
          else (case escaped d of None \<Rightarrow> None | Some e \<Rightarrow> map_option ((#) e) (json_unescape t)))"

lemma json_hex_char: "json_unescape (json_hex (of_char c) @ t) = map_option ((#) c) (json_unescape t)"
proof -
  have "of_char c div 16 < (16 :: nat)" by (rule less_mult_imp_div_less) (use char_code [of c] in simp)
  then show ?thesis by (simp add: json_hex_def)
qed

lemma json_unescape_char: "json_unescape (json_char c @ t) = map_option ((#) c) (json_unescape t)"
proof -
  consider "c \<in> {quote_char, CHR 0x5C, CHR 0x0A, CHR 0x0D, CHR 0x09}"
    | "c \<notin> {quote_char, CHR 0x5C, CHR 0x0A, CHR 0x0D, CHR 0x09}" "of_char c < (32 :: nat) \<or> c \<in> set ''<>&''"
    | "c \<notin> {quote_char, CHR 0x5C, CHR 0x0A, CHR 0x0D, CHR 0x09}" "\<not> (of_char c < (32 :: nat) \<or> c \<in> set ''<>&'')"
    by blast
  then show ?thesis
  proof cases
    case 1
    then show ?thesis by (auto simp: json_char_def escaped_def quote_char_def)
  next
    case 2
    then have "json_char c = json_hex (of_char c)" unfolding json_char_def by auto
    then show ?thesis by (simp only: json_hex_char)
  next
    case 3
    then have "json_char c = [c]" unfolding json_char_def by auto
    with 3 show ?thesis by simp
  qed
qed

text \<open>
  The error text survives its JSON encoding: reading the string between the quotes gives back the
  message, whatever bytes it holds, and the encoded text holds no control character and
  no markup character.
\<close>

theorem json_string_roundtrip:
  "json_unescape (butlast (tl (json_string s))) = Some s \<and>
   list_all (\<lambda>c. 32 \<le> (of_char c :: nat) \<and> c \<notin> set ''<>&'') (json_string s)"
proof
  have "json_unescape (concat (map json_char s)) = Some s" for s
    by (induction s) (simp_all add: json_unescape_char)
  then show "json_unescape (butlast (tl (json_string s))) = Some s"
    by (simp add: json_string_def butlast_append)
  have hex: "k < 16 \<Longrightarrow> 48 \<le> (of_char (hex_digit k) :: nat) \<and> hex_digit k \<notin> set ''<>&''" for k
  proof -
    assume "k < 16"
    then have "k \<in> set [0..<16]" by simp
    moreover have "list_all (\<lambda>k. 48 \<le> (of_char (hex_digit k) :: nat) \<and> hex_digit k \<notin> set ''<>&'') [0..<16]" by code_simp
    ultimately show ?thesis by (auto simp: list_all_iff)
  qed
  have "list_all (\<lambda>c. 32 \<le> (of_char c :: nat) \<and> c \<notin> set ''<>&'') (json_char d)" for d
  proof -
    have "of_char d div 16 < (16 :: nat)" by (rule less_mult_imp_div_less) (use char_code [of d] in simp)
    then show ?thesis
      using hex [of "of_char d div 16"] hex [of "of_char d mod 16"]
      by (auto simp: json_char_def json_hex_def quote_char_def)
  qed
  then show "list_all (\<lambda>c. 32 \<le> (of_char c :: nat) \<and> c \<notin> set ''<>&'') (json_string s)"
    by (auto simp: json_string_def quote_char_def list_all_iff)
qed

end
