(* ===== verification/Label_Parser.thy ===== *)
theory Label_Parser
  imports Label_Selector
begin

text \<open>
  \<open>labels.Parse\<close> of \<open>k8s.io/apimachinery\<close>, which the cost manager calls on the text of its selector and the
  API server calls on the text of each request: the lexer, which keeps what is left of the text, and the
  parser, which keeps what is left of the tokens and panics when it looks past the last one. The
  lemmas show that the text of valid requirements is scanned into their tokens and parsed back.
\<close>

section \<open>Tokens\<close>

datatype token =
  ErrorToken | EndOfStringToken | ClosedParToken | CommaToken | DoesNotExistToken | DoubleEqualsToken
  | EqualsToken | GreaterThanToken | IdentifierToken | InToken | LessThanToken | NotEqualsToken
  | NotInToken | OpenParToken

type_synonym scanned = "token \<times> string"

definition string2token :: "(string \<times> token) list" where
  "string2token =
     [('')'', ClosedParToken), ('','', CommaToken), (''!'', DoesNotExistToken), (''=='', DoubleEqualsToken),
      (''='', EqualsToken), (''>'', GreaterThanToken), (''in'', InToken), (''<'', LessThanToken),
      (''!='', NotEqualsToken), (''notin'', NotInToken), (''('', OpenParToken)]"

abbreviation NUL :: char where "NUL \<equiv> CHR 0x00"

definition isWhitespace :: "char \<Rightarrow> bool" where
  "isWhitespace c \<longleftrightarrow> c \<in> {CHR '' '', CHR 0x09, CHR 0x0D, CHR 0x0A}"

definition isSpecialSymbol :: "char \<Rightarrow> bool" where
  "isSpecialSymbol c \<longleftrightarrow> c \<in> set ''=!(),><''"

section \<open>The lexer\<close>

text \<open>
  Each function takes what is left of the text and returns the token and what is left then. The end of
  the text reads as a NUL, and a NUL of the text is read like the end but is not put back.
\<close>

definition id_char :: "char \<Rightarrow> bool" where
  "id_char c \<longleftrightarrow> c \<noteq> NUL \<and> \<not> isSpecialSymbol c \<and> \<not> isWhitespace c"

definition past_nul :: "string \<Rightarrow> string" where
  "past_nul s = (case s of c # r \<Rightarrow> if c = NUL then r else s | [] \<Rightarrow> [])"

definition id_item :: "string \<Rightarrow> scanned" where
  "id_item s = (case map_of string2token s of Some val \<Rightarrow> (val, s) | None \<Rightarrow> (IdentifierToken, s))"

definition scanIDOrKeyword :: "string \<Rightarrow> scanned \<times> string" where
  "scanIDOrKeyword s = (id_item (takeWhile id_char s), past_nul (dropWhile id_char s))"

definition special_item :: "string \<Rightarrow> scanned option \<Rightarrow> scanned" where
  "special_item buffer last_item =
     (case last_item of
        Some item \<Rightarrow> item
      | None \<Rightarrow> (ErrorToken, ''error expected: keyword found '' @ [CHR 0x27] @ buffer @ [CHR 0x27]))"

fun scan_special :: "string \<Rightarrow> scanned option \<Rightarrow> string \<Rightarrow> scanned \<times> string" where
  "scan_special buffer last_item [] = (special_item buffer last_item, [])"
| "scan_special buffer last_item (c # s) =
     (if c = NUL then (special_item buffer last_item, s)
      else if isSpecialSymbol c then
        let buffer = buffer @ [c] in
        case map_of string2token buffer of
          Some tok \<Rightarrow> scan_special buffer (Some (tok, buffer)) s
        | None \<Rightarrow>
            if last_item \<noteq> None then (special_item buffer last_item, c # s)
            else scan_special buffer last_item s
      else (special_item buffer last_item, c # s))"

definition scanSpecialSymbol :: "string \<Rightarrow> scanned \<times> string" where
  "scanSpecialSymbol = scan_special [] None"

definition Lex :: "string \<Rightarrow> scanned \<times> string" where
  "Lex s =
     (case dropWhile isWhitespace s of
        [] \<Rightarrow> ((EndOfStringToken, []), [])
      | c # r \<Rightarrow>
          if c = NUL then ((EndOfStringToken, []), r)
          else if isSpecialSymbol c then scanSpecialSymbol (c # r)
          else scanIDOrKeyword (c # r))"

lemma past_nul_length: "length (past_nul s) \<le> length s"
  by (simp add: past_nul_def split: list.split)

lemma scan_special_length: "length (snd (scan_special b l s)) \<le> length s"
  by (induction s arbitrary: b l) (auto simp: Let_def le_SucI split: option.split)

lemma scan_special_first:
  "isSpecialSymbol c \<Longrightarrow> c \<noteq> NUL \<Longrightarrow> length (snd (scanSpecialSymbol (c # s))) \<le> length s"
  using scan_special_length by (auto simp: scanSpecialSymbol_def Let_def split: option.split)

lemma Lex_length: "fst (fst (Lex s)) \<noteq> EndOfStringToken \<Longrightarrow> length (snd (Lex s)) < length s"
proof (cases "dropWhile isWhitespace s")
  case (Cons c r)
  then have l: "length (c # r) \<le> length s" by (metis length_dropWhile_le)
  assume "fst (fst (Lex s)) \<noteq> EndOfStringToken"
  with Cons have nul: "c \<noteq> NUL" by (auto simp: Lex_def)
  show ?thesis
  proof (cases "isSpecialSymbol c")
    case True
    then show ?thesis using scan_special_first [OF True nul, of r] l Cons nul by (simp add: Lex_def)
  next
    case False
    have "\<not> isWhitespace c" using Cons by (metis hd_dropWhile list.sel(1) list.discI)
    then have "dropWhile id_char (c # r) = dropWhile id_char r" using False nul by (simp add: id_char_def)
    then have "length (past_nul (dropWhile id_char (c # r))) \<le> length r"
      using past_nul_length [of "dropWhile id_char r"] length_dropWhile_le [of id_char r] by simp
    then show ?thesis using False Cons nul l by (simp add: Lex_def scanIDOrKeyword_def)
  qed
qed (simp add: Lex_def)

function scan :: "string \<Rightarrow> scanned list" where
  "scan s = (let (item, r) = Lex s in if fst item = EndOfStringToken then [item] else item # scan r)"
  by pat_completeness auto
termination
proof (relation "measure length")
  fix s p item r
  assume "p = Lex s" "(item, r) = p" "fst item \<noteq> EndOfStringToken"
  then show "(r, s) \<in> measure length" using Lex_length [of s] by (metis fst_conv snd_conv in_measure)
qed simp

declare scan.simps [simp del]

section \<open>The parser\<close>

text \<open>Where a value is expected, the words \<open>in\<close> and \<open>notin\<close> are identifiers.\<close>

datatype parser_context = KeyAndOperator | Values

definition in_context :: "parser_context \<Rightarrow> scanned \<Rightarrow> scanned" where
  "in_context ctx item =
     (if ctx = Values \<and> fst item \<in> {InToken, NotInToken} then (IdentifierToken, snd item) else item)"

definition lookahead :: "parser_context \<Rightarrow> scanned list \<Rightarrow> scanned res" where
  "lookahead ctx items =
     (case items of [] \<Rightarrow> Inl (Panic ''index out of range'') | item # _ \<Rightarrow> Inr (in_context ctx item))"

definition consume :: "parser_context \<Rightarrow> scanned list \<Rightarrow> (scanned \<times> scanned list) res" where
  "consume ctx items =
     (case items of [] \<Rightarrow> Inl (Panic ''index out of range'') | item # rest \<Rightarrow> Inr (in_context ctx item, rest))"

definition found :: "string \<Rightarrow> string \<Rightarrow> 'a res" where
  "found lit what = Inl (Err (''found '' @ [CHR 0x27] @ lit @ [CHR 0x27] @ what))"

definition parseKeyAndInferOperator :: "scanned list \<Rightarrow> ((string \<times> operator option) \<times> scanned list) res" where
  "parseKeyAndInferOperator items =
     and_then (consume Values items) (\<lambda>(item, rest).
     and_then
       (if fst item = DoesNotExistToken
        then and_then (consume Values rest) (\<lambda>(item', rest'). Inr (item', Some DoesNotExist, rest'))
        else Inr (item, None, rest)) (\<lambda>((tok, literal), op, rest).
     if tok \<noteq> IdentifierToken then found literal '', expected: identifier''
     else if \<not> IsQualifiedName literal then Inl (Err ''invalid label key'')
     else and_then (lookahead Values rest) (\<lambda>(t, _).
       Inr ((literal, if (t = EndOfStringToken \<or> t = CommaToken) \<and> op \<noteq> Some DoesNotExist then Some Exists else op), rest))))"

definition parseOperator :: "scanned list \<Rightarrow> (operator \<times> scanned list) res" where
  "parseOperator items =
     and_then (consume KeyAndOperator items) (\<lambda>((tok, lit), rest).
       case tok of
         InToken \<Rightarrow> Inr (In, rest)
       | EqualsToken \<Rightarrow> Inr (Equals, rest)
       | DoubleEqualsToken \<Rightarrow> Inr (DoubleEquals, rest)
       | GreaterThanToken \<Rightarrow> Inr (GreaterThan, rest)
       | LessThanToken \<Rightarrow> Inr (LessThan, rest)
       | NotInToken \<Rightarrow> Inr (NotIn, rest)
       | NotEqualsToken \<Rightarrow> Inr (NotEquals, rest)
       | _ \<Rightarrow> found lit '', expected: in, notin, =, ==, !=, gt, lt'')"

text \<open>A set of strings: \<open>Insert\<close> and, as \<open>List\<close>, \<open>sort\<close>.\<close>

definition insert_str :: "string \<Rightarrow> string list \<Rightarrow> string list" where
  "insert_str v s = (if v \<in> set s then s else s @ [v])"

fun parseIdentifiersList :: "string list \<Rightarrow> scanned list \<Rightarrow> (string list \<times> scanned list) res" where
  "parseIdentifiersList s [] = Inl (Panic ''index out of range'')"
| "parseIdentifiersList s (item # rest) =
     (let (tok, lit) = in_context Values item in
      if tok = IdentifierToken then
        and_then (lookahead Values rest) (\<lambda>(tok2, lit2).
          if tok2 = CommaToken then parseIdentifiersList (insert_str lit s) rest
          else if tok2 = ClosedParToken then Inr (insert_str lit s, rest)
          else found lit2 ('', expected: ',' or ')'' @ [CHR 0x27]))
      else if tok = CommaToken then
        let s = (if s = [] then insert_str [] s else s) in
        and_then (lookahead Values rest) (\<lambda>(tok2, _).
          if tok2 = ClosedParToken then Inr (insert_str [] s, rest)
          else if tok2 = CommaToken then parseIdentifiersList (insert_str [] s) (tl rest)
          else parseIdentifiersList s rest)
      else found lit '', expected: ',', or identifier'')"

definition parseValues :: "scanned list \<Rightarrow> (string list \<times> scanned list) res" where
  "parseValues items =
     and_then (consume Values items) (\<lambda>((tok, lit), rest).
     if tok \<noteq> OpenParToken then found lit ('' expected: '('' @ [CHR 0x27])
     else and_then (lookahead Values rest) (\<lambda>(tok, lit).
       if tok = IdentifierToken \<or> tok = CommaToken then
         and_then (parseIdentifiersList [] rest) (\<lambda>(s, rest).
         and_then (consume Values rest) (\<lambda>((tok, _), rest).
           if tok \<noteq> ClosedParToken then found lit ('', expected: ')'' @ [CHR 0x27]) else Inr (s, rest)))
       else if tok = ClosedParToken then
         and_then (consume Values rest) (\<lambda>(_, rest). Inr (insert_str [] [], rest))
       else found lit '', expected: ',', ')' or identifier''))"

definition parseExactValue :: "scanned list \<Rightarrow> (string list \<times> scanned list) res" where
  "parseExactValue items =
     and_then (lookahead Values items) (\<lambda>(tok, _).
     if tok = EndOfStringToken \<or> tok = CommaToken then Inr (insert_str [] [], items)
     else and_then (consume Values items) (\<lambda>((tok, lit), rest).
       if tok = IdentifierToken then Inr (insert_str lit [], rest) else found lit '', expected: identifier''))"

definition parseRequirement :: "scanned list \<Rightarrow> (requirement \<times> scanned list) res" where
  "parseRequirement items =
     and_then (parseKeyAndInferOperator items) (\<lambda>((key, op), rest).
     if op = Some Exists \<or> op = Some DoesNotExist
     then and_then (NewRequirement key (the op) []) (\<lambda>r. Inr (r, rest))
     else and_then (parseOperator rest) (\<lambda>(op, rest).
       and_then (if op \<in> {In, NotIn} then parseValues rest else parseExactValue rest) (\<lambda>(values, rest).
       and_then (NewRequirement key op (sort values)) (\<lambda>r. Inr (r, rest)))))"

lemma consume_rest: "consume ctx items = Inr (item, rest) \<Longrightarrow> length rest < length items"
  by (auto simp: consume_def split: list.splits)

lemma parseIdentifiersList_rest:
  "parseIdentifiersList s items = Inr (s', rest) \<Longrightarrow> length rest \<le> length items"
proof (induction "length items" arbitrary: s items rule: less_induct)
  case less
  show ?case
  proof (cases items)
    case (Cons item rest')
    have IH: "parseIdentifiersList u rest' = Inr (s', rest) \<Longrightarrow> length rest \<le> length rest'"
      "parseIdentifiersList u (tl rest') = Inr (s', rest) \<Longrightarrow> length rest \<le> length (tl rest')" for u
      using less.hyps [of rest' u] less.hyps [of "tl rest'" u] Cons by auto
    obtain tok lit where "in_context Values item = (tok, lit)" by (cases "in_context Values item")
    with less.prems IH Cons show ?thesis
      by (fastforce simp: Let_def and_then_eq_Inr found_def split: if_splits)
  qed (use less.prems in simp)
qed

lemma parseValues_rest: "parseValues items = Inr (s, rest) \<Longrightarrow> length rest \<le> length items"
  unfolding parseValues_def
  by (fastforce simp: and_then_eq_Inr found_def split: if_splits dest!: consume_rest parseIdentifiersList_rest)

lemma parseExactValue_rest: "parseExactValue items = Inr (s, rest) \<Longrightarrow> length rest \<le> length items"
  unfolding parseExactValue_def
  by (fastforce simp: and_then_eq_Inr found_def split: if_splits dest!: consume_rest)

lemma parseOperator_rest: "parseOperator items = Inr (op, rest) \<Longrightarrow> length rest \<le> length items"
proof -
  assume "parseOperator items = Inr (op, rest)"
  then obtain tok lit rest' where c: "consume KeyAndOperator items = Inr ((tok, lit), rest')"
    and "parseOperator items = Inr (op, rest)" by (auto simp: parseOperator_def and_then_eq_Inr)
  then have "rest = rest'" by (cases tok) (simp_all add: parseOperator_def found_def)
  with consume_rest [OF c] show ?thesis by simp
qed

lemma parseKey_rest: "parseKeyAndInferOperator items = Inr (k, rest) \<Longrightarrow> length rest \<le> length items"
  unfolding parseKeyAndInferOperator_def
  by (fastforce simp: and_then_eq_Inr found_def split: if_splits dest!: consume_rest)

lemma parseRequirement_rest: "parseRequirement items = Inr (r, rest) \<Longrightarrow> length rest \<le> length items"
  unfolding parseRequirement_def
  by (fastforce simp: and_then_eq_Inr split: if_splits
      dest!: parseKey_rest parseOperator_rest parseValues_rest parseExactValue_rest)

text \<open>The loop over requirements, one for each comma.\<close>

definition starts_requirement :: "token \<Rightarrow> bool" where
  "starts_requirement tok \<longleftrightarrow> tok = IdentifierToken \<or> tok = DoesNotExistToken"

function parse_loop :: "requirement list \<Rightarrow> scanned list \<Rightarrow> requirement list res" where
  "parse_loop reqs items =
     (case lookahead Values items of
        Inl e \<Rightarrow> Inl e
      | Inr (tok, lit) \<Rightarrow>
          if starts_requirement tok then
            (case explain ''unable to parse requirement: '' (parseRequirement items) of
               Inl e \<Rightarrow> Inl e
             | Inr (r, rest) \<Rightarrow>
                 (case consume Values rest of
                    Inl e \<Rightarrow> Inl e
                  | Inr ((t, l), rest) \<Rightarrow>
                      if t = EndOfStringToken then Inr (reqs @ [r])
                      else if t = CommaToken then
                        (case lookahead Values rest of
                           Inl e \<Rightarrow> Inl e
                         | Inr (t2, l2) \<Rightarrow>
                             if \<not> starts_requirement t2 then found l2 ('', expected: identifier after ','' @ [CHR 0x27])
                             else parse_loop (reqs @ [r]) rest)
                      else found l ('', expected: ',' or 'end of string'' @ [CHR 0x27])))
          else if tok = EndOfStringToken then Inr reqs
          else found lit ('', expected: !, identifier, or 'end of string'' @ [CHR 0x27]))"
  by pat_completeness auto
termination
  by (relation "measure (length \<circ> snd)") (fastforce dest: parseRequirement_rest consume_rest)+

declare parse_loop.simps [simp del]

definition Parse :: "requirement_sort \<Rightarrow> string \<Rightarrow> requirement list res" where
  "Parse srt selector = and_then (parse_loop [] (scan selector)) (\<lambda>reqs. Inr (srt reqs))"

section \<open>Scanning a written selector\<close>

definition stopping :: "char list" where
  "stopping = [NUL, CHR '' '', CHR 0x09, CHR 0x0D, CHR 0x0A] @ ''=!(),><''"

lemma id_char_iff: "id_char c \<longleftrightarrow> c \<notin> set stopping"
  by (auto simp: id_char_def isSpecialSymbol_def isWhitespace_def stopping_def)

definition name_char :: "char \<Rightarrow> bool" where
  "name_char c \<longleftrightarrow> alnum c \<or> c \<in> set ''-_./''"

lemma name_char_id: "name_char c \<Longrightarrow> id_char c"
proof -
  have "list_all (\<lambda>d. \<not> name_char d) stopping" by code_simp
  then show "name_char c \<Longrightarrow> id_char c" unfolding id_char_iff list_all_iff by blast
qed

lemma qualified_name_chars: "qualified_name s \<Longrightarrow> s \<noteq> [] \<and> list_all name_char s"
  by (auto simp: qualified_name_def bracketed_def name_char_def list_all_iff)

lemma dns_chars: "dns1123_subdomain s \<Longrightarrow> list_all name_char s"
proof -
  have join: "list_all (list_all name_char) ls \<Longrightarrow> list_all name_char (join ''.'' ls)" for ls
    by (induction "''.''" ls rule: join.induct) (auto simp: name_char_def)
  assume "dns1123_subdomain s"
  then have "list_all (list_all name_char) (split_str s ''.'')"
    by (auto simp: dns1123_subdomain_def dns1123_label_def bracketed_def name_char_def alnum_def list_all_iff)
  from join [OF this] show ?thesis by (simp add: join_split)
qed

lemma IsQualifiedName_chars:
  assumes "IsQualifiedName s"
  shows "s \<noteq> []" "list_all id_char s"
proof -
  have j: "join ''/'' (split_str s ''/'') = s" by (rule join_split) simp
  consider (one) name where "split_str s ''/'' = [name]" "qualified_name name"
    | (two) prefix name where "split_str s ''/'' = [prefix, name]" "dns1123_subdomain prefix" "qualified_name name"
    using assms by (auto simp: IsQualifiedName_def split: list.splits)
  then have "s \<noteq> [] \<and> list_all name_char s"
  proof cases
    case one
    then show ?thesis using j qualified_name_chars by simp
  next
    case two
    then have "s = prefix @ ''/'' @ name" using j by simp
    then show ?thesis using two dns_chars [of prefix] qualified_name_chars [of name] by (simp add: name_char_def)
  qed
  then show "s \<noteq> []" "list_all id_char s" by (auto simp: list_all_iff name_char_id)
qed

lemma IsValidLabelValue_chars: "IsValidLabelValue v \<Longrightarrow> list_all id_char v"
  using qualified_name_chars [of v] by (auto simp: IsValidLabelValue_def list_all_iff name_char_id)

text \<open>One step of the scanner for each kind of token.\<close>

lemma scan_step: "Lex s = (item, r) \<Longrightarrow> fst item \<noteq> EndOfStringToken \<Longrightarrow> scan s = item # scan r"
  by (subst scan.simps) simp

lemma scan_Nil [simp]: "scan [] = [(EndOfStringToken, [])]"
  by (subst scan.simps) (simp add: Lex_def)

lemma scan_space [simp]: "scan (CHR '' '' # s) = scan s"
proof -
  have "Lex (CHR '' '' # s) = Lex s" by (simp add: Lex_def isWhitespace_def)
  then show ?thesis by (subst (1 2) scan.simps) simp
qed

lemma id_item_end: "fst (id_item t) \<noteq> EndOfStringToken"
  by (auto simp: id_item_def string2token_def)

definition stops :: "string \<Rightarrow> bool" where
  "stops rest \<longleftrightarrow> rest = [] \<or> hd rest \<noteq> NUL \<and> \<not> id_char (hd rest)"

lemma scan_ident:
  assumes "t \<noteq> []" "list_all id_char t" "stops rest"
  shows "scan (t @ rest) = id_item t # scan rest"
proof (rule scan_step)
  obtain c t' where t: "t = c # t'" using assms(1) by (cases t) auto
  then have c: "c \<noteq> NUL" "\<not> isSpecialSymbol c" "\<not> isWhitespace c" using assms(2) by (auto simp: id_char_def)
  have rest: "takeWhile id_char rest = []" "dropWhile id_char rest = rest" "past_nul rest = rest"
    using assms(3) by (cases rest; simp add: stops_def past_nul_def)+
  have "takeWhile id_char (t @ rest) = t" "dropWhile id_char (t @ rest) = rest"
    using assms(2) rest by (simp_all add: list_all_iff takeWhile_append2 dropWhile_append2)
  with c rest(3) show "Lex (t @ rest) = (id_item t, rest)"
    by (simp add: t Lex_def scanIDOrKeyword_def)
qed (rule id_item_end)

definition plain_next :: "string \<Rightarrow> bool" where
  "plain_next rest \<longleftrightarrow> rest = [] \<or> hd rest \<noteq> NUL \<and> hd rest \<noteq> CHR ''=''"

lemma special_chars: "isSpecialSymbol c \<longleftrightarrow> c = CHR ''='' \<or> c = CHR ''!'' \<or> c = CHR ''('' \<or> c = CHR '')'' \<or> c = CHR '','' \<or>
    c = CHR ''>'' \<or> c = CHR ''<''"
  by (auto simp: isSpecialSymbol_def)

lemma scan_symbol:
  assumes "(c, tok) \<in> {(CHR '')'', ClosedParToken), (CHR '','', CommaToken), (CHR ''!'', DoesNotExistToken),
      (CHR ''='', EqualsToken), (CHR ''>'', GreaterThanToken), (CHR ''<'', LessThanToken), (CHR ''('', OpenParToken)}"
    and "plain_next rest"
  shows "scan (c # rest) = (tok, [c]) # scan rest"
proof (rule scan_step)
  have "scan_special [c] (Some (tok, [c])) rest = ((tok, [c]), rest)"
    using assms by (cases rest) (auto simp: plain_next_def special_item_def special_chars string2token_def)
  then show "Lex (c # rest) = ((tok, [c]), rest)"
    using assms(1) by (auto simp: Lex_def isWhitespace_def special_chars scanSpecialSymbol_def string2token_def)
qed (use assms(1) in auto)

lemma scan_two:
  assumes "(c, tok) \<in> {(CHR ''='', DoubleEqualsToken), (CHR ''!'', NotEqualsToken)}" "plain_next rest"
  shows "scan (c # CHR ''='' # rest) = (tok, [c, CHR ''='']) # scan rest"
proof (rule scan_step)
  have "scan_special [c, CHR ''=''] (Some (tok, [c, CHR ''=''])) rest = ((tok, [c, CHR ''='']), rest)"
    using assms by (cases rest) (auto simp: plain_next_def special_item_def special_chars string2token_def)
  then show "Lex (c # CHR ''='' # rest) = ((tok, [c, CHR ''='']), rest)"
    using assms(1) by (auto simp: Lex_def isWhitespace_def special_chars scanSpecialSymbol_def string2token_def)
qed (use assms(1) in auto)

text \<open>The tokens of a written requirement.\<close>

fun list_items :: "string list \<Rightarrow> scanned list" where
  "list_items [] = []"
| "list_items [v] = (if v = [] then [] else [id_item v])"
| "list_items (v # w # vs) = (if v = [] then [] else [id_item v]) @ (CommaToken, '','') # list_items (w # vs)"

definition operator_items :: "operator \<Rightarrow> scanned list" where
  "operator_items op =
     (case op of
        Equals \<Rightarrow> [(EqualsToken, ''='')] | DoubleEquals \<Rightarrow> [(DoubleEqualsToken, ''=='')]
      | NotEquals \<Rightarrow> [(NotEqualsToken, ''!='')] | In \<Rightarrow> [(InToken, ''in''), (OpenParToken, ''('')]
      | NotIn \<Rightarrow> [(NotInToken, ''notin''), (OpenParToken, ''('')]
      | GreaterThan \<Rightarrow> [(GreaterThanToken, ''>'')] | LessThan \<Rightarrow> [(LessThanToken, ''<'')]
      | Exists \<Rightarrow> [] | DoesNotExist \<Rightarrow> [])"

definition req_items :: "requirement \<Rightarrow> scanned list" where
  "req_items r =
     (let op = roperator r in
      (if op = DoesNotExist then [(DoesNotExistToken, ''!'')] else []) @ id_item (rkey r) # operator_items op @
      list_items (sort (rvalues r)) @ (if op \<in> {In, NotIn} then [(ClosedParToken, '')'')] else []))"

definition ends :: "string \<Rightarrow> bool" where
  "ends rest \<longleftrightarrow> rest = [] \<or> hd rest \<in> set '',)''"

lemma ends_stops: "ends rest \<Longrightarrow> stops rest"
  by (auto simp: ends_def stops_def id_char_iff stopping_def)

lemma ends_simps [simp]: "ends []" "ends (CHR '','' # r)" "ends (CHR '')'' # r)"
  by (simp_all add: ends_def)

lemma plain_next_ident: "list_all id_char v \<Longrightarrow> ends rest \<Longrightarrow> plain_next (v @ rest)"
  by (cases v) (auto simp: plain_next_def ends_def id_char_iff stopping_def)

lemma plain_next_join: "list_all (list_all id_char) vs \<Longrightarrow> ends rest \<Longrightarrow> plain_next (join '','' vs @ rest)"
  by (cases "('','', vs)" rule: join.cases) (auto simp: plain_next_ident intro: plain_next_ident [of "[]", simplified])

lemmas scan_comma = scan_symbol [of "CHR '',''" CommaToken, simplified]
lemmas scan_open = scan_symbol [of "CHR ''(''" OpenParToken, simplified]
lemmas scan_close = scan_symbol [of "CHR '')''" ClosedParToken, simplified]
lemmas scan_bang = scan_symbol [of "CHR ''!''" DoesNotExistToken, simplified]
lemmas scan_equals = scan_symbol [of "CHR ''=''" EqualsToken, simplified]
lemmas scan_greater = scan_symbol [of "CHR ''>''" GreaterThanToken, simplified]
lemmas scan_less = scan_symbol [of "CHR ''<''" LessThanToken, simplified]
lemmas scan_double = scan_two [of "CHR ''=''" DoubleEqualsToken, simplified]
lemmas scan_not_equals = scan_two [of "CHR ''!''" NotEqualsToken, simplified]

lemma scan_list:
  "list_all (list_all id_char) vs \<Longrightarrow> ends rest \<Longrightarrow> scan (join '','' vs @ rest) = list_items vs @ scan rest"
proof (induction vs rule: list_items.induct)
  case (2 v)
  then show ?case using scan_ident [of v rest] ends_stops by simp
next
  case (3 v w vs)
  let ?r = "join '','' (w # vs) @ rest"
  have "scan (v @ CHR '','' # ?r) = (if v = [] then [] else [id_item v]) @ scan (CHR '','' # ?r)"
    using 3 scan_ident [of v "CHR '','' # ?r"] ends_stops by simp
  moreover have "scan (CHR '','' # ?r) = (CommaToken, '','') # scan ?r"
    using 3 plain_next_join [of "w # vs" rest] by (intro scan_comma) simp
  ultimately show ?case using 3 by simp
qed simp

lemma scan_word:
  "scan (CHR ''i'' # CHR ''n'' # CHR '' '' # s) = (InToken, ''in'') # scan s"
  "scan (CHR ''n'' # CHR ''o'' # CHR ''t'' # CHR ''i'' # CHR ''n'' # CHR '' '' # s) = (NotInToken, ''notin'') # scan s"
proof -
  have st: "stops (CHR '' '' # s)" by (simp add: stops_def id_char_iff stopping_def)
  have i: "list_all id_char ''in''" "list_all id_char ''notin''" by code_simp+
  show "scan (CHR ''i'' # CHR ''n'' # CHR '' '' # s) = (InToken, ''in'') # scan s"
    using scan_ident [OF _ i(1) st] by (simp add: id_item_def string2token_def)
  show "scan (CHR ''n'' # CHR ''o'' # CHR ''t'' # CHR ''i'' # CHR ''n'' # CHR '' '' # s) = (NotInToken, ''notin'') # scan s"
    using scan_ident [OF _ i(2) st] by (simp add: id_item_def string2token_def)
qed

text \<open>Requirements that the package lets through, with at most one empty value among several.\<close>

definition wf_requirement :: "requirement \<Rightarrow> bool" where
  "wf_requirement r \<longleftrightarrow>
     NewRequirement (rkey r) (roperator r) (rvalues r) = Inr r \<and> length (filter (\<lambda>v. v = []) (rvalues r)) \<le> 1"

lemma NewRequirement_Inr:
  "NewRequirement key op vals = Inr r \<Longrightarrow>
   r = \<lparr>rkey = key, roperator = op, rvalues = vals\<rparr> \<and> IsQualifiedName key \<and> list_all IsValidLabelValue vals"
  by (simp add: NewRequirement_def split: if_splits)

lemma wf_requirement_chars:
  assumes "wf_requirement r"
  shows "rkey r \<noteq> []" "list_all id_char (rkey r)" "list_all (list_all id_char) (sort (rvalues r))"
  using assms NewRequirement_Inr [of "rkey r" "roperator r" "rvalues r" r] IsQualifiedName_chars [of "rkey r"]
    IsValidLabelValue_chars by (auto simp: wf_requirement_def list_all_iff)

lemma scan_requirement:
  assumes "wf_requirement r" "ends rest"
  shows "scan (requirement_string r @ rest) = req_items r @ scan rest"
proof -
  note c = wf_requirement_chars [OF assms(1)]
  have k: "scan (rkey r @ t) = id_item (rkey r) # scan t" if "stops t" for t
    using scan_ident [OF c(1,2) that] .
  have st: "stops (CHR ''='' # t)" "stops (CHR ''!'' # t)" "stops (CHR '' '' # t)" "stops (CHR ''>'' # t)" "stops (CHR ''<'' # t)" for t
    by (simp_all add: stops_def id_char_iff stopping_def)
  note vs = scan_list [OF c(3)] plain_next_join [OF c(3)]
  have p: "plain_next rest" using assms(2) plain_next_ident [of "[]" rest] by simp
  have "roperator r \<in> {Exists, DoesNotExist} \<Longrightarrow> rvalues r = []"
    using assms(1) by (auto simp: wf_requirement_def NewRequirement_def split: if_splits)
  then show ?thesis
    using assms(2) ends_stops [OF assms(2)] p plain_next_ident [OF c(2) assms(2)]
    by (cases "roperator r")
      (simp_all add: requirement_string_def operator_text_def req_items_def operator_items_def Let_def k st vs
        scan_open scan_close scan_bang scan_equals scan_greater scan_less scan_double scan_not_equals scan_word)
qed

fun selector_items :: "requirement list \<Rightarrow> scanned list" where
  "selector_items [] = []"
| "selector_items [r] = req_items r"
| "selector_items (r # q # rs) = req_items r @ (CommaToken, '','') # selector_items (q # rs)"

lemma plain_next_requirement: "wf_requirement r \<Longrightarrow> plain_next (requirement_string r @ t)"
  using wf_requirement_chars [of r]
  by (cases "rkey r") (auto simp: requirement_string_def Let_def plain_next_def id_char_iff stopping_def)

lemma scan_selector:
  "list_all wf_requirement rs \<Longrightarrow>
   scan (join '','' (map requirement_string rs)) = selector_items rs @ [(EndOfStringToken, [])]"
proof (induction rs rule: selector_items.induct)
  case (2 r)
  then show ?case using scan_requirement [of r "[]"] by simp
next
  case (3 r q rs)
  have "plain_next (join '','' (map requirement_string (q # rs)))"
    using 3(2) plain_next_requirement [of q] plain_next_requirement [of q "[]"] by (cases rs) simp_all
  then show ?case using 3 scan_requirement [of r] by (simp add: scan_comma)
qed simp

section \<open>Parsing a written selector\<close>

lemma id_item_value: "w \<noteq> [] \<Longrightarrow> list_all id_char w \<Longrightarrow> in_context Values (id_item w) = (IdentifierToken, w)"
proof -
  assume w: "w \<noteq> []" "list_all id_char w"
  have "list_all (\<lambda>(k, t). list_all id_char k \<longrightarrow> t \<in> {InToken, NotInToken}) string2token" by code_simp
  then have "t \<in> {InToken, NotInToken}" if "map_of string2token w = Some t" for t
    using map_of_SomeD [OF that] w(2) unfolding list_all_iff [of _ string2token] by auto
  then show ?thesis by (auto simp: id_item_def in_context_def split: option.split)
qed

lemma in_context_other [simp]:
  "in_context ctx (CommaToken, l) = (CommaToken, l)" "in_context ctx (ClosedParToken, l) = (ClosedParToken, l)"
  "in_context ctx (OpenParToken, l) = (OpenParToken, l)" "in_context ctx (EndOfStringToken, l) = (EndOfStringToken, l)"
  "in_context ctx (DoesNotExistToken, l) = (DoesNotExistToken, l)"
  "in_context KeyAndOperator item = item"
  by (simp_all add: in_context_def)

lemma lookahead_Cons [simp]: "lookahead ctx (item # items) = Inr (in_context ctx item)"
  by (simp add: lookahead_def)

lemma consume_Cons [simp]: "consume ctx (item # items) = Inr (in_context ctx item, items)"
  by (simp add: consume_def)

definition word :: "string \<Rightarrow> bool" where
  "word w \<longleftrightarrow> w \<noteq> [] \<and> list_all id_char w"

lemma insert_str_ne [simp]: "insert_str v s \<noteq> []"
  by (auto simp: insert_str_def)

lemma parse_names:
  "ws \<noteq> [] \<Longrightarrow> list_all word ws \<Longrightarrow>
   parseIdentifiersList s (list_items ws @ (ClosedParToken, l) # rest) =
     Inr (fold insert_str ws s, (ClosedParToken, l) # rest)"
proof (induction ws arbitrary: s rule: list_items.induct)
  case (2 v)
  then show ?case by (simp add: word_def id_item_value)
next
  case (3 v w vs)
  then have nv: "v \<noteq> []" "in_context Values (id_item v) = (IdentifierToken, v)" by (simp_all add: word_def id_item_value)
  obtain items where w: "list_items (w # vs) = id_item w # items" using 3(3) by (cases vs) (simp_all add: word_def)
  have "in_context Values (id_item w) = (IdentifierToken, w)" using 3(3) by (simp add: word_def id_item_value)
  with 3 nv w show ?case by simp
qed simp

lemma fold_insert_str: "distinct s \<Longrightarrow> distinct (fold insert_str ws s) \<and> set (fold insert_str ws s) = set s \<union> set ws"
  by (induction ws arbitrary: s) (auto simp: insert_str_def)

lemma sort_same_set: "distinct u \<Longrightarrow> set u = set (vs :: string list) \<Longrightarrow> sort u = sort (remdups vs)"
  by (rule sorted_distinct_set_unique) simp_all

lemma sorted_values:
  assumes "sorted vs" "length (filter (\<lambda>v. v = []) vs) \<le> 1" "vs \<noteq> []"
  shows "vs = [[]] \<or> (\<exists>ws. vs = [] # ws \<and> ws \<noteq> [] \<and> [] \<notin> set ws) \<or> ([] :: string) \<notin> set vs"
proof (cases vs)
  case (Cons v ws)
  show ?thesis
  proof (cases "v = []")
    case True
    then have "filter (\<lambda>v. v = []) ws = []" using assms(2) Cons by simp
    then show ?thesis using Cons True by (auto simp: filter_empty_conv)
  next
    case False
    then have "\<forall>w \<in> set ws. w \<noteq> []" using assms(1) Cons by auto
    then show ?thesis using Cons False by auto
  qed
qed (use assms(3) in simp)

lemma parseValues_items:
  assumes "sorted vs" "length (filter (\<lambda>v. v = []) vs) \<le> 1" "vs \<noteq> []" "list_all (list_all id_char) vs"
  obtains u where "parseValues ((OpenParToken, l) # list_items vs @ (ClosedParToken, l') # rest) = Inr (u, rest)"
    "sort u = sort (remdups vs)"
  using sorted_values [OF assms(1-3)]
proof (elim disjE exE conjE)
  assume "vs = [[]]"
  then show thesis by (intro that [of "[[]]"]) (simp_all add: parseValues_def insert_str_def)
next
  fix ws
  assume ws: "vs = [] # ws" "ws \<noteq> []" "[] \<notin> set ws"
  then obtain w ws' where w: "ws = w # ws'" by (cases ws) auto
  have names: "list_all word ws" using assms(4) ws(1,3) by (auto simp: list_all_iff word_def)
  then obtain items where "list_items ws = id_item w # items" "in_context Values (id_item w) = (IdentifierToken, w)"
    using w by (cases ws') (simp_all add: word_def id_item_value)
  with parse_names [OF ws(2) names] show thesis
    by (intro that [of "fold insert_str ws [[]]"] sort_same_set)
      (use fold_insert_str [of "[[]]" ws] ws w in \<open>simp_all add: parseValues_def insert_str_def insert_commute\<close>)
next
  assume ne: "[] \<notin> set vs"
  obtain w ws' where w: "vs = w # ws'" using assms(3) by (cases vs) auto
  have names: "list_all word vs" using assms(4) ne by (auto simp: list_all_iff word_def)
  then obtain items where "list_items vs = id_item w # items" "in_context Values (id_item w) = (IdentifierToken, w)"
    using w by (cases ws') (simp_all add: word_def id_item_value)
  with parse_names [OF assms(3) names] show thesis
    by (intro that [of "fold insert_str vs []"] sort_same_set)
      (use fold_insert_str [of "[]" vs] in \<open>simp_all add: parseValues_def\<close>)
qed

text \<open>What the parser makes of a requirement: its values as a sorted set.\<close>

definition normal :: "requirement \<Rightarrow> requirement" where
  "normal r = r\<lparr>rvalues := sort (remdups (rvalues r))\<rparr>"

lemma normal_simps [simp]:
  "rkey (normal r) = rkey r" "roperator (normal r) = roperator r" "rvalues (normal r) = sort (remdups (rvalues r))"
  by (simp_all add: normal_def)

lemma sort_Nil_iff: "sort (xs :: string list) = [] \<longleftrightarrow> xs = []"
  by (metis set_empty set_sort)

lemma NewRequirement_normal:
  assumes "NewRequirement key op vals = Inr r"
  shows "NewRequirement key op (sort (remdups vals)) = Inr (normal r)"
proof -
  have l: "length (sort (remdups vals)) = 1 \<and> sort (remdups vals) = vals" if "length vals = 1"
    using that by (cases vals) auto
  have s: "list_all P (sort (remdups vals)) = list_all P vals" "sort (remdups vals) = [] \<longleftrightarrow> vals = []" for P
    by (simp_all add: list_all_iff sort_Nil_iff)
  show ?thesis using assms l by (auto simp: NewRequirement_def s normal_def split: if_splits)
qed

lemma parseExactValue_item:
  assumes "list_all id_char v" "rest = (t, l) # rest'" "t \<in> {EndOfStringToken, CommaToken}"
  shows "parseExactValue (list_items [v] @ rest) = Inr ([v], rest)"
  using assms id_item_value [of v] by (auto simp: parseExactValue_def insert_str_def)

lemma parseKey_items:
  assumes "IsQualifiedName k" "rest = (t, l) # rest'"
  shows "parseKeyAndInferOperator (id_item k # rest) =
      Inr ((k, if t \<in> {EndOfStringToken, CommaToken} then Some Exists else None), rest)"
    and "parseKeyAndInferOperator ((DoesNotExistToken, l') # id_item k # rest) = Inr ((k, Some DoesNotExist), rest)"
  using assms id_item_value [OF IsQualifiedName_chars [OF assms(1)]]
  by (auto simp: parseKeyAndInferOperator_def in_context_def)

lemma parseRequirement_items:
  assumes wf: "wf_requirement r" and rest: "rest = (t, l) # rest'" "t \<in> {EndOfStringToken, CommaToken}"
  shows "parseRequirement (req_items r @ rest) = Inr (normal r, rest)"
proof -
  let ?vs = "sort (rvalues r)"
  have new: "NewRequirement (rkey r) (roperator r) (rvalues r) = Inr r"
    and one: "length (filter (\<lambda>v. v = []) (rvalues r)) \<le> 1" using wf by (auto simp: wf_requirement_def)
  have q: "IsQualifiedName (rkey r)" using NewRequirement_Inr [OF new] by simp
  have norm: "NewRequirement (rkey r) (roperator r) (sort (remdups (rvalues r))) = Inr (normal r)"
    using NewRequirement_normal [OF new] .
  have vs: "sorted ?vs" "length (filter (\<lambda>v. v = []) ?vs) \<le> 1" "list_all (list_all id_char) ?vs"
    using one wf_requirement_chars(3) [OF wf] by (simp_all add: filter_sort)
  have srt: "sort (remdups ?vs) = sort (remdups (rvalues r))" by (rule sorted_distinct_set_unique) simp_all
  have single: "\<exists>v. rvalues r = [v]" if "roperator r \<notin> {In, NotIn, Exists, DoesNotExist}"
    using new that by (auto simp: NewRequirement_def length_Suc_conv split: if_splits)
  have many: "?vs \<noteq> []" if "roperator r \<in> {In, NotIn}"
    using new that sort_Nil_iff [of "rvalues r"] by (auto simp: NewRequirement_def split: if_splits)
  have none: "rvalues r = []" if "roperator r \<in> {Exists, DoesNotExist}"
    using new that by (auto simp: NewRequirement_def split: if_splits)
  note key = parseKey_items [OF q]
  consider (set) "roperator r \<in> {In, NotIn}" | (unary) "roperator r \<in> {Exists, DoesNotExist}"
    | (exact) "roperator r \<notin> {In, NotIn, Exists, DoesNotExist}" by blast
  then show ?thesis
  proof cases
    case set
    obtain u where "parseValues ((OpenParToken, ''('') # list_items ?vs @ (ClosedParToken, '')'') # rest) = Inr (u, rest)"
      "sort u = sort (remdups (rvalues r))"
      using parseValues_items [OF vs(1,2) many [OF set] vs(3)] srt by metis
    then show ?thesis using set norm
      by (auto simp: parseRequirement_def req_items_def operator_items_def key parseOperator_def)
  next
    case unary
    then show ?thesis using none norm rest
      by (auto simp: parseRequirement_def req_items_def operator_items_def key)
  next
    case exact
    then obtain v where v: "rvalues r = [v]" using single by blast
    have "parseExactValue (list_items [v] @ rest) = Inr ([v], rest)"
      using parseExactValue_item [OF _ rest] vs(3) v by simp
    with exact v norm show ?thesis
      by (cases "roperator r") (simp_all add: parseRequirement_def req_items_def operator_items_def key parseOperator_def Let_def)
  qed
qed

lemma req_items_head:
  "wf_requirement r \<Longrightarrow> \<exists>item rest. req_items r = item # rest \<and> starts_requirement (fst (in_context Values item))"
  using id_item_value [of "rkey r"] wf_requirement_chars [of r]
  by (cases "roperator r = DoesNotExist") (auto simp: req_items_def Let_def starts_requirement_def)

lemma selector_items_head:
  "wf_requirement r \<Longrightarrow> \<exists>item rest. selector_items (r # rs) = item # rest \<and> starts_requirement (fst (in_context Values item))"
  using req_items_head [of r] by (cases rs) auto

lemma not_starting [simp]: "\<not> starts_requirement EndOfStringToken"
  by (simp add: starts_requirement_def)

lemma parse_loop_step:
  assumes "wf_requirement r" "t \<in> {EndOfStringToken, CommaToken}"
  shows "parse_loop acc (req_items r @ (t, l) # rest) =
    (if t = EndOfStringToken then Inr (acc @ [normal r])
     else case lookahead Values rest of
        Inl e \<Rightarrow> Inl e
      | Inr (t2, l2) \<Rightarrow>
          if \<not> starts_requirement t2 then found l2 ('', expected: identifier after ','' @ [CHR 0x27])
          else parse_loop (acc @ [normal r]) rest)"
proof -
  obtain item items where h: "req_items r = item # items" "starts_requirement (fst (in_context Values item))"
    using req_items_head [OF assms(1)] by blast
  have p: "parseRequirement (req_items r @ (t, l) # rest) = Inr (normal r, (t, l) # rest)"
    by (rule parseRequirement_items [OF assms(1) refl assms(2)])
  show ?thesis using assms(2) h p
    by (subst parse_loop.simps) (auto split: prod.split)
qed

lemma parse_loop_items:
  "list_all wf_requirement rs \<Longrightarrow> parse_loop acc (selector_items rs @ [(EndOfStringToken, [])]) = Inr (acc @ map normal rs)"
proof (induction rs arbitrary: acc rule: selector_items.induct)
  case 1
  show ?case by (subst parse_loop.simps) simp
next
  case (2 r)
  then show ?case using parse_loop_step [of r EndOfStringToken] by simp
next
  case (3 r q rs)
  then obtain item items where "selector_items (q # rs) = item # items" "starts_requirement (fst (in_context Values item))"
    using selector_items_head [of q rs] by auto
  then show ?case using 3 parse_loop_step [of r CommaToken acc "'',''" "selector_items (q # rs) @ [(EndOfStringToken, [])]"]
    by (auto split: prod.split)
qed

text \<open>The text of any list of valid requirements is accepted, and stands for them, sorted by key.\<close>

lemma Parse_text:
  "list_all wf_requirement rs \<Longrightarrow> Parse srt (join '','' (map requirement_string rs)) = Inr (srt (map normal rs))"
  by (simp add: Parse_def scan_selector parse_loop_items)

lemma Parse_Nil: "sorts_by_key srt \<Longrightarrow> Parse srt [] = Inr []"
  using Parse_text [of "[]" srt] sorts_by_keyD(1) [of srt "[]"] by simp

section \<open>What the parser accepts\<close>

text \<open>The tokens end with the end of the text, and a part that leaves it unread leaves tokens that do.\<close>

definition ended :: "scanned list \<Rightarrow> bool" where
  "ended items \<longleftrightarrow> items \<noteq> [] \<and> fst (last items) = EndOfStringToken"

definition parsed :: "('a \<Rightarrow> bool) \<Rightarrow> ('a \<times> scanned list) res \<Rightarrow> bool" where
  "parsed P r \<longleftrightarrow> (case r of Inl e \<Rightarrow> \<exists>m. e = Err m | Inr (x, rest) \<Rightarrow> P x \<and> ended rest)"

lemma parsed_simps [simp]: "parsed P (Inr (x, rest)) \<longleftrightarrow> P x \<and> ended rest" "parsed P (found l w)" "parsed P (Inl (Err m))"
  by (auto simp: parsed_def found_def)

lemma ended_Cons: "ended (item # rest) \<Longrightarrow> fst item = EndOfStringToken \<or> ended rest"
  by (auto simp: ended_def split: if_splits)

lemma in_context_end: "fst (in_context ctx item) = EndOfStringToken \<longleftrightarrow> fst item = EndOfStringToken"
  by (auto simp: in_context_def)

lemma endedE:
  assumes "ended items"
  obtains item rest where "items = item # rest" "fst item = EndOfStringToken \<or> ended rest"
  using assms ended_Cons by (cases items) (auto simp: ended_def)

lemma scan_ended: "ended (scan s)"
proof (induction s rule: scan.induct)
  case (1 s)
  then show ?case by (subst scan.simps) (auto simp: ended_def Let_def split: prod.split)
qed

lemma parsed_names: "ended items \<Longrightarrow> distinct s \<Longrightarrow> parsed distinct (parseIdentifiersList s items)"
proof (induction "length items" arbitrary: s items rule: less_induct)
  case less
  obtain item rest where i: "items = item # rest" "fst item = EndOfStringToken \<or> ended rest" using endedE [OF less.prems(1)] .
  obtain tok lit where c: "in_context Values item = (tok, lit)" by (cases "in_context Values item")
  show ?case
  proof (cases "tok = EndOfStringToken")
    case False
    then have rest: "ended rest" using i(2) in_context_end [of Values item] c by simp
    obtain item2 rest2 where r: "rest = item2 # rest2" "fst item2 = EndOfStringToken \<or> ended rest2" using endedE [OF rest] .
    obtain tok2 lit2 where c2: "in_context Values item2 = (tok2, lit2)" by (cases "in_context Values item2")
    have d: "distinct (insert_str v u)" if "distinct u" for v u using that by (simp add: insert_str_def)
    have IH: "parsed distinct (parseIdentifiersList u rest)" "ended rest2 \<Longrightarrow> parsed distinct (parseIdentifiersList u rest2)"
      if "distinct u" for u using less.hyps [of rest u] less.hyps [of rest2 u] that rest i(1) r(1) by auto
    have comma: "tok2 = CommaToken \<Longrightarrow> ended rest2" using r(2) in_context_end [of Values item2] c2 by auto
    have look: "lookahead Values rest = Inr (tok2, lit2)" "tl rest = rest2" by (simp_all add: r(1) c2)
    show ?thesis unfolding i(1) parseIdentifiersList.simps c look
      using rest d IH comma less.prems(2) by (simp add: look del: parseIdentifiersList.simps)
  qed (simp add: i(1) c)
qed

lemma parsed_lookahead:
  "ended items \<Longrightarrow> (\<And>item. lookahead ctx items = Inr item \<Longrightarrow> parsed P (k item)) \<Longrightarrow> parsed P (and_then (lookahead ctx items) k)"
  by (elim endedE) simp

lemma lookahead_hd: "items \<noteq> [] \<Longrightarrow> lookahead ctx items = Inr (in_context ctx (hd items))"
  by (cases items) simp_all

lemma parsed_and_then:
  "parsed Q m \<Longrightarrow> (\<And>x rest. m = Inr (x, rest) \<Longrightarrow> Q x \<Longrightarrow> ended rest \<Longrightarrow> parsed P (k (x, rest))) \<Longrightarrow> parsed P (and_then m k)"
  by (cases m) (auto simp: parsed_def)

text \<open>A token that is read is the end of the text, or leaves tokens that end.\<close>

lemma parsed_consume:
  assumes "ended items"
    and "\<And>tok lit rest. tok = EndOfStringToken \<or> ended rest \<Longrightarrow> items \<noteq> [] \<Longrightarrow> in_context ctx (hd items) = (tok, lit) \<Longrightarrow>
      parsed P (k ((tok, lit), rest))"
  shows "parsed P (and_then (consume ctx items) k)"
proof -
  obtain item rest where i: "items = item # rest" "fst item = EndOfStringToken \<or> ended rest" using endedE [OF assms(1)] .
  obtain tok lit where c: "in_context ctx item = (tok, lit)" by (cases "in_context ctx item")
  then have "tok = EndOfStringToken \<or> ended rest" using i(2) in_context_end [of ctx item] by simp
  then show ?thesis using assms(2) [of tok rest lit] i(1) c by simp
qed

lemma parsed_values: "ended items \<Longrightarrow> parsed distinct (parseValues items)"
  unfolding parseValues_def
  by (rule parsed_consume, assumption)
    (auto intro!: parsed_lookahead parsed_and_then [OF parsed_names] parsed_consume
      simp: insert_str_def lookahead_hd split: if_splits)

lemma parsed_exact: "ended items \<Longrightarrow> parsed distinct (parseExactValue items)"
  unfolding parseExactValue_def
  by (auto intro!: parsed_lookahead parsed_consume simp: insert_str_def)

lemma parsed_operator: "ended items \<Longrightarrow> parsed (\<lambda>op. op \<notin> {Exists, DoesNotExist}) (parseOperator items)"
  unfolding parseOperator_def
  by (rule parsed_consume, assumption) (auto split: token.split)

lemma parsed_key: "ended items \<Longrightarrow> parsed (\<lambda>_. True) (parseKeyAndInferOperator items)"
  unfolding parseKeyAndInferOperator_def
proof (rule parsed_consume, assumption, simp only: prod.case fst_conv)
  fix tok lit rest
  assume "tok = EndOfStringToken \<or> ended rest"
  then show "parsed (\<lambda>_. True) (and_then
      (if tok = DoesNotExistToken then and_then (consume Values rest) (\<lambda>(item', rest'). Inr (item', Some DoesNotExist, rest'))
       else Inr ((tok, lit), None, rest))
      (\<lambda>((tok, literal), op, rest).
        if tok \<noteq> IdentifierToken then found literal '', expected: identifier''
        else if \<not> IsQualifiedName literal then Inl (Err ''invalid label key'')
        else and_then (lookahead Values rest) (\<lambda>(t, _).
          Inr ((literal, if (t = EndOfStringToken \<or> t = CommaToken) \<and> op \<noteq> Some DoesNotExist then Some Exists else op), rest))))"
    by (cases "tok = DoesNotExistToken") (auto simp: and_then_assoc intro!: parsed_consume parsed_lookahead)
qed

text \<open>A requirement that is returned is valid, and its values are a sorted set.\<close>

definition canonical :: "requirement \<Rightarrow> bool" where
  "canonical r \<longleftrightarrow> wf_requirement r \<and> normal r = r"

lemma NewRequirement_canonical:
  assumes "NewRequirement key op vals = Inr r" "distinct vals" "sorted vals"
  shows "canonical r"
proof -
  have r: "r = \<lparr>rkey = key, roperator = op, rvalues = vals\<rparr>" using NewRequirement_Inr [OF assms(1)] by simp
  have "length (filter (\<lambda>v. v = []) vals) = card (set (filter (\<lambda>v. v = []) vals))"
    using distinct_card [of "filter (\<lambda>v. v = []) vals"] assms(2) by simp
  also have "\<dots> \<le> card {[] :: string}" by (rule card_mono) auto
  finally have one: "length (filter (\<lambda>v. v = []) vals) \<le> 1" by simp
  have "sort (remdups vals) = vals" using assms(2,3) by (simp add: distinct_remdups_id sorted_sort_id)
  with assms(1) r one show ?thesis by (simp add: canonical_def wf_requirement_def normal_def)
qed

lemma parsed_new:
  assumes "distinct vals" "ended rest"
  shows "parsed canonical (and_then (NewRequirement key op (sort vals)) (\<lambda>r. Inr (r, rest)))"
proof (cases "NewRequirement key op (sort vals)")
  case (Inl e)
  then show ?thesis by (auto simp: NewRequirement_def split: if_splits)
next
  case (Inr r)
  with NewRequirement_canonical [OF Inr] assms show ?thesis by simp
qed

lemma parsed_part: "ended items \<Longrightarrow> parsed distinct (if b then parseValues items else parseExactValue items)"
  by (simp add: parsed_values parsed_exact)

lemma parsed_requirement: "ended items \<Longrightarrow> parsed canonical (parseRequirement items)"
  unfolding parseRequirement_def
  using parsed_new [of "[]", simplified] parsed_new
  by (auto intro!: parsed_and_then [OF parsed_key] parsed_and_then [OF parsed_operator]
      parsed_and_then [OF parsed_part])

lemma parse_loop_result:
  "ended items \<Longrightarrow> list_all canonical reqs \<Longrightarrow>
   case parse_loop reqs items of Inl e \<Rightarrow> \<exists>m. e = Err m | Inr rs \<Rightarrow> list_all canonical rs"
proof (induction "length items" arbitrary: reqs items rule: less_induct)
  case less
  obtain item rest where i: "items = item # rest" using endedE [OF less.prems(1)] .
  obtain tok lit where c: "in_context Values item = (tok, lit)" by (cases "in_context Values item")
  show ?case
  proof (cases "parseRequirement items")
    case (Inl e)
    then obtain m where "e = Err m" using parsed_requirement [OF less.prems(1)] by (auto simp: parsed_def)
    with Inl less.prems c i show ?thesis
      by (subst parse_loop.simps) (auto simp: explain_def found_def)
  next
    case (Inr p)
    then obtain r rest1 where p: "parseRequirement items = Inr (r, rest1)" by (cases p) auto
    then have r: "canonical r" "ended rest1" using parsed_requirement [OF less.prems(1)] by simp_all
    obtain item2 rest2 where i2: "rest1 = item2 # rest2" "fst item2 = EndOfStringToken \<or> ended rest2" using endedE [OF r(2)] .
    obtain tok2 lit2 where c2: "in_context Values item2 = (tok2, lit2)" by (cases "in_context Values item2")
    have l: "length rest2 < length items" using parseRequirement_rest [OF p] i2(1) by simp
    have e2: "tok2 \<noteq> EndOfStringToken \<Longrightarrow> ended rest2" using i2(2) in_context_end [of Values item2] c2 by simp
    have IH: "tok2 \<noteq> EndOfStringToken \<Longrightarrow> case parse_loop (reqs @ [r]) rest2 of Inl e \<Rightarrow> \<exists>m. e = Err m | Inr rs \<Rightarrow> list_all canonical rs"
      using less.hyps [OF l e2] less.prems(2) r(1) by simp
    show ?thesis
    proof (cases "tok2 = CommaToken")
      case True
      then obtain item3 rest3 where i3: "rest2 = item3 # rest3" using e2 by (cases rest2) (auto simp: ended_def)
      obtain tok3 lit3 where c3: "in_context Values item3 = (tok3, lit3)" by (cases "in_context Values item3")
      have "lookahead Values rest2 = Inr (tok3, lit3)" by (simp add: i3 c3)
      with True IH less.prems c i c2 p i2(1) show ?thesis
        by (subst parse_loop.simps) (auto simp: explain_def found_def)
    next
      case False
      with less.prems c i c2 p i2(1) r(1) show ?thesis
        by (subst parse_loop.simps) (auto simp: explain_def found_def)
    qed
  qed
qed

section \<open>Properties\<close>

lemma canonical_text: "list_all canonical rs \<Longrightarrow> Parse srt (selector_string rs) = Inr (srt rs)"
proof -
  assume c: "list_all canonical rs"
  then have "map normal rs = rs" by (auto simp: list_all_iff canonical_def intro: map_idI)
  moreover have "list_all wf_requirement rs" using c by (simp add: list_all_iff canonical_def)
  ultimately show ?thesis using Parse_text [of rs srt] by (simp add: selector_string_def)
qed

lemma Parse_canonical:
  assumes "sorts_by_key srt" "Parse srt s = Inr sel"
  shows "list_all canonical sel" "sorted (map rkey sel)"
proof -
  obtain reqs where r: "parse_loop [] (scan s) = Inr reqs" "sel = srt reqs"
    using assms(2) by (auto simp: Parse_def and_then_eq_Inr)
  then have "list_all canonical reqs" using parse_loop_result [OF scan_ended, of "[]" s] by simp
  with r(2) sorts_by_keyD [OF assms(1)] show "list_all canonical sel" "sorted (map rkey sel)" by (simp_all add: list_all_iff)
qed

text \<open>What parsing the printed text of a parsed selector gives.\<close>

lemma Parse_again:
  assumes "sorts_by_key srt" "Parse srt s = Inr sel"
  shows "Parse srt (selector_string sel) = Inr (srt sel)" "mset (srt sel) = mset sel" "distinct (map rkey sel) \<Longrightarrow> srt sel = sel"
proof -
  show "Parse srt (selector_string sel) = Inr (srt sel)" using Parse_canonical(1) [OF assms] by (rule canonical_text)
  show "mset (srt sel) = mset sel" by (rule sorts_by_keyD [OF assms(1)])
  assume "distinct (map rkey sel)"
  from sorts_distinct [OF assms(1) this] Parse_canonical(2) [OF assms] show "srt sel = sel"
    by (simp add: new_selector_def sort_key_id_if_sorted)
qed

text \<open>
  C16. Whatever the text, and however the library's sort treats equal keys, the selector parser returns: an error, or requirements
  sorted by key, and then the text that the selector prints parses to the same requirements, in the same order if no key repeats
  and otherwise up to the order of requirements with equal keys. So the selector that the cost manager parses
  is the one the API server gets from its text. The parser never panics, though it indexes its tokens without a test.
\<close>

theorem Parse_total:
  assumes "sorts_by_key srt"
  shows "case Parse srt s of
     Inl e \<Rightarrow> (\<exists>m. e = Err m)
   | Inr sel \<Rightarrow> sorted (map rkey sel) \<and>
       (\<exists>sel'. Parse srt (selector_string sel) = Inr sel' \<and> mset sel' = mset sel \<and> sorted (map rkey sel') \<and>
         (if distinct (map rkey sel) then sel' = sel else True))"
proof (cases "Parse srt s")
  case (Inl e)
  then have "parse_loop [] (scan s) = Inl e" by (simp add: Parse_def and_then_eq_Inl)
  then show ?thesis using Inl parse_loop_result [OF scan_ended, of "[]" s] by simp
next
  case (Inr sel)
  then show ?thesis using Parse_again [OF assms Inr] Parse_canonical [OF assms Inr] sorts_by_keyD(3) [OF assms] by simp
qed

text \<open>A sort that is not stable: it reverses first. The order of the two requirements on \<open>a\<close> changes each time the text is parsed.\<close>

definition unstable_sort :: requirement_sort where
  "unstable_sort rs = sort_key rkey (rev rs)"

theorem Parse_total_witness:
  "\<exists>sel sel'. Parse unstable_sort ''b=1,a=2,a!=3'' = Inr sel \<and> Parse unstable_sort (selector_string sel) = Inr sel' \<and>
     mset sel' = mset sel \<and> sel' \<noteq> sel"
proof -
  have srt: "sorts_by_key unstable_sort" by (simp add: sorts_by_key_def unstable_sort_def)
  obtain sel where sel: "Parse unstable_sort ''b=1,a=2,a!=3'' = Inr sel"
    "case Parse unstable_sort (selector_string sel) of Inl _ \<Rightarrow> True | Inr sel' \<Rightarrow> sel' \<noteq> sel"
  proof -
    have "case Parse unstable_sort ''b=1,a=2,a!=3'' of Inl _ \<Rightarrow> False | Inr sel \<Rightarrow>
        (case Parse unstable_sort (selector_string sel) of Inl _ \<Rightarrow> True | Inr sel' \<Rightarrow> sel' \<noteq> sel)"
      by code_simp
    then show thesis using that by (auto split: sum.splits)
  qed
  then show ?thesis using Parse_total [OF srt, of "''b=1,a=2,a!=3''"] by auto
qed

end
