(* ===== verification/Source_Params.thy ===== *)
theory Source_Params
  imports Cost_Metrics Go_JSON
begin

text \<open>
  What the metric sources of the Alibaba Cloud services share: the loop that reads parameters from the
  requirements of a request, the credentials and the choice of an SDK client, the time format of the
  requests, and an integral value. The lemmas reduce a parameter loop to the last requirement given for each key.
\<close>

section \<open>Requirements as parameters\<close>

text \<open>\<open>r.Values().List()[0]\<close>, when the list is not empty: the least of the values.\<close>

definition first_listed :: "requirement \<Rightarrow> string option" where
  "first_listed r = (case sort (remdups (rvalues r)) of [] \<Rightarrow> None | v # _ \<Rightarrow> Some v)"

text \<open>The loop over the requirements: one without values is skipped, any other is handled by its key.\<close>

definition read_params :: "(string \<Rightarrow> string \<Rightarrow> 'p \<Rightarrow> 'p res) \<Rightarrow> requirement list \<Rightarrow> 'p \<Rightarrow> 'p res" where
  "read_params f = each (\<lambda>r p. case first_listed r of None \<Rightarrow> Inr p | Some v \<Rightarrow> f (rkey r) v p)"

text \<open>The value of the last requirement on a key that has one.\<close>

definition given :: "string \<Rightarrow> requirement list \<Rightarrow> string option" where
  "given key reqs =
     fold (\<lambda>r found. case first_listed r of None \<Rightarrow> found | Some v \<Rightarrow> if rkey r = key then Some v else found) reqs None"

lemma given_Nil [simp]: "given key [] = None"
  by (simp add: given_def)

lemma given_snoc [simp]:
  "given key (reqs @ [r]) =
     (case first_listed r of None \<Rightarrow> given key reqs | Some v \<Rightarrow> if rkey r = key then Some v else given key reqs)"
  by (cases "first_listed r") (simp_all add: given_def)

lemma read_params_snoc [simp]:
  "read_params f (reqs @ [r]) p =
     and_then (read_params f reqs p) (\<lambda>p. case first_listed r of None \<Rightarrow> Inr p | Some v \<Rightarrow> f (rkey r) v p)"
proof -
  have "each g [r] = g r" for g :: "requirement \<Rightarrow> 'a \<Rightarrow> 'a res"
  proof
    show "each g [r] x = g r x" for x by (cases "g r x") simp_all
  qed
  then show ?thesis by (simp add: read_params_def each_append)
qed

lemma read_params_Nil [simp]: "read_params f [] p = Inr p"
  by (simp add: read_params_def)

text \<open>A parameter that only the requirements on one key assign holds what the last of them gives.\<close>

lemma read_params_field:
  assumes "read_params f reqs p = Inr q"
    and "\<And>k v p p'. f k v p = Inr p' \<Longrightarrow> get p' = (if k = key then conv v else get p)"
  shows "get q = (case given key reqs of None \<Rightarrow> get p | Some v \<Rightarrow> conv v)"
  using assms(1)
proof (induction reqs arbitrary: q rule: rev_induct)
  case (snoc r reqs)
  then obtain u where u: "read_params f reqs p = Inr u" "(case first_listed r of None \<Rightarrow> Inr u | Some v \<Rightarrow> f (rkey r) v u) = Inr q"
    by (auto simp: and_then_eq_Inr)
  with snoc.IH [OF u(1)] assms(2) show ?case by (cases "first_listed r") auto
qed simp

text \<open>Text and integer parameters; an integer that does not parse is what \<open>Atoi\<close> returns with its error.\<close>

definition given_text :: "string \<Rightarrow> string \<Rightarrow> requirement list \<Rightarrow> string" where
  "given_text key d reqs = (case given key reqs of None \<Rightarrow> d | Some v \<Rightarrow> v)"

definition given_int :: "string \<Rightarrow> int \<Rightarrow> requirement list \<Rightarrow> int" where
  "given_int key d reqs = (case given key reqs of None \<Rightarrow> d | Some v \<Rightarrow> fst (parse_int v))"

lemmas read_params_text = read_params_field [where conv = "\<lambda>v. v", folded given_text_def]
lemmas read_params_int = read_params_field [where conv = "\<lambda>v. fst (parse_int v)", folded given_int_def]

lemma parse_int_in64: "in64 (fst (parse_int s))"
  by (auto simp: parse_int_def in64_def Let_def split: prod.split)

lemma given_int_in64: "in64 d \<Longrightarrow> in64 (given_int key d reqs)"
  by (simp add: given_int_def parse_int_in64 split: option.split)

text \<open>A loop whose handlers cannot fail.\<close>

lemma read_params_total:
  assumes "\<And>k v p. f k v p = Inr (g k v p)"
  obtains q where "read_params f reqs p = Inr q"
proof -
  have "\<exists>q. read_params f reqs p = Inr q"
    by (induction reqs rule: rev_induct) (auto simp: assms split: option.split)
  with that show ?thesis by blast
qed

section \<open>Credentials and clients\<close>

record access_user =
  AccessKeyId :: string
  AccessKeySecret :: string
  SecurityToken :: string
  Expiration :: string
  Keyring :: string
  Region :: string

text \<open>The constructors of a service's client, from a package the program only calls.\<close>

record 'c sdk =
  NewClientWithStsToken :: "string \<Rightarrow> string \<Rightarrow> string \<Rightarrow> string \<Rightarrow> 'c res"
  NewClientWithAccessKey :: "string \<Rightarrow> string \<Rightarrow> string \<Rightarrow> 'c res"

definition sdk_client :: "'c sdk \<Rightarrow> access_user res \<Rightarrow> 'c res" where
  "sdk_client sdk user =
     and_then user (\<lambda>u.
       if has_prefix (AccessKeyId u) ''STS.''
       then NewClientWithStsToken sdk (Region u) (AccessKeyId u) (AccessKeySecret u) (SecurityToken u)
       else NewClientWithAccessKey sdk (Region u) (AccessKeyId u) (AccessKeySecret u))"

section \<open>Times and values\<close>

text \<open>The layout \<open>2006-01-02 15:04:05\<close>.\<close>

definition format_datetime :: "gotime \<Rightarrow> string" where
  "format_datetime t =
     pad 4 (year_of t) @ ''-'' @ pad 2 (month_of t) @ ''-'' @ pad 2 (day_of t) @ '' '' @
     pad 2 (hour_of t) @ '':'' @ pad 2 (minute_of t) @ '':'' @ pad 2 (second_of t)"

text \<open>\<open>-k * time.Duration(n) * time.Second\<close>, multiplied from the left.\<close>

definition back_seconds :: "int \<Rightarrow> int \<Rightarrow> duration" where
  "back_seconds k n = dur_mul (wrap64 (- k * n)) second"

lemma back_seconds_exact: "\<bar>k * n\<bar> \<le> 9223372036 \<Longrightarrow> back_seconds k n = - (k * n) * second"
proof -
  define m where "m = k * n"
  assume "\<bar>k * n\<bar> \<le> 9223372036"
  then have m: "- 9223372036 \<le> m" "m \<le> 9223372036" by (simp_all add: m_def abs_le_iff)
  then have "in64 (- m)" "in64 (- m * second)" by (auto simp: in64_def)
  then show ?thesis by (simp add: back_seconds_def dur_mul_def m_def)
qed

text \<open>\<open>resource.NewQuantity(int64(v), DecimalSI)\<close> at \<open>metav1.Now()\<close>: the quantity in thousandths, without labels.\<close>

definition whole_value :: "gotime \<Rightarrow> string \<Rightarrow> f64 \<Rightarrow> external_value" where
  "whole_value now name v =
     \<lparr>MetricName = name, MetricLabels = Map.empty, Timestamp = ns now div millisecond, MilliValue = 1000 * trunc64 v\<rparr>"

lemma carries_whole_value [simp]: "carries n (whole_value now name v) \<longleftrightarrow> name = n"
  by (simp add: carries_def whole_value_def)

text \<open>\<open>utils.JudgeWithPeriod\<close>\<close>

definition JudgeWithPeriod :: "gotime \<Rightarrow> gotime \<Rightarrow> int \<Rightarrow> unit res" where
  "JudgeWithPeriod startTime endTime period =
     (if wrap64 (unix_sec endTime - unix_sec startTime) < period
      then Inl (Err ''Pls make sure that starttime minus endtime is greater than period.'') else Inr ())"

lemma time_add_add: "time_add (time_add t a) b = time_add t (a + b)"
  by (simp add: time_add_def)

lemma unix_sec_add: "unix_sec (time_add t (n * second)) = unix_sec t + n"
  by (simp add: unix_sec_def time_add_def)

text \<open>
  The client of the cloud monitoring service, as far as two of the sources use it: the points of a
  metric, and the groups of a name. The page size and the contact groups of the second request are fixed.
\<close>

record cms_request =
  reqNamespace :: string
  reqMetricName :: string
  reqStartTime :: string
  reqEndTime :: string
  reqDimensions :: string

record cms_response =
  Success :: bool
  Datapoints :: string

record cms_groups =
  groupsSuccess :: bool
  Total :: int
  GroupIds :: "int list"

record cms_client =
  DescribeMetricList :: "cms_request \<Rightarrow> cms_response res"
  DescribeMonitorGroups :: "string \<Rightarrow> cms_groups res"

text \<open>
  A list of points as a service writes it: each has a time, the dimensions \<open>ids\<close> of the metric and one value; times and values are
  texts of numbers.
\<close>

definition point_json :: "string \<Rightarrow> (string \<times> string) list \<Rightarrow> string \<times> string \<Rightarrow> json" where
  "point_json name ids p = JObj ((''timestamp'', JNum (fst p)) # map (\<lambda>(k, v). (k, JStr v)) ids @ [(name, JNum (snd p))])"

definition good_point :: "string \<times> string \<Rightarrow> bool" where
  "good_point p \<longleftrightarrow> json_number (fst p) \<and> json_number (snd p) \<and>
     snd (parse_int (fst p)) = None \<and> snd (parse_float (snd p)) = None"

definition points_text :: "string \<Rightarrow> (string \<times> string) list \<Rightarrow> (string \<times> string) list \<Rightarrow> string" where
  "points_text name ids ps = json_text (JArr (map (point_json name ids) ps))"

lemma points_text_Nil [simp]: "points_text name ids [] = ''[]''"
  by (simp add: points_text_def)

lemma points_text_neq: "points_text name ids ps \<noteq> []" "ps \<noteq> [] \<Longrightarrow> points_text name ids ps \<noteq> ''[]''"
  by (simp add: points_text_def) (cases ps; cases "tl ps"; simp add: points_text_def point_json_def)

lemma flat_depth: "list_all (\<lambda>m. depth (snd m) = 0) ms \<Longrightarrow> depth (JObj ms) = 1"
proof -
  assume "list_all (\<lambda>m. depth (snd m) = 0) ms"
  then have "set (0 # map (depth \<circ> snd) ms) = {0}" by (auto simp: list_all_iff)
  then show ?thesis by (simp only: depth.simps Max_singleton One_nat_def)
qed

lemma unmarshal_points:
  assumes "list_all good_point ps"
    and "\<And>p. good_point p \<Longrightarrow> store_object fs zero (point_json name ids p) = (f p, True)"
  shows "unmarshal_slice fs zero (points_text name ids ps) = Some (map f ps)"
proof -
  let ?j = "JArr (map (point_json name ids) ps)"
  have "wf_json ?j" using assms(1) by (auto simp: list_all_iff good_point_def point_json_def)
  moreover have "depth ?j \<le> 10000"
  proof -
    have z: "depth (point_json name ids p) = 1" for p
      unfolding point_json_def by (rule flat_depth) (simp add: list_all_iff split_beta)
    have "map depth (map (point_json name ids) ps) = map (\<lambda>_. 1) ps" by (simp add: z)
    then show ?thesis unfolding depth.simps by (cases ps) (simp_all add: image_constant_conv)
  qed
  ultimately have "parse_json (points_text name ids ps) = Some ?j" unfolding points_text_def by (rule parse_json_text)
  with assms show ?thesis by (auto simp: unmarshal_slice_def list_all_iff)
qed

end
