(* ===== verification/SLB_Source.thy ===== *)
theory SLB_Source
  imports Source_Params
begin

text \<open>
  The source of load balancer metrics (\<open>slb.go\<close>): the table of metrics, the parameters, the request over the
  last period and the value of the last data point. The lemmas reduce a request to its parameters, show for which periods the
  guard on the time range lets it through, and read a written list of points back.
\<close>

section \<open>Metrics\<close>

definition SLB_INSTANCE_ID :: string where "SLB_INSTANCE_ID = ''slb.instance.id''"
definition SLB_PORT :: string where "SLB_PORT = ''slb.instance.port''"
definition SLB_PERIOD :: string where "SLB_PERIOD = ''slb.period''"

lemmas slb_keys = SLB_INSTANCE_ID_def SLB_PORT_def SLB_PERIOD_def

definition GetExternalMetricInfoList_slb :: "string list" where
  "GetExternalMetricInfoList_slb =
     [''slb_l4_traffic_rx'', ''slb_l4_traffic_tx'', ''slb_l4_packet_tx'', ''slb_l4_packet_rx'',
      ''slb_l4_active_connection'', ''slb_l4_max_connection'', ''slb_l4_connection_utilization'', ''slb_l7_qps'',
      ''slb_l7_rt'', ''slb_l7_status_2xx'', ''slb_l7_status_3xx'', ''slb_l7_status_4xx'', ''slb_l7_status_5xx'',
      ''slb_l7_upstream_4xx'', ''slb_l7_upstream_5xx'', ''slb_l7_upstream_rt'']"

text \<open>The switch: the name of each metric in the monitoring service.\<close>

definition slb_metric :: "string \<Rightarrow> string option" where
  "slb_metric = map_of
     [(''slb_l4_traffic_rx'', ''TrafficRXNew''), (''slb_l4_traffic_tx'', ''TrafficTXNew''),
      (''slb_l4_packet_tx'', ''PacketTX''), (''slb_l4_packet_rx'', ''PacketRX''),
      (''slb_l4_active_connection'', ''ActiveConnection''), (''slb_l4_max_connection'', ''MaxConnection''),
      (''slb_l4_connection_utilization'', ''InstanceMaxConnectionUtilization''), (''slb_l7_qps'', ''Qps''),
      (''slb_l7_rt'', ''Rt''), (''slb_l7_status_2xx'', ''StatusCode2xx''), (''slb_l7_status_3xx'', ''StatusCode3xx''),
      (''slb_l7_status_4xx'', ''StatusCode4xx''), (''slb_l7_status_5xx'', ''StatusCode5xx''),
      (''slb_l7_upstream_4xx'', ''UpstreamCode4xx''), (''slb_l7_upstream_5xx'', ''UpstreamCode5xx''),
      (''slb_l7_upstream_rt'', ''UpstreamRt'')]"

section \<open>Parameters\<close>

record slb_params =
  InstanceId :: string
  Port :: string
  Period :: int

text \<open>A period that does not parse is logged; what \<open>Atoi\<close> returned with the error stays.\<close>

definition slb_param :: "string \<Rightarrow> string \<Rightarrow> slb_params \<Rightarrow> slb_params res" where
  "slb_param key v p =
     (if key = SLB_INSTANCE_ID then Inr (p\<lparr>InstanceId := v\<rparr>)
      else if key = SLB_PORT then Inr (p\<lparr>Port := v\<rparr>)
      else if key = SLB_PERIOD then Inr (p\<lparr>Period := fst (parse_int v)\<rparr>)
      else Inr p)"

definition getSLBParams :: "requirement list \<Rightarrow> slb_params res" where
  "getSLBParams reqs =
     and_then (read_params slb_param reqs \<lparr>InstanceId = [], Port = [], Period = 60\<rparr>) (\<lambda>p.
       if InstanceId p = [] \<or> Port p = [] then Inl (Err ''InstanceId and Port must be provide'')
       else if Period p < 60 then Inr (p\<lparr>Period := 60\<rparr>) else Inr p)"

section \<open>Data points\<close>

record slb_point =
  pointTimestamp :: int
  Vip :: string
  Average :: f64
  Minimum :: f64
  Maximum :: f64

definition slb_fields :: "slb_point field list" where
  "slb_fields =
     [(''timestamp'', int_field pointTimestamp_update), (''vip'', string_field Vip_update),
      (''Average'', float_field Average_update), (''Minimum'', float_field Minimum_update),
      (''Maximum'', float_field Maximum_update)]"

definition zero_point :: slb_point where
  "zero_point = \<lparr>pointTimestamp = 0, Vip = [], Average = Fin 0, Minimum = Fin 0, Maximum = Fin 0\<rparr>"

text \<open>Without points the value is zero and there is no error.\<close>

definition getMetricFromDataPoints :: "string \<Rightarrow> f64 res" where
  "getMetricFromDataPoints datapoints =
     (if datapoints = [] then Inl (Err ''NoMetricData'')
      else case unmarshal_slice slb_fields zero_point datapoints of
        None \<Rightarrow> Inl (Err ''json'')
      | Some points \<Rightarrow> if points = [] then Inr (Fin 0) else Inr (Average (last points)))"

definition createDimensions :: "string \<Rightarrow> string \<Rightarrow> string" where
  "createDimensions instanceId port =
     ''{'' @ join '','' [json_field ''instanceId'' (json_string instanceId), json_field ''port'' (json_string port)] @ ''}''"

section \<open>The request\<close>

definition Client_slb :: "cms_client sdk \<Rightarrow> access_user res \<Rightarrow> cms_client res" where
  "Client_slb = sdk_client"

definition getSLBMetrics ::
  "cms_client sdk \<Rightarrow> access_user res \<Rightarrow> gotime \<Rightarrow> string \<Rightarrow> string \<Rightarrow> requirement list \<Rightarrow> external_value list res" where
  "getSLBMetrics sdk user now metric externalMetric reqs =
     (case getSLBParams reqs of
        Inl (Err e) \<Rightarrow> Inl (Err (''failed to get slb params,because of '' @ e))
      | Inl (Panic e) \<Rightarrow> Inl (Panic e)
      | Inr params \<Rightarrow>
          and_then (Client_slb sdk user) (\<lambda>client.
            let endTime = time_add now (- 2 * minute);
                startTime = time_add endTime (back_seconds 1 (Period params))
            in and_then (JudgeWithPeriod startTime endTime (Period params)) (\<lambda>_.
               and_then (DescribeMetricList client
                 \<lparr>reqNamespace = ''acs_slb_dashboard'', reqMetricName = metric, reqStartTime = format_datetime startTime,
                  reqEndTime = format_datetime endTime, reqDimensions = createDimensions (InstanceId params) (Port params)\<rparr>)
                 (\<lambda>response.
               and_then (getMetricFromDataPoints (Datapoints response)) (\<lambda>v. Inr [whole_value now externalMetric v])))))"

definition GetExternalMetric_slb ::
  "cms_client sdk \<Rightarrow> access_user res \<Rightarrow> gotime \<Rightarrow> string \<Rightarrow> string \<Rightarrow> requirement list \<Rightarrow> external_value list res" where
  "GetExternalMetric_slb sdk user now metric namespace reqs =
     (case slb_metric metric of None \<Rightarrow> Inr [] | Some m \<Rightarrow> getSLBMetrics sdk user now m metric reqs)"

lemma slb_named: "GetExternalMetric_slb sdk user now metric namespace reqs = Inr vs \<Longrightarrow> list_all (carries metric) vs"
  by (auto simp: GetExternalMetric_slb_def getSLBMetrics_def Let_def and_then_eq_Inr split: option.splits sum.splits error.splits)

interpretation slb_source: metric_source GetExternalMetricInfoList_slb "\<lambda>metric. metric" "GetExternalMetric_slb sdk user now" for sdk user now
  by unfold_locales (code_simp, rule slb_named)

section \<open>What the parameters are\<close>

lemma slb_param_total: "slb_param k v p = Inr (p\<lparr>
    InstanceId := if k = SLB_INSTANCE_ID then v else InstanceId p,
    Port := if k = SLB_PORT then v else Port p,
    Period := if k = SLB_PERIOD then fst (parse_int v) else Period p\<rparr>)"
  by (simp add: slb_param_def slb_keys)

text \<open>
  For each key the last requirement that names a value counts; an instance and a port are needed, and the
  period is at least a minute, whatever its text.
\<close>

lemma getSLBParams_eq:
  "getSLBParams reqs =
     (if given_text SLB_INSTANCE_ID [] reqs = [] \<or> given_text SLB_PORT [] reqs = []
      then Inl (Err ''InstanceId and Port must be provide'')
      else Inr \<lparr>InstanceId = given_text SLB_INSTANCE_ID [] reqs, Port = given_text SLB_PORT [] reqs,
             Period = max 60 (given_int SLB_PERIOD 60 reqs)\<rparr>)"
proof -
  let ?p = "\<lparr>InstanceId = [], Port = [], Period = 60\<rparr> :: slb_params"
  obtain q where q: "read_params slb_param reqs ?p = Inr q" by (rule read_params_total [OF slb_param_total])
  have "InstanceId q = given_text SLB_INSTANCE_ID (InstanceId ?p) reqs" "Port q = given_text SLB_PORT (Port ?p) reqs"
    by (rule read_params_text [OF q]; auto simp: slb_param_total slb_keys)+
  moreover have "Period q = given_int SLB_PERIOD (Period ?p) reqs"
    by (rule read_params_int [OF q]) (auto simp: slb_param_total slb_keys)
  ultimately have "q = \<lparr>InstanceId = given_text SLB_INSTANCE_ID [] reqs, Port = given_text SLB_PORT [] reqs,
      Period = given_int SLB_PERIOD 60 reqs\<rparr>" by simp
  with q show ?thesis by (simp add: getSLBParams_def)
qed

text \<open>The guard on the time range: exact periods pass, and every period whose duration wraps around fails.\<close>

lemma judge_exact:
  assumes "0 \<le> n" "n \<le> 9223372036"
  shows "JudgeWithPeriod (time_add t (back_seconds 1 n)) t n = Inr ()"
proof -
  have "back_seconds 1 n = - n * second" using assms by (subst back_seconds_exact) simp_all
  then have "unix_sec (time_add t (back_seconds 1 n)) = unix_sec t - n" using unix_sec_add [of t "- n"] by simp
  then show ?thesis using assms by (simp add: JudgeWithPeriod_def in64_def)
qed

lemma judge_wrapped:
  assumes "9223372036 < n" "n \<le> maxInt64"
  shows "JudgeWithPeriod (time_add t (back_seconds 1 n)) t n =
    Inl (Err ''Pls make sure that starttime minus endtime is greater than period.'')"
proof -
  let ?d = "back_seconds 1 n"
  have d: "- 9223372036854775808 \<le> ?d" "?d \<le> 9223372036854775807"
    using wrap64_in64 [of "wrap64 (- 1 * n) * second"] by (auto simp: back_seconds_def dur_mul_def in64_def)
  have "unix_sec t - unix_sec (time_add t ?d) < n"
  proof (cases "n = 9223372037")
    case True
    have "wrap64 (- 1 * n) = - n" using assms by (intro trans [OF wrap64_id]) (auto simp: in64_def)
    then have "?d = wrap64 (- 9223372037 * second)" by (simp add: back_seconds_def dur_mul_def True)
    then have "0 \<le> ?d" by (simp add: wrap64_def)
    then show ?thesis using True by (simp add: unix_sec_def time_add_def)
  next
    case False
    with assms d show ?thesis by (simp add: unix_sec_def time_add_def)
  qed
  moreover have "in64 (unix_sec t - unix_sec (time_add t ?d))"
    using d by (simp add: unix_sec_def time_add_def in64_def) linarith
  ultimately show ?thesis by (simp add: JudgeWithPeriod_def)
qed

section \<open>What is asked and answered\<close>

text \<open>
  C25. A request for a load balancer metric, over exact integers: with parameters and a client it asks the service for the
  points of the instance's port from two minutes and a period ago to two minutes ago and returns the value of the last
  one; exactly the periods above 9223372036 seconds, where the duration wraps around, are refused by the guard on the range.
\<close>

theorem getSLBMetrics_request:
  assumes "getSLBParams reqs = Inr p" "Client_slb sdk user = Inr client"
  shows "getSLBMetrics sdk user now metric externalMetric reqs =
     (if 9223372036 < Period p
      then Inl (Err ''Pls make sure that starttime minus endtime is greater than period.'')
      else and_then (DescribeMetricList client
             \<lparr>reqNamespace = ''acs_slb_dashboard'', reqMetricName = metric,
              reqStartTime = format_datetime (time_add now ((- 120 - Period p) * second)),
              reqEndTime = format_datetime (time_add now (- 120 * second)),
              reqDimensions = createDimensions (InstanceId p) (Port p)\<rparr>)
           (\<lambda>r. and_then (getMetricFromDataPoints (Datapoints r)) (\<lambda>v. Inr [whole_value now externalMetric v])))"
proof (cases "9223372036 < Period p")
  case True
  have "in64 (Period p)"
    using assms(1) given_int_in64 [of 60 SLB_PERIOD reqs] by (auto simp: getSLBParams_eq in64_def split: if_splits)
  then have "Period p \<le> maxInt64" by (simp add: in64_def)
  then show ?thesis using True assms judge_wrapped [of "Period p" "time_add now (- 120 * second)"] by (simp add: getSLBMetrics_def Let_def)
next
  case False
  have P: "60 \<le> Period p" using assms(1) by (auto simp: getSLBParams_eq split: if_splits)
  have start: "time_add (time_add now (- 120 * second)) (back_seconds 1 (Period p)) = time_add now ((- 120 - Period p) * second)"
    using P False by (subst back_seconds_exact) (simp_all add: time_add_def left_diff_distrib)
  show ?thesis using assms judge_exact [of "Period p" "time_add now (- 120 * second)"] P False start
    by (simp add: getSLBMetrics_def Let_def)
qed

definition demo_sdk :: "cms_client sdk" where
  "demo_sdk = \<lparr>NewClientWithStsToken = \<lambda>_ _ _ _. Inl (Err ''no token''),
     NewClientWithAccessKey = \<lambda>region _ _. Inr \<lparr>
       DescribeMetricList = \<lambda>r. Inr \<lparr>Success = True, Datapoints = ''[]''\<rparr>, DescribeMonitorGroups = \<lambda>_. Inl (Err ''none'')\<rparr>\<rparr>"

definition demo_user :: access_user where
  "demo_user = \<lparr>AccessKeyId = ''ak'', AccessKeySecret = ''sk'', SecurityToken = [], Expiration = [], Keyring = [], Region = ''r''\<rparr>"

definition demo_reqs :: "string \<Rightarrow> requirement list" where
  "demo_reqs period =
     [\<lparr>rkey = SLB_INSTANCE_ID, roperator = Equals, rvalues = [''lb'']\<rparr>, \<lparr>rkey = SLB_PORT, roperator = Equals, rvalues = [''80'']\<rparr>,
      \<lparr>rkey = SLB_PERIOD, roperator = Equals, rvalues = [period]\<rparr>]"

theorem getSLBMetrics_request_witness:
  "getSLBMetrics demo_sdk (Inr demo_user) (unix_utc 1000) ''Qps'' ''slb_l7_qps'' (demo_reqs ''99999999999'') =
     Inl (Err ''Pls make sure that starttime minus endtime is greater than period.'') \<and>
   getSLBMetrics demo_sdk (Inr demo_user) (unix_utc 1000) ''Qps'' ''slb_l7_qps'' (demo_reqs ''x'') =
     Inr [\<lparr>MetricName = ''slb_l7_qps'', MetricLabels = Map.empty, Timestamp = 1000000, MilliValue = 0\<rparr>]"
proof
  let ?p = "\<lambda>n. \<lparr>InstanceId = ''lb'', Port = ''80'', Period = n\<rparr> :: slb_params"
  obtain client where c: "Client_slb demo_sdk (Inr demo_user) = Inr client"
    "DescribeMetricList client = (\<lambda>r. Inr \<lparr>Success = True, Datapoints = ''[]''\<rparr>)"
    by (simp add: Client_slb_def sdk_client_def demo_user_def demo_sdk_def has_prefix_def)
  have "getSLBParams (demo_reqs ''99999999999'') = Inr (?p 99999999999)" "getSLBParams (demo_reqs ''x'') = Inr (?p 60)"
    by code_simp+
  moreover have "getMetricFromDataPoints ''[]'' = Inr (Fin 0)" by code_simp
  moreover have "whole_value (unix_utc 1000) ''slb_l7_qps'' (Fin 0) =
      \<lparr>MetricName = ''slb_l7_qps'', MetricLabels = Map.empty, Timestamp = 1000000, MilliValue = 0\<rparr>"
    by (simp add: whole_value_def unix_utc_def trunc64_def f64_to_int64_def trunc_rat_def in64_def)
  ultimately show "getSLBMetrics demo_sdk (Inr demo_user) (unix_utc 1000) ''Qps'' ''slb_l7_qps'' (demo_reqs ''99999999999'') =
      Inl (Err ''Pls make sure that starttime minus endtime is greater than period.'')"
    "getSLBMetrics demo_sdk (Inr demo_user) (unix_utc 1000) ''Qps'' ''slb_l7_qps'' (demo_reqs ''x'') =
      Inr [\<lparr>MetricName = ''slb_l7_qps'', MetricLabels = Map.empty, Timestamp = 1000000, MilliValue = 0\<rparr>]"
    using getSLBMetrics_request [OF _ c(1)] c(2) by simp_all
qed

section \<open>The last data point\<close>

lemma store_point:
  assumes "good_point p"
  shows "store_object slb_fields zero_point (point_json ''Average'' [(''vip'', v)] p) =
    (zero_point\<lparr>pointTimestamp := fst (parse_int (fst p)), Vip := v, Average := fst (parse_float (snd p))\<rparr>, True)"
  using assms
  by (cases "parse_int (fst p)"; cases "parse_float (snd p)")
    (simp add: good_point_def store_object_def point_json_def store_member_def field_for_def slb_fields_def
      int_field_def float_field_def string_field_def)

text \<open>
  The value of a list of data points, read from its JSON text: the average of the last point, rounded to a float from
  its decimal text; an empty list gives zero, not an error.
\<close>

theorem getMetricFromDataPoints_last:
  assumes "list_all good_point ps"
  shows "getMetricFromDataPoints (points_text ''Average'' [(''vip'', v)] ps) =
    Inr (if ps = [] then Fin 0 else fst (parse_float (snd (last ps))))"
  using unmarshal_points [OF assms store_point] points_text_neq(1)
  by (simp add: getMetricFromDataPoints_def last_map)

theorem getMetricFromDataPoints_last_witness:
  "getMetricFromDataPoints (points_text ''Average'' [(''vip'', ''10.0.0.1'')] [(''1'', ''2''), (''3'', ''12.5e1'')]) = Inr (Fin 125) \<and>
   getMetricFromDataPoints ''[]'' = Inr (Fin 0)"
proof
  have "list_all good_point [(''1'', ''2''), (''3'', ''12.5e1'')]" by code_simp
  from getMetricFromDataPoints_last [OF this] have "getMetricFromDataPoints
      (points_text ''Average'' [(''vip'', ''10.0.0.1'')] [(''1'', ''2''), (''3'', ''12.5e1'')]) = Inr (fst (parse_float ''12.5e1''))" by simp
  moreover have "fst (parse_float ''12.5e1'') = Fin 125" by code_simp
  ultimately show "getMetricFromDataPoints
      (points_text ''Average'' [(''vip'', ''10.0.0.1'')] [(''1'', ''2''), (''3'', ''12.5e1'')]) = Inr (Fin 125)" by (simp only:)
  show "getMetricFromDataPoints ''[]'' = Inr (Fin 0)" using getMetricFromDataPoints_last [of "[]"] by simp
qed

end
