(* ===== verification/CMS_Source.thy ===== *)
theory CMS_Source
  imports Source_Params
begin

text \<open>
  The source of workload metrics of the cloud monitoring service (\<open>cms_k8s.go\<close>, \<open>workload_metrics.go\<close>):
  the table of metrics, the parameters, the group of a workload and its data points. The lemmas reduce a request to its
  parameters and follow it through the two calls to the service.
\<close>

section \<open>Metrics\<close>

definition K8S_NAMESPACE :: string where "K8S_NAMESPACE = ''k8s.workload.namespace''"
definition K8S_WORKLOAD_TYPE :: string where "K8S_WORKLOAD_TYPE = ''k8s.workload.type''"
definition K8S_WORKLOAD_NAME :: string where "K8S_WORKLOAD_NAME = ''k8s.workload.name''"
definition K8S_CLUSTER_ID :: string where "K8S_CLUSTER_ID = ''k8s.cluster.id''"
definition K8S_PERIOD :: string where "K8S_PERIOD = ''k8s.period''"

lemmas cms_keys = K8S_NAMESPACE_def K8S_WORKLOAD_TYPE_def K8S_WORKLOAD_NAME_def K8S_CLUSTER_ID_def K8S_PERIOD_def

definition GetExternalMetricInfoList_cms :: "string list" where
  "GetExternalMetricInfoList_cms =
     [''k8s_workload_cpu_util'', ''k8s_workload_cpu_limit'', ''k8s_workload_cpu_request'', ''k8s_workload_memory_usage'',
      ''k8s_workload_memory_request'', ''k8s_workload_memory_limit'', ''k8s_workload_memory_working_set'',
      ''k8s_workload_memory_rss'', ''k8s_workload_memory_cache'', ''k8s_workload_network_tx_rate'',
      ''k8s_workload_network_rx_rate'', ''k8s_workload_network_tx_errors'', ''k8s_workload_network_rx_errors'']"

definition cms_metric :: "string \<Rightarrow> string option" where
  "cms_metric = map_of
     [(''k8s_workload_cpu_util'', ''group.cpu.usage_rate''), (''k8s_workload_cpu_limit'', ''group.cpu.limit''),
      (''k8s_workload_cpu_request'', ''group.cpu.request''), (''k8s_workload_memory_usage'', ''group.memory.usage''),
      (''k8s_workload_memory_request'', ''group.memory.request''), (''k8s_workload_memory_limit'', ''group.memory.limit''),
      (''k8s_workload_memory_working_set'', ''group.memory.working_set''), (''k8s_workload_memory_rss'', ''group.memory.rss''),
      (''k8s_workload_memory_cache'', ''group.memory.cache''), (''k8s_workload_network_tx_rate'', ''group.network.tx_rate''),
      (''k8s_workload_network_rx_rate'', ''group.network.rx_rate''), (''k8s_workload_network_tx_errors'', ''group.network.tx_errors''),
      (''k8s_workload_network_rx_errors'', ''group.network.rx_errors'')]"

section \<open>Parameters\<close>

record cms_params =
  cmsPeriod :: int
  cmsNamespace :: string
  ClusterId :: string
  WorkloadType :: string
  WorkloadName :: string

definition cms_param :: "string \<Rightarrow> string \<Rightarrow> cms_params \<Rightarrow> cms_params res" where
  "cms_param key v p =
     (if key = K8S_PERIOD then Inr (p\<lparr>cmsPeriod := fst (parse_int v)\<rparr>)
      else if key = K8S_CLUSTER_ID then Inr (p\<lparr>ClusterId := v\<rparr>)
      else if key = K8S_NAMESPACE then Inr (p\<lparr>cmsNamespace := v\<rparr>)
      else if key = K8S_WORKLOAD_TYPE then Inr (p\<lparr>WorkloadType := v\<rparr>)
      else if key = K8S_WORKLOAD_NAME then Inr (p\<lparr>WorkloadName := v\<rparr>)
      else Inr p)"

definition getCMSParams :: "string \<Rightarrow> requirement list \<Rightarrow> cms_params res" where
  "getCMSParams namespace reqs =
     and_then (read_params cms_param reqs
       \<lparr>cmsPeriod = 0, cmsNamespace = namespace, ClusterId = [], WorkloadType = ''Deployment'', WorkloadName = []\<rparr>) (\<lambda>p.
       if ClusterId p = [] \<or> WorkloadType p = [] \<or> WorkloadName p = []
       then Inl (Err (K8S_CLUSTER_ID @ '' '' @ K8S_WORKLOAD_TYPE @ '' '' @ K8S_WORKLOAD_NAME @ '' must be provided''))
       else if cmsPeriod p < 60 then Inr (p\<lparr>cmsPeriod := 60\<rparr>) else Inr p)"

section \<open>The group of a workload\<close>

definition Client_cms :: "cms_client sdk \<Rightarrow> access_user res \<Rightarrow> cms_client res" where
  "Client_cms = sdk_client"

definition groupName :: "cms_params \<Rightarrow> string" where
  "groupName p = ''k8s-'' @ ClusterId p @ ''-'' @ cmsNamespace p @ ''-'' @ WorkloadType p @ ''-'' @ WorkloadName p"

definition getGroupIdByName :: "cms_client sdk \<Rightarrow> access_user res \<Rightarrow> cms_params \<Rightarrow> int res" where
  "getGroupIdByName sdk user params =
     and_then (explain ''failed to create cms client,because of '' (Client_cms sdk user)) (\<lambda>client.
     and_then (explain ''failed to query workload from cms api,because of '' (DescribeMonitorGroups client (groupName params))) (\<lambda>r.
       if groupsSuccess r \<and> Total r = 1 then index (GroupIds r) 0 else Inr 0))"

section \<open>Its data points\<close>

record cms_point =
  cmsTimestamp :: int
  UserId :: string
  GroupId :: string
  cmsValue :: f64
  Sum :: f64
  cmsAverage :: f64
  cmsMaximum :: f64
  cmsMinimum :: f64

definition cms_fields :: "cms_point field list" where
  "cms_fields =
     [(''timestamp'', int_field cmsTimestamp_update), (''userId'', string_field UserId_update),
      (''groupId'', string_field GroupId_update), (''value'', float_field cmsValue_update), (''Sum'', float_field Sum_update),
      (''average'', float_field cmsAverage_update), (''maximum'', float_field cmsMaximum_update),
      (''minimum'', float_field cmsMinimum_update)]"

definition zero_cms_point :: cms_point where
  "zero_cms_point = \<lparr>cmsTimestamp = 0, UserId = [], GroupId = [], cmsValue = Fin 0, Sum = Fin 0, cmsAverage = Fin 0,
     cmsMaximum = Fin 0, cmsMinimum = Fin 0\<rparr>"

definition group_dimensions :: "int \<Rightarrow> string" where
  \<open>group_dimensions groupId = ''[{"groupId":"'' @ itoa groupId @ ''"}]''\<close>

text \<open>The points of a response; the nil error it quotes prints as \<open><nil>\<close>.\<close>

definition response_points :: "cms_response \<Rightarrow> cms_point list res" where
  "response_points r =
     (if \<not> Success r then Inr []
      else if Datapoints r = ''[]'' then Inl (Err ''datapoint is empty <nil>'')
      else case unmarshal_slice cms_fields zero_cms_point (Datapoints r) of
        None \<Rightarrow> Inl (Err ''json unmarshal datapoint exception json'') | Some ps \<Rightarrow> Inr ps)"

definition getMetricListByGroupId ::
  "cms_client sdk \<Rightarrow> access_user res \<Rightarrow> gotime \<Rightarrow> cms_params \<Rightarrow> int \<Rightarrow> string \<Rightarrow> cms_point list res" where
  "getMetricListByGroupId sdk user now params groupId metricName =
     and_then (Client_cms sdk user) (\<lambda>client.
     and_then (DescribeMetricList client
       \<lparr>reqNamespace = ''acs_kubernetes'', reqMetricName = metricName,
        reqStartTime = format_datetime (time_add now (back_seconds 5 (cmsPeriod params))),
        reqEndTime = format_datetime now, reqDimensions = group_dimensions groupId\<rparr>) response_points)"

section \<open>The source\<close>

text \<open>The value carries the name of the metric in the monitoring service.\<close>

definition getCMSWorkLoadMetrics ::
  "cms_client sdk \<Rightarrow> access_user res \<Rightarrow> gotime \<Rightarrow> string \<Rightarrow> requirement list \<Rightarrow> string \<Rightarrow> external_value list res" where
  "getCMSWorkLoadMetrics sdk user now namespace reqs metric =
     and_then (explain ''Failed to get CMS params, because of '' (getCMSParams namespace reqs)) (\<lambda>params.
     and_then (getGroupIdByName sdk user params) (\<lambda>groupId.
       if groupId \<le> 0 then Inr []
       else and_then (getMetricListByGroupId sdk user now params groupId metric) (\<lambda>dataPoints.
         Inr (if dataPoints = [] then [] else [whole_value now metric (Sum (last dataPoints))]))))"

definition GetExternalMetric_cms ::
  "cms_client sdk \<Rightarrow> access_user res \<Rightarrow> gotime \<Rightarrow> string \<Rightarrow> string \<Rightarrow> requirement list \<Rightarrow> external_value list res" where
  "GetExternalMetric_cms sdk user now metric namespace reqs =
     (case cms_metric metric of None \<Rightarrow> Inr [] | Some m \<Rightarrow> getCMSWorkLoadMetrics sdk user now namespace reqs m)"

text \<open>A value carries the service's own name of the metric, not the one that was asked for.\<close>

definition cms_reported :: "string \<Rightarrow> string" where
  "cms_reported metric = (case cms_metric metric of None \<Rightarrow> metric | Some m \<Rightarrow> m)"

lemma cms_named: "GetExternalMetric_cms sdk user now metric namespace reqs = Inr vs \<Longrightarrow> list_all (carries (cms_reported metric)) vs"
  by (auto simp: GetExternalMetric_cms_def getCMSWorkLoadMetrics_def cms_reported_def and_then_eq_Inr split: option.splits if_splits)

interpretation cms_source: metric_source GetExternalMetricInfoList_cms cms_reported "GetExternalMetric_cms sdk user now" for sdk user now
  by unfold_locales (code_simp, rule cms_named)

section \<open>What the parameters are\<close>

lemma cms_param_total: "cms_param k v p = Inr (p\<lparr>
    cmsPeriod := if k = K8S_PERIOD then fst (parse_int v) else cmsPeriod p,
    ClusterId := if k = K8S_CLUSTER_ID then v else ClusterId p,
    cmsNamespace := if k = K8S_NAMESPACE then v else cmsNamespace p,
    WorkloadType := if k = K8S_WORKLOAD_TYPE then v else WorkloadType p,
    WorkloadName := if k = K8S_WORKLOAD_NAME then v else WorkloadName p\<rparr>)"
  by (simp add: cms_param_def cms_keys)

lemma getCMSParams_eq:
  "getCMSParams namespace reqs =
     (if given_text K8S_CLUSTER_ID [] reqs = [] \<or> given_text K8S_WORKLOAD_TYPE ''Deployment'' reqs = [] \<or>
         given_text K8S_WORKLOAD_NAME [] reqs = []
      then Inl (Err (K8S_CLUSTER_ID @ '' '' @ K8S_WORKLOAD_TYPE @ '' '' @ K8S_WORKLOAD_NAME @ '' must be provided''))
      else Inr \<lparr>cmsPeriod = max 60 (given_int K8S_PERIOD 0 reqs), cmsNamespace = given_text K8S_NAMESPACE namespace reqs,
             ClusterId = given_text K8S_CLUSTER_ID [] reqs, WorkloadType = given_text K8S_WORKLOAD_TYPE ''Deployment'' reqs,
             WorkloadName = given_text K8S_WORKLOAD_NAME [] reqs\<rparr>)"
proof -
  let ?p = "\<lparr>cmsPeriod = 0, cmsNamespace = namespace, ClusterId = [], WorkloadType = ''Deployment'', WorkloadName = []\<rparr> :: cms_params"
  obtain q where q: "read_params cms_param reqs ?p = Inr q" by (rule read_params_total [OF cms_param_total])
  have "cmsNamespace q = given_text K8S_NAMESPACE (cmsNamespace ?p) reqs" "ClusterId q = given_text K8S_CLUSTER_ID (ClusterId ?p) reqs"
    "WorkloadType q = given_text K8S_WORKLOAD_TYPE (WorkloadType ?p) reqs"
    "WorkloadName q = given_text K8S_WORKLOAD_NAME (WorkloadName ?p) reqs"
    by (rule read_params_text [OF q]; auto simp: cms_param_total cms_keys)+
  moreover have "cmsPeriod q = given_int K8S_PERIOD (cmsPeriod ?p) reqs"
    by (rule read_params_int [OF q]) (auto simp: cms_param_total cms_keys)
  ultimately have "q = \<lparr>cmsPeriod = given_int K8S_PERIOD 0 reqs, cmsNamespace = given_text K8S_NAMESPACE namespace reqs,
      ClusterId = given_text K8S_CLUSTER_ID [] reqs, WorkloadType = given_text K8S_WORKLOAD_TYPE ''Deployment'' reqs,
      WorkloadName = given_text K8S_WORKLOAD_NAME [] reqs\<rparr>" by simp
  with q show ?thesis by (simp add: getCMSParams_def)
qed

section \<open>What is asked and answered\<close>

lemma store_cms_point:
  assumes "good_point p"
  shows "store_object cms_fields zero_cms_point (point_json ''Sum'' [(''userId'', u), (''groupId'', i)] p) =
    (zero_cms_point\<lparr>cmsTimestamp := fst (parse_int (fst p)), UserId := u, GroupId := i, Sum := fst (parse_float (snd p))\<rparr>, True)"
  using assms
  by (cases "parse_int (fst p)"; cases "parse_float (snd p)")
    (simp add: good_point_def store_object_def point_json_def store_member_def field_for_def cms_fields_def
      int_field_def float_field_def string_field_def)

lemma response_points_text:
  "list_all good_point ps \<Longrightarrow> response_points \<lparr>Success = True, Datapoints = points_text ''Sum'' [(''userId'', u), (''groupId'', i)] ps\<rparr> =
    (if ps = [] then Inl (Err ''datapoint is empty <nil>'')
     else Inr (map (\<lambda>p. zero_cms_point\<lparr>cmsTimestamp := fst (parse_int (fst p)), UserId := u, GroupId := i,
       Sum := fst (parse_float (snd p))\<rparr>) ps))"
  using unmarshal_points [OF _ store_cms_point] points_text_neq(2) [of ps] by (simp add: response_points_def)

text \<open>
  C24. A workload request whose parameters and client are in order: the group is looked up by the workload's name, and
  without exactly one such group the answer is empty; else the service is asked for the group's points of the last five
  periods and the answer is the sum of the last point, under the service's own name of the metric; no point is an error.
\<close>

theorem GetExternalMetric_cms_last:
  assumes "cms_metric metric = Some m" "getCMSParams namespace reqs = Inr p" "Client_cms sdk user = Inr client"
    and "cmsPeriod p \<le> 1844674407"
    and "DescribeMonitorGroups client (''k8s-'' @ ClusterId p @ ''-'' @ cmsNamespace p @ ''-'' @ WorkloadType p @ ''-'' @ WorkloadName p) = Inr g"
    and "GroupIds g = [groupId]" "0 < groupId"
    and "DescribeMetricList client
       \<lparr>reqNamespace = ''acs_kubernetes'', reqMetricName = m,
        reqStartTime = format_datetime (time_add now (- 5 * cmsPeriod p * second)), reqEndTime = format_datetime now,
        reqDimensions = group_dimensions groupId\<rparr> = Inr \<lparr>Success = True, Datapoints = points_text ''Sum'' [(''userId'', u), (''groupId'', i)] ps\<rparr>"
    and "list_all good_point ps"
  shows "GetExternalMetric_cms sdk user now metric namespace reqs =
    (if \<not> (groupsSuccess g \<and> Total g = 1) then Inr []
     else if ps = [] then Inl (Err ''datapoint is empty <nil>'')
     else Inr [whole_value now m (fst (parse_float (snd (last ps))))])"
proof -
  have "60 \<le> cmsPeriod p" using assms(2) by (auto simp: getCMSParams_eq split: if_splits)
  then have "back_seconds 5 (cmsPeriod p) = - 5 * cmsPeriod p * second" using assms(4) by (subst back_seconds_exact) simp_all
  then have "getMetricListByGroupId sdk user now p groupId m = response_points \<lparr>Success = True, Datapoints = points_text ''Sum'' [(''userId'', u), (''groupId'', i)] ps\<rparr>"
    using assms(3,8) by (simp add: getMetricListByGroupId_def)
  moreover have "getGroupIdByName sdk user p = (if groupsSuccess g \<and> Total g = 1 then Inr groupId else Inr 0)"
    using assms(3,5,6) by (simp add: getGroupIdByName_def groupName_def explain_def)
  ultimately show ?thesis
    using assms(1,2,7) response_points_text [OF assms(9)]
    by (simp add: GetExternalMetric_cms_def getCMSWorkLoadMetrics_def explain_def last_map)
qed

definition demo_cms :: "string \<Rightarrow> cms_client" where
  "demo_cms points =
     \<lparr>DescribeMetricList = \<lambda>_. Inr \<lparr>Success = True, Datapoints = points\<rparr>,
      DescribeMonitorGroups = \<lambda>_. Inr \<lparr>groupsSuccess = True, Total = 1, GroupIds = [7]\<rparr>\<rparr>"

definition demo_cms_sdk :: "cms_client sdk" where
  "demo_cms_sdk =
     \<lparr>NewClientWithStsToken = \<lambda>_ _ _ _. Inr (demo_cms (points_text ''Sum'' [(''userId'', ''42''), (''groupId'', ''7'')] [(''1'', ''2.5e1'')])),
      NewClientWithAccessKey = \<lambda>_ _ _. Inl (Err ''no key'')\<rparr>"

definition demo_sts_user :: access_user where
  "demo_sts_user =
     \<lparr>AccessKeyId = ''STS.x'', AccessKeySecret = ''sk'', SecurityToken = ''t'', Expiration = [], Keyring = [], Region = ''r''\<rparr>"

theorem GetExternalMetric_cms_last_witness:
  "GetExternalMetric_cms demo_cms_sdk (Inr demo_sts_user) (unix_utc 1000) ''k8s_workload_cpu_util'' ''ns''
     [\<lparr>rkey = K8S_CLUSTER_ID, roperator = Equals, rvalues = [''c'']\<rparr>, \<lparr>rkey = K8S_WORKLOAD_NAME, roperator = Equals, rvalues = [''w'']\<rparr>] =
   Inr [\<lparr>MetricName = ''group.cpu.usage_rate'', MetricLabels = Map.empty, Timestamp = 1000000, MilliValue = 25000\<rparr>]"
proof -
  let ?reqs = "[\<lparr>rkey = K8S_CLUSTER_ID, roperator = Equals, rvalues = [''c'']\<rparr>, \<lparr>rkey = K8S_WORKLOAD_NAME, roperator = Equals, rvalues = [''w'']\<rparr>]"
  let ?p = "\<lparr>cmsPeriod = 60, cmsNamespace = ''ns'', ClusterId = ''c'', WorkloadType = ''Deployment'', WorkloadName = ''w''\<rparr>"
  have p: "getCMSParams ''ns'' ?reqs = Inr ?p" by code_simp
  have g: "good_point (''1'', ''2.5e1'')" by code_simp
  have v: "whole_value (unix_utc 1000) ''group.cpu.usage_rate'' (fst (parse_float ''2.5e1'')) =
      \<lparr>MetricName = ''group.cpu.usage_rate'', MetricLabels = Map.empty, Timestamp = 1000000, MilliValue = 25000\<rparr>"
  proof -
    have "fst (parse_float ''2.5e1'') = Fin 25" by code_simp
    moreover have "trunc64 (Fin 25) = 25" by (simp add: trunc64_def f64_to_int64_def trunc_rat_def in64_def)
    ultimately show ?thesis by (simp add: whole_value_def unix_utc_def in64_def)
  qed
  have "GetExternalMetric_cms demo_cms_sdk (Inr demo_sts_user) (unix_utc 1000) ''k8s_workload_cpu_util'' ''ns'' ?reqs =
    (if \<not> (groupsSuccess \<lparr>groupsSuccess = True, Total = 1, GroupIds = [7]\<rparr> \<and> Total \<lparr>groupsSuccess = True, Total = 1, GroupIds = [7]\<rparr> = 1) then Inr []
     else if [(''1'', ''2.5e1'')] = [] then Inl (Err ''datapoint is empty <nil>'')
     else Inr [whole_value (unix_utc 1000) ''group.cpu.usage_rate'' (fst (parse_float (snd (last [(''1'', ''2.5e1'')]))))])"
    by (rule GetExternalMetric_cms_last [OF _ p, where client = "demo_cms (points_text ''Sum'' [(''userId'', ''42''), (''groupId'', ''7'')] [(''1'', ''2.5e1'')])" and groupId = 7])
      (simp_all add: cms_metric_def Client_cms_def sdk_client_def demo_cms_sdk_def demo_sts_user_def demo_cms_def has_prefix_def g)
  with v show ?thesis by simp
qed

end
