(* ===== verification/AHAS_Source.thy ===== *)
theory AHAS_Source
  imports Source_Params
begin

text \<open>
  The source of traffic metrics of the AHAS Sentinel service (\<open>ahas_sentinel.go\<close>, \<open>k8s_helper.go\<close>): its
  parameters, which fall back to annotations of the deployments of the namespace, the request and the value.
  The lemmas say which annotations count, whatever the order in which annotations are visited.
\<close>

section \<open>Metrics\<close>

definition AHAS_SENTINEL_TOTAL_QPS :: string where "AHAS_SENTINEL_TOTAL_QPS = ''ahas_sentinel_total_qps''"
definition AHAS_SENTINEL_PASS_QPS :: string where "AHAS_SENTINEL_PASS_QPS = ''ahas_sentinel_pass_qps''"
definition AHAS_SENTINEL_BLOCK_QPS :: string where "AHAS_SENTINEL_BLOCK_QPS = ''ahas_sentinel_block_qps''"
definition AHAS_SENTINEL_AVG_RT :: string where "AHAS_SENTINEL_AVG_RT = ''ahas_sentinel_avg_rt''"

lemmas ahas_names =
  AHAS_SENTINEL_TOTAL_QPS_def AHAS_SENTINEL_PASS_QPS_def AHAS_SENTINEL_BLOCK_QPS_def AHAS_SENTINEL_AVG_RT_def

definition GetExternalMetricInfoList_ahas :: "string list" where
  "GetExternalMetricInfoList_ahas =
     [AHAS_SENTINEL_PASS_QPS, AHAS_SENTINEL_BLOCK_QPS, AHAS_SENTINEL_TOTAL_QPS, AHAS_SENTINEL_AVG_RT]"

definition NamespaceKey :: string where "NamespaceKey = ''ahas.sentinel.namespace''"
definition SentinelAppNameKey :: string where "SentinelAppNameKey = ''ahas.sentinel.app''"
definition SentinelQueryIntervalKey :: string where "SentinelQueryIntervalKey = ''ahas.sentinel.interval''"
definition SentinelQueryOffsetKey :: string where "SentinelQueryOffsetKey = ''ahas.sentinel.queryOffset''"

lemmas ahas_keys = NamespaceKey_def SentinelAppNameKey_def SentinelQueryIntervalKey_def SentinelQueryOffsetKey_def

section \<open>Annotations of the pilot\<close>

text \<open>
  The annotations of a deployment's pod template, in the order in which the run visits the map. \<open>client\<close> lists
  the deployments of a namespace; without an in-cluster configuration it is nil.
\<close>

type_synonym annotations = "(string \<times> string) list"

type_synonym deployments = "(string \<Rightarrow> annotations list res) option"

record pilot_metadata =
  pilotApp :: string
  pilotNamespace :: string

definition annotate :: "string \<times> string \<Rightarrow> pilot_metadata \<Rightarrow> pilot_metadata" where
  "annotate kv m =
     (if fst kv = ''ahasAppName'' then m\<lparr>pilotApp := snd kv\<rparr>
      else if fst kv = ''ahasNamespace'' then m\<lparr>pilotNamespace := snd kv\<rparr> else m)"

fun pilot_loop :: "annotations list \<Rightarrow> pilot_metadata \<Rightarrow> pilot_metadata" where
  "pilot_loop [] m = m"
| "pilot_loop (d # ds) m = (if 0 < length (pilotApp m) then m else pilot_loop ds (fold annotate d m))"

definition getPilotAnnotationMetadata :: "deployments \<Rightarrow> string \<Rightarrow> pilot_metadata res" where
  "getPilotAnnotationMetadata client namespace =
     (if length namespace = 0 then Inl (Err ''invalid namespace'')
      else and_then (deref client) (\<lambda>list.
           and_then (list namespace) (\<lambda>ds. Inr (pilot_loop ds \<lparr>pilotApp = [], pilotNamespace = []\<rparr>))))"

section \<open>Parameters\<close>

record ahas_params =
  AppName :: string
  AhasNamespace :: string
  Interval :: int
  QueryStartOffset :: int

definition ahas_param :: "string \<Rightarrow> string \<Rightarrow> ahas_params \<Rightarrow> ahas_params res" where
  "ahas_param key v p =
     (if key = SentinelAppNameKey then Inr (p\<lparr>AppName := v\<rparr>)
      else if key = NamespaceKey then Inr (p\<lparr>AhasNamespace := v\<rparr>)
      else if key = SentinelQueryIntervalKey then Inr (p\<lparr>Interval := fst (parse_int v)\<rparr>)
      else if key = SentinelQueryOffsetKey then Inr (p\<lparr>QueryStartOffset := fst (parse_int v)\<rparr>)
      else Inr p)"

text \<open>Without an application name the annotations give one, and a namespace unless the request names one.\<close>

definition apply_pilot :: "deployments \<Rightarrow> string \<Rightarrow> ahas_params \<Rightarrow> ahas_params res" where
  "apply_pilot client k8sNamespace p =
     (if 0 < length (AppName p) then Inr p
      else and_then (getPilotAnnotationMetadata client k8sNamespace) (\<lambda>m.
        if length (pilotApp m) \<le> 0 then Inl (Err ''appName in AHAS Sentinel is required'')
        else Inr (p\<lparr>AppName := pilotApp m,
               AhasNamespace := (if length (AhasNamespace p) \<le> 0 \<and> 0 < length (pilotNamespace m) then pilotNamespace m else AhasNamespace p)\<rparr>)))"

definition ahas_defaults :: "ahas_params \<Rightarrow> ahas_params" where
  "ahas_defaults p =
     p\<lparr>AhasNamespace := (if AhasNamespace p = [] then ''default'' else AhasNamespace p),
       Interval := (if Interval p \<le> 0 then 10 else Interval p),
       QueryStartOffset := (if QueryStartOffset p \<le> 0 then 10 else QueryStartOffset p)\<rparr>"

definition getAhasSentinelParams :: "deployments \<Rightarrow> requirement list \<Rightarrow> string \<Rightarrow> ahas_params res" where
  "getAhasSentinelParams client reqs k8sNamespace =
     and_then (read_params ahas_param reqs \<lparr>AppName = [], AhasNamespace = [], Interval = 0, QueryStartOffset = 0\<rparr>) (\<lambda>p.
     and_then (apply_pilot client k8sNamespace p) (\<lambda>p. Inr (ahas_defaults p)))"

section \<open>The request and the value\<close>

record ahas_request =
  ahasNamespace :: string
  ahasAppName :: string
  ahasStartTime :: string
  ahasEndTime :: string

record ahas_data =
  TotalCount :: f64
  PassCount :: f64
  BlockCount :: f64
  AvgRt :: f64
  MachineCount :: int

type_synonym ahas_client = "ahas_request \<Rightarrow> ahas_data res"

definition handleMetricAvg :: "f64 \<Rightarrow> ahas_data \<Rightarrow> f64" where
  "handleMetricAvg n r = (if MachineCount r \<le> 0 then Fin 0 else fdiv n (f64_of_int (MachineCount r)))"

definition resolveMetric :: "string \<Rightarrow> ahas_data \<Rightarrow> f64" where
  "resolveMetric metric r =
     (if metric = AHAS_SENTINEL_TOTAL_QPS then handleMetricAvg (TotalCount r) r
      else if metric = AHAS_SENTINEL_PASS_QPS then handleMetricAvg (PassCount r) r
      else if metric = AHAS_SENTINEL_BLOCK_QPS then handleMetricAvg (BlockCount r) r
      else if metric = AHAS_SENTINEL_AVG_RT then AvgRt r
      else Fin 0)"

definition createClient :: "ahas_client sdk \<Rightarrow> access_user res \<Rightarrow> ahas_client res" where
  "createClient = sdk_client"

definition GetExternalMetric_ahas ::
  "ahas_client sdk \<Rightarrow> access_user res \<Rightarrow> deployments \<Rightarrow> gotime \<Rightarrow> string \<Rightarrow> string \<Rightarrow> requirement list \<Rightarrow> external_value list res" where
  "GetExternalMetric_ahas sdk user deployments now metric namespace reqs =
     (case getAhasSentinelParams deployments reqs namespace of
        Inl (Err e) \<Rightarrow> Inl (Err (''failed to get AHAS Sentinel params, cause: '' @ e))
      | Inl (Panic e) \<Rightarrow> Inl (Panic e)
      | Inr p \<Rightarrow>
          and_then (createClient sdk user) (\<lambda>client.
          and_then (client
            \<lparr>ahasNamespace = AhasNamespace p, ahasAppName = AppName p,
             ahasStartTime = format_datetime (time_add now (back_seconds 1 (wrap64 (Interval p + QueryStartOffset p)))),
             ahasEndTime = format_datetime (time_add now (back_seconds 1 (QueryStartOffset p)))\<rparr>)
            (\<lambda>r. Inr [whole_value now metric (resolveMetric metric r)])))"

lemma ahas_named: "GetExternalMetric_ahas sdk user deployments now metric namespace reqs = Inr vs \<Longrightarrow> list_all (carries metric) vs"
  by (auto simp: GetExternalMetric_ahas_def and_then_eq_Inr split: sum.splits error.splits)

interpretation ahas_source: metric_source GetExternalMetricInfoList_ahas "\<lambda>metric. metric" "GetExternalMetric_ahas sdk user deployments now"
    for sdk user deployments now
  by unfold_locales (code_simp, rule ahas_named)

section \<open>Which annotations count\<close>

lemma fold_annotate:
  "distinct (map fst d) \<Longrightarrow> fold annotate d \<lparr>pilotApp = a, pilotNamespace = n\<rparr> =
     \<lparr>pilotApp = (case map_of d ''ahasAppName'' of None \<Rightarrow> a | Some v \<Rightarrow> v),
      pilotNamespace = (case map_of d ''ahasNamespace'' of None \<Rightarrow> n | Some v \<Rightarrow> v)\<rparr>"
proof (induction d arbitrary: a n)
  case (Cons kv d)
  then have "map_of d (fst kv) = None" by (auto simp: map_of_eq_None_iff)
  with Cons show ?case
    by (cases kv; cases "fst kv = ''ahasAppName''"; cases "fst kv = ''ahasNamespace''") (simp_all add: annotate_def)
qed simp

text \<open>The deployments looked at: up to the first one that names an application.\<close>

definition names_app :: "annotations \<Rightarrow> bool" where
  "names_app d \<longleftrightarrow> (case map_of d ''ahasAppName'' of None \<Rightarrow> False | Some v \<Rightarrow> v \<noteq> [])"

fun looked_at :: "annotations list \<Rightarrow> annotations list" where
  "looked_at [] = []"
| "looked_at (d # ds) = d # (if names_app d then [] else looked_at ds)"

definition last_annotation :: "string \<Rightarrow> string \<Rightarrow> annotations list \<Rightarrow> string" where
  "last_annotation key v ds = fold (\<lambda>d v. case map_of d key of None \<Rightarrow> v | Some w \<Rightarrow> w) ds v"

lemma pilot_loop_done: "pilotApp m \<noteq> [] \<Longrightarrow> pilot_loop ds m = m"
  by (cases ds) simp_all

lemma pilot_loop_looked:
  assumes "list_all (\<lambda>d. distinct (map fst d)) ds"
  shows "pilot_loop ds \<lparr>pilotApp = [], pilotNamespace = v\<rparr> =
    \<lparr>pilotApp = (case find names_app ds of None \<Rightarrow> [] | Some d \<Rightarrow> the (map_of d ''ahasAppName'')),
     pilotNamespace = last_annotation ''ahasNamespace'' v (looked_at ds)\<rparr>"
  using assms
proof (induction ds arbitrary: v)
  case (Cons d ds)
  show ?case
  proof (cases "names_app d")
    case True
    then obtain w where "map_of d ''ahasAppName'' = Some w" "w \<noteq> []" by (auto simp: names_app_def split: option.splits)
    with True Cons.prems show ?thesis
      by (simp add: fold_annotate pilot_loop_done last_annotation_def)
  next
    case False
    then have "(case map_of d ''ahasAppName'' of None \<Rightarrow> [] | Some v \<Rightarrow> v) = []" by (auto simp: names_app_def split: option.splits)
    with False Cons show ?thesis by (simp add: fold_annotate last_annotation_def)
  qed
qed (simp add: last_annotation_def)

lemma ahas_param_total: "ahas_param k v p = Inr (p\<lparr>
    AppName := if k = SentinelAppNameKey then v else AppName p,
    AhasNamespace := if k = NamespaceKey then v else AhasNamespace p,
    Interval := if k = SentinelQueryIntervalKey then fst (parse_int v) else Interval p,
    QueryStartOffset := if k = SentinelQueryOffsetKey then fst (parse_int v) else QueryStartOffset p\<rparr>)"
  by (simp add: ahas_param_def ahas_keys)

lemma read_ahas_params:
  "read_params ahas_param reqs \<lparr>AppName = [], AhasNamespace = [], Interval = 0, QueryStartOffset = 0\<rparr> =
     Inr \<lparr>AppName = given_text SentinelAppNameKey [] reqs, AhasNamespace = given_text NamespaceKey [] reqs,
          Interval = given_int SentinelQueryIntervalKey 0 reqs, QueryStartOffset = given_int SentinelQueryOffsetKey 0 reqs\<rparr>"
proof -
  let ?p = "\<lparr>AppName = [], AhasNamespace = [], Interval = 0, QueryStartOffset = 0\<rparr> :: ahas_params"
  obtain q where q: "read_params ahas_param reqs ?p = Inr q" by (rule read_params_total [OF ahas_param_total])
  have "AppName q = given_text SentinelAppNameKey (AppName ?p) reqs" "AhasNamespace q = given_text NamespaceKey (AhasNamespace ?p) reqs"
    by (rule read_params_text [OF q]; auto simp: ahas_param_total ahas_keys)+
  moreover have "Interval q = given_int SentinelQueryIntervalKey (Interval ?p) reqs"
    "QueryStartOffset q = given_int SentinelQueryOffsetKey (QueryStartOffset ?p) reqs"
    by (rule read_params_int [OF q]; auto simp: ahas_param_total ahas_keys)+
  ultimately show ?thesis by (simp add: q)
qed

text \<open>
  C26. The parameters of a Sentinel request: an application the request names is taken as it is, with no
  look at the cluster; else it is that of the first deployment annotated with one, and the namespace, unless the request names
  one, is the last annotated up to that deployment, which may belong to another one. Interval and offset are
  positive, ten seconds when nothing usable is given.
\<close>

theorem getAhasSentinelParams_sources:
  assumes "client = Some list" "list namespace = Inr ds" "namespace \<noteq> []"
    and "list_all (\<lambda>d. distinct (map fst d)) ds"
  shows "getAhasSentinelParams client reqs namespace =
    (let sp = given_text NamespaceKey [] reqs;
         params = (\<lambda>app sp. \<lparr>AppName = app, AhasNamespace = (if sp = [] then ''default'' else sp),
           Interval = (if given_int SentinelQueryIntervalKey 0 reqs \<le> 0 then 10 else given_int SentinelQueryIntervalKey 0 reqs),
           QueryStartOffset = (if given_int SentinelQueryOffsetKey 0 reqs \<le> 0 then 10 else given_int SentinelQueryOffsetKey 0 reqs)\<rparr>)
     in if given_text SentinelAppNameKey [] reqs \<noteq> [] then Inr (params (given_text SentinelAppNameKey [] reqs) sp)
        else case find names_app ds of
          None \<Rightarrow> Inl (Err ''appName in AHAS Sentinel is required'')
        | Some d \<Rightarrow> Inr (params (the (map_of d ''ahasAppName''))
            (if sp = [] then last_annotation ''ahasNamespace'' [] (looked_at ds) else sp)))"
proof -
  have "the (map_of d ''ahasAppName'') \<noteq> []" if "find names_app ds = Some d" for d
    using that by (auto simp: find_Some_iff names_app_def split: option.splits)
  then show ?thesis
    using assms(1-3) pilot_loop_looked [OF assms(4), of "[]"]
    by (cases "find names_app ds")
      (simp_all add: getAhasSentinelParams_def read_ahas_params apply_pilot_def getPilotAnnotationMetadata_def
        ahas_defaults_def Let_def)
qed

theorem getAhasSentinelParams_sources_witness:
  "getAhasSentinelParams
     (Some (\<lambda>_. Inr [[(''ahasNamespace'', ''other'')], [(''x'', ''y''), (''ahasAppName'', ''shop'')], [(''ahasAppName'', ''late'')]]))
     [\<lparr>rkey = SentinelQueryIntervalKey, roperator = Equals, rvalues = [''-3'']\<rparr>] ''ns'' =
   Inr \<lparr>AppName = ''shop'', AhasNamespace = ''other'', Interval = 10, QueryStartOffset = 10\<rparr>"
proof -
  let ?ds = "[[(''ahasNamespace'', ''other'')], [(''x'', ''y''), (''ahasAppName'', ''shop'')], [(''ahasAppName'', ''late'')]]"
  let ?reqs = "[\<lparr>rkey = SentinelQueryIntervalKey, roperator = Equals, rvalues = [''-3'']\<rparr>]"
  have g: "given_text SentinelAppNameKey [] ?reqs = []" "given_text NamespaceKey [] ?reqs = []"
    "given_int SentinelQueryIntervalKey 0 ?reqs = - 3" "given_int SentinelQueryOffsetKey 0 ?reqs = 0" by code_simp+
  have f: "find names_app ?ds = Some [(''x'', ''y''), (''ahasAppName'', ''shop'')]"
    "last_annotation ''ahasNamespace'' [] (looked_at ?ds) = ''other''" by code_simp+
  have d: "list_all (\<lambda>d. distinct (map fst d)) ?ds" by code_simp
  show ?thesis
    using getAhasSentinelParams_sources [OF refl, where namespace = "''ns''", OF refl _ d, of ?reqs] by (simp only: g f Let_def) simp
qed

end
