(* ===== verification/SLS_Source.thy ===== *)
theory SLS_Source
  imports Source_Params
begin

text \<open>
  The source of ingress metrics of the log service (\<open>sls.go\<close>, \<open>ingress.go\<close>): the parameters, the query and the
  loop that asks again while the service has not finished. The lemmas say which answer counts, when the source gives up,
  what is read out of the answer, and which part of the queried window is searched.
\<close>

section \<open>Metrics\<close>

definition SLS_LABEL_PROJECT :: string where "SLS_LABEL_PROJECT = ''sls.project''"
definition SLS_LABEL_LOGSTORE :: string where "SLS_LABEL_LOGSTORE = ''sls.logstore''"
definition SLS_LABEL_QUERY_INTERVAL :: string where "SLS_LABEL_QUERY_INTERVAL = ''sls.query.interval''"
definition SLS_LABEL_QUERY_DELAY :: string where "SLS_LABEL_QUERY_DELAY = ''sls.query.delay''"
definition SLS_LABEL_QUERY_MAX_RETRY :: string where "SLS_LABEL_QUERY_MAX_RETRY = ''sls.query.max_retry''"
definition SLS_LABEL_INGRESS_ROUTE :: string where "SLS_LABEL_INGRESS_ROUTE = ''sls.ingress.route''"
definition SLS_INTERNAL_ENDPOINT :: string where "SLS_INTERNAL_ENDPOINT = ''sls.internal.endpoint''"

lemmas sls_keys =
  SLS_LABEL_PROJECT_def SLS_LABEL_LOGSTORE_def SLS_LABEL_QUERY_INTERVAL_def SLS_LABEL_QUERY_DELAY_def
  SLS_LABEL_QUERY_MAX_RETRY_def SLS_LABEL_INGRESS_ROUTE_def SLS_INTERNAL_ENDPOINT_def

definition GetExternalMetricInfoList_sls :: "string list" where
  "GetExternalMetricInfoList_sls =
     [''sls_alb_ingress_qps'', ''sls_ingress_qps'', ''sls_ingress_latency_avg'', ''sls_ingress_latency_p50'',
      ''sls_ingress_latency_p95'', ''sls_ingress_latency_p9999'', ''sls_ingress_latency_p99'', ''sls_ingress_inflow'']"

section \<open>Parameters\<close>

record sls_params =
  Project :: string
  LogStore :: string
  slsInterval :: int
  DelaySeconds :: int
  MaxRetry :: int
  Internal :: bool
  Route :: string

text \<open>An integer that does not parse ends the loop with its error.\<close>

definition atoi :: "string \<Rightarrow> int res" where
  "atoi v =
     (case parse_int v of
        (n, None) \<Rightarrow> Inr n
      | (n, Some ErrSyntax) \<Rightarrow> Inl (Err (''strconv.Atoi: parsing '' @ quote v @ '': invalid syntax''))
      | (n, Some ErrRange) \<Rightarrow> Inl (Err (''strconv.Atoi: parsing '' @ quote v @ '': value out of range'')))"

definition sls_param :: "string \<Rightarrow> string \<Rightarrow> sls_params \<Rightarrow> sls_params res" where
  "sls_param key v p =
     (if key = SLS_LABEL_PROJECT then Inr (p\<lparr>Project := v\<rparr>)
      else if key = SLS_LABEL_LOGSTORE then Inr (p\<lparr>LogStore := v\<rparr>)
      else if key = SLS_LABEL_INGRESS_ROUTE then Inr (p\<lparr>Route := v\<rparr>)
      else if key = SLS_LABEL_QUERY_INTERVAL then and_then (atoi v) (\<lambda>n. Inr (p\<lparr>slsInterval := n\<rparr>))
      else if key = SLS_LABEL_QUERY_DELAY then and_then (atoi v) (\<lambda>n. Inr (p\<lparr>DelaySeconds := n\<rparr>))
      else if key = SLS_LABEL_QUERY_MAX_RETRY then and_then (atoi v) (\<lambda>n. Inr (p\<lparr>MaxRetry := n\<rparr>))
      else if key = SLS_INTERNAL_ENDPOINT then Inr (if v \<noteq> [] \<and> v = ''false'' then p\<lparr>Internal := False\<rparr> else p)
      else Inr p)"

definition default_sls_params :: sls_params where
  "default_sls_params =
     \<lparr>Project = [], LogStore = [], slsInterval = 15, DelaySeconds = 10, MaxRetry = 5, Internal = True, Route = []\<rparr>"

definition getSLSParams :: "requirement list \<Rightarrow> sls_params res" where
  "getSLSParams reqs =
     and_then (read_params sls_param reqs default_sls_params) (\<lambda>p.
       if Project p = [] \<or> LogStore p = []
       then Inl (Err (SLS_LABEL_PROJECT @ '' and '' @ SLS_LABEL_LOGSTORE @ '' must be provided''))
       else Inr (p\<lparr>slsInterval := (if slsInterval p < 15 then 15 else slsInterval p),
              MaxRetry := (if MaxRetry p < 1 then 5 else MaxRetry p)\<rparr>))"

section \<open>The query\<close>

text \<open>What is selected; the text of an unknown metric is empty.\<close>

definition query_item :: "string \<Rightarrow> int \<Rightarrow> string" where
  "query_item metricName interval =
     (if metricName = ''sls_alb_ingress_qps'' \<or> metricName = ''sls_ingress_qps'' then ''count(1) / '' @ itoa interval
      else if metricName = ''sls_ingress_latency_avg'' then ''avg(request_time) * 1000''
      else if metricName = ''sls_ingress_latency_p50'' then ''approx_percentile(request_time, 0.50) * 1000''
      else if metricName = ''sls_ingress_latency_p95'' then ''approx_percentile(request_time, 0.95) * 1000''
      else if metricName = ''sls_ingress_latency_p9999'' then ''approx_percentile(request_time, 0.9999) * 1000''
      else if metricName = ''sls_ingress_latency_p99'' then ''approx_percentile(request_time, 0.99) * 1000''
      else if metricName = ''sls_ingress_inflow'' then ''sum(request_length) / '' @ itoa interval
      else [])"

text \<open>The range to search and the query; the route that is empty becomes a star.\<close>

definition getSLSIngressQuery :: "gotime \<Rightarrow> sls_params \<Rightarrow> string \<Rightarrow> int \<times> int \<times> string" where
  "getSLSIngressQuery t params metricName =
     (let now = unix_sec t;
          queryRealBegin = wrap64 (wrap64 (now - DelaySeconds params) - slsInterval params);
          end_time = wrap64 (now - DelaySeconds params);
          begin_time = wrap64 (now - 100);
          route = (if length (Route params) = 0 then ''*'' else Route params);
          pool = (if metricName = ''sls_alb_ingress_qps'' then ''slb_pool_name'' else ''proxy_upstream_name'')
      in (begin_time, end_time,
          ''* and '' @ pool @ '': '' @ route @ '' | SELECT '' @ query_item metricName (slsInterval params) @
          '' as value from log WHERE __time__ >= '' @ itoa queryRealBegin @ ''  and __time__ < '' @ itoa end_time))"

section \<open>The client and its answers\<close>

text \<open>
  \<open>CreateNormalInterface\<close> cannot fail. The service answers each call anew: \<open>answer i\<close> is its answer to the call number
  \<open>i\<close> of the loop.
\<close>

record log_request =
  logEndpoint :: string
  logUser :: access_user
  logProject :: string
  logStore :: string
  logFrom :: int
  logTo :: int
  logQuery :: string

record log_response =
  IsComplete :: bool
  Logs :: "(string, string) gomap list"

type_synonym log_service = "log_request \<Rightarrow> nat \<Rightarrow> log_response res"

definition Client_sls :: "access_user res \<Rightarrow> bool \<Rightarrow> (string \<times> access_user) res" where
  "Client_sls user internal =
     and_then user (\<lambda>u. Inr ((if internal then Region u @ ''-intranet.log.aliyuncs.com'' else Region u @ ''.log.aliyuncs.com''), u))"

text \<open>The digits and points of the value, as a number.\<close>

definition log_number :: "string \<Rightarrow> f64 res" where
  "log_number value =
     (let digits = filter (\<lambda>c. is_digit c \<or> c = CHR ''.'') value;
          valStr = (if digits = [] then ''0'' else digits)
      in case parse_float valStr of
           (v, None) \<Rightarrow> Inr v
         | (v, Some ErrSyntax) \<Rightarrow> Inl (Err (''strconv.ParseFloat: parsing '' @ quote valStr @ '': invalid syntax''))
         | (v, Some ErrRange) \<Rightarrow> Inl (Err (''strconv.ParseFloat: parsing '' @ quote valStr @ '': value out of range'')))"

text \<open>\<open>i\<close> calls have been made, \<open>n\<close> are left. A map without the key \<open>value\<close> reads as the empty string.\<close>

fun retry_loop :: "(nat \<Rightarrow> log_response res) \<Rightarrow> gotime \<Rightarrow> string \<Rightarrow> nat \<Rightarrow> nat \<Rightarrow> external_value list res" where
  "retry_loop answer now metricName i 0 = Inl (Err ''Query sls timeout,it might because of too many logs.'')"
| "retry_loop answer now metricName i (Suc n) =
     and_then (answer i) (\<lambda>r.
       if length (Logs r) = 0 then Inr []
       else if \<not> IsComplete r then retry_loop answer now metricName (Suc i) n
       else and_then (log_number (case hd (Logs r) ''value'' of None \<Rightarrow> [] | Some v \<Rightarrow> v))
              (\<lambda>v. Inr [whole_value now metricName v]))"

definition getSLSIngressMetrics ::
  "log_service \<Rightarrow> access_user res \<Rightarrow> gotime \<Rightarrow> requirement list \<Rightarrow> string \<Rightarrow> external_value list res" where
  "getSLSIngressMetrics service user now reqs metricName =
     (case getSLSParams reqs of
        Inl (Err e) \<Rightarrow> Inl (Err (''failed to get sls params,because of '' @ e))
      | Inl (Panic e) \<Rightarrow> Inl (Panic e)
      | Inr params \<Rightarrow>
          and_then (Client_sls user (Internal params)) (\<lambda>(endpoint, u).
            let (begin_time, end_time, query) = getSLSIngressQuery now params metricName in
            if query = [] then Inl (Err ''MetricNotSupport'')
            else retry_loop (service \<lparr>logEndpoint = endpoint, logUser = u, logProject = Project params,
                   logStore = LogStore params, logFrom = begin_time, logTo = end_time, logQuery = query\<rparr>)
                   now metricName 0 (nat (MaxRetry params))))"

definition GetExternalMetric_sls ::
  "log_service \<Rightarrow> access_user res \<Rightarrow> gotime \<Rightarrow> string \<Rightarrow> string \<Rightarrow> requirement list \<Rightarrow> external_value list res" where
  "GetExternalMetric_sls service user now metric namespace reqs = getSLSIngressMetrics service user now reqs metric"

lemma retry_loop_named: "retry_loop answer now metric i n = Inr vs \<Longrightarrow> list_all (carries metric) vs"
  by (induction n arbitrary: i) (auto simp: and_then_eq_Inr split: if_splits)

lemma sls_named: "GetExternalMetric_sls service user now metric namespace reqs = Inr vs \<Longrightarrow> list_all (carries metric) vs"
proof -
  assume ok: "GetExternalMetric_sls service user now metric namespace reqs = Inr vs"
  then obtain params where params: "getSLSParams reqs = Inr params"
    by (auto simp: GetExternalMetric_sls_def getSLSIngressMetrics_def split: sum.splits error.splits)
  obtain b e q where "getSLSIngressQuery now params metric = (b, e, q)" by (cases "getSLSIngressQuery now params metric")
  with ok params show ?thesis
    by (auto simp: GetExternalMetric_sls_def getSLSIngressMetrics_def and_then_eq_Inr split: if_splits dest: retry_loop_named)
qed

interpretation sls_source: metric_source GetExternalMetricInfoList_sls "\<lambda>metric. metric" "GetExternalMetric_sls service user now" for service user now
  by unfold_locales (code_simp, rule sls_named)

section \<open>The parameters that are accepted\<close>

text \<open>Accepted parameters name a project and a store, ask for at least fifteen seconds and try at least once.\<close>

definition wf_sls :: "sls_params \<Rightarrow> bool" where
  "wf_sls p \<longleftrightarrow> Project p \<noteq> [] \<and> LogStore p \<noteq> [] \<and> 15 \<le> slsInterval p \<and> 1 \<le> MaxRetry p \<and>
     in64 (slsInterval p) \<and> in64 (DelaySeconds p) \<and> in64 (MaxRetry p)"

lemma atoi_in64: "atoi v = Inr n \<Longrightarrow> in64 n"
  using parse_int_in64 [of v] by (auto simp: atoi_def split: prod.splits option.splits num_err.splits)

definition sls_in64 :: "sls_params \<Rightarrow> bool" where
  "sls_in64 p \<longleftrightarrow> in64 (slsInterval p) \<and> in64 (DelaySeconds p) \<and> in64 (MaxRetry p)"

lemma sls_param_in64: "sls_in64 p \<Longrightarrow> sls_param k v p = Inr q \<Longrightarrow> sls_in64 q"
  by (auto simp: sls_param_def sls_in64_def and_then_eq_Inr atoi_in64 split: if_splits)

lemma read_sls_in64: "read_params sls_param reqs p = Inr q \<Longrightarrow> sls_in64 p \<Longrightarrow> sls_in64 q"
  by (induction reqs arbitrary: q rule: rev_induct)
    (auto simp: and_then_eq_Inr intro: sls_param_in64 split: option.splits)

lemma getSLSParams_wf:
  assumes "getSLSParams reqs = Inr p"
  shows "wf_sls p"
proof -
  obtain q where q: "read_params sls_param reqs default_sls_params = Inr q"
    "(if Project q = [] \<or> LogStore q = []
      then Inl (Err (SLS_LABEL_PROJECT @ '' and '' @ SLS_LABEL_LOGSTORE @ '' must be provided''))
      else Inr (q\<lparr>slsInterval := (if slsInterval q < 15 then 15 else slsInterval q),
             MaxRetry := (if MaxRetry q < 1 then 5 else MaxRetry q)\<rparr>)) = Inr p"
    using assms unfolding getSLSParams_def and_then_eq_Inr by blast
  have "sls_in64 q" by (rule read_sls_in64 [OF q(1)]) (simp add: sls_in64_def default_sls_params_def in64_def)
  with q(2) show ?thesis
    by (cases "Project q = [] \<or> LogStore q = []") (auto simp: wf_sls_def sls_in64_def in64_def)
qed

section \<open>Asking again\<close>

text \<open>An answer the loop stops at: a failure, one without logs, or a finished one.\<close>

definition stops :: "log_response res \<Rightarrow> bool" where
  "stops a \<longleftrightarrow> (case a of Inl e \<Rightarrow> True | Inr r \<Rightarrow> Logs r = [] \<or> IsComplete r)"

definition log_values :: "gotime \<Rightarrow> string \<Rightarrow> log_response res \<Rightarrow> external_value list res" where
  "log_values now name a =
     and_then a (\<lambda>r. if Logs r = [] then Inr []
       else and_then (log_number (case hd (Logs r) ''value'' of None \<Rightarrow> [] | Some v \<Rightarrow> v)) (\<lambda>v. Inr [whole_value now name v]))"

lemma retry_loop_find:
  "retry_loop answer now name i n =
     (case find (\<lambda>j. stops (answer j)) [i..<i + n] of
        None \<Rightarrow> Inl (Err ''Query sls timeout,it might because of too many logs.'')
      | Some j \<Rightarrow> log_values now name (answer j))"
proof (induction n arbitrary: i)
  case (Suc n)
  have u: "[i..<i + Suc n] = i # [Suc i..<Suc i + n]" by (simp add: upt_conv_Cons del: upt_Suc)
  show ?case
  proof (cases "stops (answer i)")
    case True
    then show ?thesis unfolding u by (auto simp: log_values_def stops_def split: sum.splits)
  next
    case False
    with Suc show ?thesis unfolding u by (auto simp: stops_def split: sum.splits)
  qed
qed simp

text \<open>
  C23. The log service is asked again exactly while it answers with unfinished logs: the request with valid parameters
  answers with the first of at most \<open>MaxRetry\<close> answers that is a failure, has no logs or is finished, and times out when there is
  none; it always returns, and the number of tries is at least one.
\<close>

theorem getSLSIngressMetrics_retries:
  assumes "getSLSParams reqs = Inr p" "Client_sls user (Internal p) = Inr (endpoint, u)"
    and "getSLSIngressQuery now p metricName = (b, e, q)"
  shows "getSLSIngressMetrics service user now reqs metricName =
    (let answer = service \<lparr>logEndpoint = endpoint, logUser = u, logProject = Project p, logStore = LogStore p,
           logFrom = b, logTo = e, logQuery = q\<rparr>
     in case find (\<lambda>i. stops (answer i)) [0..<nat (MaxRetry p)] of
          None \<Rightarrow> Inl (Err ''Query sls timeout,it might because of too many logs.'')
        | Some i \<Rightarrow> log_values now metricName (answer i)) \<and> 0 < nat (MaxRetry p)"
proof -
  have "q \<noteq> []" using assms(3) by (auto simp: getSLSIngressQuery_def Let_def)
  moreover have "1 \<le> MaxRetry p" using getSLSParams_wf [OF assms(1)] by (simp add: wf_sls_def)
  ultimately show ?thesis
    using assms by (simp add: getSLSIngressMetrics_def retry_loop_find Let_def)
qed

definition demo_sls_user :: access_user where
  "demo_sls_user = \<lparr>AccessKeyId = ''ak'', AccessKeySecret = ''sk'', SecurityToken = [], Expiration = [], Keyring = [], Region = ''r''\<rparr>"

definition demo_sls_reqs :: "requirement list" where
  "demo_sls_reqs =
     [\<lparr>rkey = SLS_LABEL_PROJECT, roperator = Equals, rvalues = [''p'']\<rparr>, \<lparr>rkey = SLS_LABEL_LOGSTORE, roperator = Equals, rvalues = [''l'']\<rparr>]"

text \<open>Unfinished twice, then an answer.\<close>

definition demo_log_service :: log_service where
  "demo_log_service r i = Inr \<lparr>IsComplete = (2 \<le> i), Logs = [[''value'' \<mapsto> ''12'']]\<rparr>"

theorem getSLSIngressMetrics_retries_witness:
  "getSLSIngressMetrics demo_log_service (Inr demo_sls_user) (unix_utc 1000) demo_sls_reqs ''sls_ingress_qps'' =
     Inr [\<lparr>MetricName = ''sls_ingress_qps'', MetricLabels = Map.empty, Timestamp = 1000000, MilliValue = 12000\<rparr>]"
proof -
  let ?p = "default_sls_params\<lparr>Project := ''p'', LogStore := ''l''\<rparr>"
  have p: "getSLSParams demo_sls_reqs = Inr ?p" by code_simp
  have c: "Client_sls (Inr demo_sls_user) (Internal ?p) = Inr (''r-intranet.log.aliyuncs.com'', demo_sls_user)" by code_simp
  obtain b e q where q: "getSLSIngressQuery (unix_utc 1000) ?p ''sls_ingress_qps'' = (b, e, q)" by (rule prod_cases3)
  have f: "find (\<lambda>i. stops (demo_log_service r i)) [0..<nat (MaxRetry ?p)] = Some 2" for r
    by (simp add: default_sls_params_def stops_def demo_log_service_def upt_rec)
  have v: "log_number ''12'' = Inr (Fin 12)" by code_simp
  have w: "whole_value (unix_utc 1000) ''sls_ingress_qps'' (Fin 12) =
      \<lparr>MetricName = ''sls_ingress_qps'', MetricLabels = Map.empty, Timestamp = 1000000, MilliValue = 12000\<rparr>"
    by (simp add: whole_value_def unix_utc_def trunc64_def f64_to_int64_def trunc_rat_def in64_def)
  show ?thesis
    using getSLSIngressMetrics_retries [OF p c q, of demo_log_service]
    by (simp only: Let_def f option.case) (simp add: log_values_def demo_log_service_def v w)
qed

section \<open>Which logs are searched\<close>

text \<open>
  The range the log service searches against the window the query counts in and divides by: the end is the end
  of the window, but the range begins a hundred seconds ago, so it covers the whole window exactly when interval and delay
  are at most a hundred seconds together; a longer interval is divided by but not searched.
\<close>

theorem getSLSIngressQuery_window:
  assumes "wf_sls p" "0 \<le> unix_sec t" "unix_sec t \<le> 2 ^ 62" "0 \<le> DelaySeconds p" "DelaySeconds p \<le> 2 ^ 61" "slsInterval p \<le> 2 ^ 61"
    and "getSLSIngressQuery t p metricName = (b, e, q)"
  shows "e = unix_sec t - DelaySeconds p \<and> b = unix_sec t - 100 \<and>
    (\<exists>text. q = text @ '' as value from log WHERE __time__ >= '' @ itoa (e - slsInterval p) @ ''  and __time__ < '' @ itoa e) \<and>
    (b \<le> e - slsInterval p \<longleftrightarrow> slsInterval p + DelaySeconds p \<le> 100)"
proof -
  have w: "wrap64 (unix_sec t - DelaySeconds p) = unix_sec t - DelaySeconds p"
    "wrap64 (unix_sec t - DelaySeconds p - slsInterval p) = unix_sec t - DelaySeconds p - slsInterval p"
    "wrap64 (unix_sec t - 100) = unix_sec t - 100"
    using assms(1-6) by (auto intro!: wrap64_id simp: in64_def wf_sls_def)
  have e: "e = unix_sec t - DelaySeconds p" "b = unix_sec t - 100"
    using assms(7) by (auto simp: getSLSIngressQuery_def Let_def w)
  moreover have "\<exists>text. q = text @ '' as value from log WHERE __time__ >= '' @ itoa (e - slsInterval p) @ ''  and __time__ < '' @ itoa e"
    using assms(7) unfolding getSLSIngressQuery_def Let_def w e(1) prod.inject append_assoc [symmetric] by blast
  ultimately show ?thesis by auto
qed

theorem getSLSIngressQuery_window_witness:
  "let p = default_sls_params\<lparr>Project := ''p'', LogStore := ''l'', slsInterval := 120\<rparr> in
   \<not> fst (getSLSIngressQuery (unix_utc 1000) p ''sls_ingress_qps'') \<le> unix_sec (unix_utc 1000) - DelaySeconds p - slsInterval p"
proof -
  let ?p = "default_sls_params\<lparr>Project := ''p'', LogStore := ''l'', slsInterval := 120\<rparr>"
  have u: "unix_sec (unix_utc 1000) = 1000" by (simp add: unix_sec_def unix_utc_def in64_def)
  have "wf_sls ?p" by (simp add: wf_sls_def default_sls_params_def in64_def)
  moreover obtain b e q where q: "getSLSIngressQuery (unix_utc 1000) ?p ''sls_ingress_qps'' = (b, e, q)" by (rule prod_cases3)
  ultimately have "e = 1000 - DelaySeconds ?p \<and> (b \<le> e - slsInterval ?p \<longleftrightarrow> slsInterval ?p + DelaySeconds ?p \<le> 100)"
    using getSLSIngressQuery_window [of ?p "unix_utc 1000"] by (simp add: u default_sls_params_def)
  then show ?thesis unfolding Let_def q u fst_conv by (simp add: default_sls_params_def)
qed

section \<open>What is read out of the answer\<close>

lemma decimal_value_dec: "decimal_value (dec k) = Some (False, of_nat k)"
proof -
  obtain c s where d: "dec k = c # s" by (cases "dec k") auto
  have "list_all is_digit (dec k)" using dec_digits [of k] by (simp add: list_all_iff)
  then have "takeWhile is_digit (dec k) = dec k" "dropWhile is_digit (dec k) = []" by (auto simp: list_all_iff)
  moreover have "c \<noteq> CHR ''-''" "c \<noteq> CHR ''+''" using dec_digits [of k] d by (auto simp: is_digit_def)
  ultimately show ?thesis
    using d digits_val_dec [of k] by (simp add: decimal_value_def Let_def pow10_def)
qed

lemma filter_itoa: "filter (\<lambda>c. is_digit c \<or> c = CHR ''.'') (itoa n) = dec (nat \<bar>n\<bar>)"
proof -
  have "filter (\<lambda>c. is_digit c \<or> c = CHR ''.'') (dec k) = dec k" for k using dec_digits [of k] by (auto intro: filter_True)
  moreover have "\<not> is_digit (CHR ''-'')" by code_simp
  ultimately show ?thesis by (simp add: itoa_def)
qed

text \<open>
  A whole number in the answer of the log service is read exactly as far as a float can, and a sign in front of it
  is lost: a negative value counts as its magnitude.
\<close>

theorem log_number_itoa:
  assumes "\<bar>n\<bar> \<le> 2 ^ 53"
  shows "log_number (itoa n) = Inr (Fin (of_int \<bar>n\<bar>))"
proof -
  have "round64 False (of_nat (nat \<bar>n\<bar>)) = Fin (of_int \<bar>n\<bar>)"
    using f64_of_int_exact [of "\<bar>n\<bar>"] assms by (simp add: f64_of_int_def)
  then have "parse_float (dec (nat \<bar>n\<bar>)) = (Fin (of_int \<bar>n\<bar>), None)"
    by (simp add: parse_float_def decimal_value_dec)
  then show ?thesis unfolding log_number_def filter_itoa Let_def by simp
qed

theorem log_number_itoa_witness: "log_number (itoa (- 7)) = Inr (Fin 7)"
  using log_number_itoa [of "- 7"] by simp

end
