(* ===== verification/Metric_Fanout.thy ===== *)
theory Metric_Fanout
  imports Go_Strings
begin

text \<open>
  The fan-out by which both Prometheus providers list their series: one goroutine for each distinct
  selector, two buffered channels, and a loop that receives one error and one series per
  namer (\<open>basicMetricLister.ListAllMetrics\<close>, and the same code in
  \<open>cachingMetricsLister.updateMetrics\<close>). The interleavings are a step relation; the lemmas give its
  invariant, that it cannot block, that every run ends, and what it returns.
\<close>

section \<open>Series and namers\<close>

text \<open>
  A series of the Prometheus client, and the interface \<open>naming.MetricNamer\<close> of the Prometheus
  adapter, whose implementations are not part of this program. An error is its text.
\<close>

type_synonym 'a or_error = "string + 'a"

record series =
  seriesName :: string
  seriesLabels :: "(string \<times> string) list"

record group_resource =
  grGroup :: string
  grResource :: string

record metric_namer =
  Selector :: string
  FilterSeries :: "series list \<Rightarrow> series list"
  ResourcesForSeries :: "series \<Rightarrow> group_resource list \<times> bool"
  LabelForResource :: "group_resource \<Rightarrow> string or_error"
  MetricNameForSeries :: "series \<Rightarrow> string or_error"
  QueryForSeries :: "string \<Rightarrow> group_resource \<Rightarrow> string \<Rightarrow> string \<Rightarrow> string list \<Rightarrow> string or_error"
  QueryForExternalSeries :: "string \<Rightarrow> string \<Rightarrow> string \<Rightarrow> string or_error"

record update_result =
  rSeries :: "series list list"
  rNamers :: "metric_namer list"

section \<open>The steps\<close>

text \<open>
  A goroutine is fetching the series of its selector, or about to send them. The main goroutine
  launches, sends the second message of a duplicate selector, receives an error or a series
  (with the number of namers left), or has returned.
\<close>

datatype worker = Fetching string | Sending string "series list option"

datatype phase =
    Launch
  | SendDup
  | ReadErr nat
  | ReadSeries nat
  | Returned "string + update_result"

record fan_state =
  todo :: "metric_namer list"
  selectors :: "string set"
  workers :: "worker list"
  errs :: "string option list"
  selectorSeriesChan :: "(string \<times> series list option) list"
  seriesCacheByQuery :: "(string, series list) gomap"
  phase :: phase

definition fan_start :: "metric_namer list \<Rightarrow> fan_state" where
  "fan_start namers =
     \<lparr>todo = namers, selectors = {}, workers = [], errs = [], selectorSeriesChan = [],
      seriesCacheByQuery = Map.empty, phase = Launch\<rparr>"

text \<open>What the received series are turned into: the namers without series are left out.\<close>

definition collect :: "(string, series list) gomap \<Rightarrow> metric_namer list \<Rightarrow> update_result" where
  "collect found namers =
     (let kept = filter (\<lambda>n. found (Selector n) \<noteq> None) namers
      in \<lparr>rSeries = map (\<lambda>n. FilterSeries n (the (found (Selector n)))) kept, rNamers = kept\<rparr>)"

definition fetch_error :: "string \<Rightarrow> string \<Rightarrow> string" where
  "fetch_error quoted m = ''unable to fetch metrics for query '' @ quoted @ '': '' @ m"

definition list_error :: "string \<Rightarrow> string" where
  "list_error m = ''unable to update list of all metrics: '' @ m"

text \<open>
  \<open>answer\<close> is what the Prometheus client returns for each selector (a nil slice is \<open>None\<close>),
  \<open>q\<close> prints a selector with \<open>%q\<close>. Both channels hold \<open>length namers\<close> messages; a
  send to a full channel waits.
\<close>

inductive fan_step ::
  "(string \<Rightarrow> string + series list option) \<Rightarrow> (string \<Rightarrow> string) \<Rightarrow> metric_namer list \<Rightarrow> fan_state \<Rightarrow> fan_state \<Rightarrow> bool"
  for answer q namers where
  launch_dup:
    "phase st = Launch \<Longrightarrow> todo st = n # ns \<Longrightarrow> Selector n \<in> selectors st \<Longrightarrow> length (errs st) < length namers \<Longrightarrow>
     fan_step answer q namers st (st\<lparr>errs := errs st @ [None], phase := SendDup\<rparr>)"
| send_dup:
    "phase st = SendDup \<Longrightarrow> todo st = n # ns \<Longrightarrow> length (selectorSeriesChan st) < length namers \<Longrightarrow>
     fan_step answer q namers st
       (st\<lparr>selectorSeriesChan := selectorSeriesChan st @ [([], None)], todo := ns, phase := Launch\<rparr>)"
| launch_go:
    "phase st = Launch \<Longrightarrow> todo st = n # ns \<Longrightarrow> Selector n \<notin> selectors st \<Longrightarrow>
     fan_step answer q namers st
       (st\<lparr>selectors := insert (Selector n) (selectors st), workers := workers st @ [Fetching (Selector n)], todo := ns\<rparr>)"
| launched:
    "phase st = Launch \<Longrightarrow> todo st = [] \<Longrightarrow>
     fan_step answer q namers st (st\<lparr>phase := ReadErr (length namers)\<rparr>)"
| worker_fails:
    "workers st = us @ Fetching sel # vs \<Longrightarrow> answer sel = Inl m \<Longrightarrow> length (errs st) < length namers \<Longrightarrow>
     fan_step answer q namers st (st\<lparr>errs := errs st @ [Some (fetch_error (q sel) m)], workers := us @ vs\<rparr>)"
| worker_fetches:
    "workers st = us @ Fetching sel # vs \<Longrightarrow> answer sel = Inr s \<Longrightarrow> length (errs st) < length namers \<Longrightarrow>
     fan_step answer q namers st (st\<lparr>errs := errs st @ [None], workers := us @ Sending sel s # vs\<rparr>)"
| worker_sends:
    "workers st = us @ Sending sel s # vs \<Longrightarrow> length (selectorSeriesChan st) < length namers \<Longrightarrow>
     fan_step answer q namers st
       (st\<lparr>selectorSeriesChan := selectorSeriesChan st @ [(sel, s)], workers := us @ vs\<rparr>)"
| read_failure:
    "phase st = ReadErr (Suc k) \<Longrightarrow> errs st = Some m # es \<Longrightarrow>
     fan_step answer q namers st (st\<lparr>errs := es, phase := Returned (Inl (list_error m))\<rparr>)"
| read_nil:
    "phase st = ReadErr (Suc k) \<Longrightarrow> errs st = None # es \<Longrightarrow>
     fan_step answer q namers st (st\<lparr>errs := es, phase := ReadSeries k\<rparr>)"
| read_series:
    "phase st = ReadSeries k \<Longrightarrow> selectorSeriesChan st = (sel, s) # ss \<Longrightarrow>
     fan_step answer q namers st
       (st\<lparr>selectorSeriesChan := ss, phase := ReadErr k,
          seriesCacheByQuery := (case s of None \<Rightarrow> seriesCacheByQuery st | Some x \<Rightarrow> (seriesCacheByQuery st)(sel \<mapsto> x))\<rparr>)"
| all_read:
    "phase st = ReadErr 0 \<Longrightarrow>
     fan_step answer q namers st (st\<lparr>phase := Returned (Inr (collect (seriesCacheByQuery st) namers))\<rparr>)"

inductive fan_reach ::
  "(string \<Rightarrow> string + series list option) \<Rightarrow> (string \<Rightarrow> string) \<Rightarrow> metric_namer list \<Rightarrow> fan_state \<Rightarrow> bool"
  for answer q namers where
  initial: "fan_reach answer q namers (fan_start namers)"
| advance: "fan_reach answer q namers st \<Longrightarrow> fan_step answer q namers st st' \<Longrightarrow> fan_reach answer q namers st'"

section \<open>Every run ends\<close>

primrec phase_rank :: "nat \<Rightarrow> phase \<Rightarrow> nat" where
  "phase_rank n Launch = 2 * n + 3"
| "phase_rank n SendDup = 2 * n + 2"
| "phase_rank n (ReadErr k) = 2 * k + 1"
| "phase_rank n (ReadSeries k) = 2 * k + 2"
| "phase_rank n (Returned r) = 0"

primrec worker_rank :: "worker \<Rightarrow> nat" where
  "worker_rank (Fetching sel) = 3"
| "worker_rank (Sending sel s) = 1"

definition fan_rank :: "metric_namer list \<Rightarrow> fan_state \<Rightarrow> nat" where
  "fan_rank namers st =
     6 * length (todo st) + sum_list (map worker_rank (workers st)) + phase_rank (length namers) (phase st)"

lemma fan_step_rank: "fan_step answer q namers st st' \<Longrightarrow> fan_rank namers st' < fan_rank namers st"
  by (induction rule: fan_step.induct) (simp_all add: fan_rank_def)

section \<open>The invariant\<close>

text \<open>Messages and goroutines, counted; \<open>pending\<close> namers have not sent an error yet.\<close>

definition fetching :: "fan_state \<Rightarrow> nat" where
  "fetching st = length (filter (\<lambda>w. case w of Fetching _ \<Rightarrow> True | _ \<Rightarrow> False) (workers st))"

definition sending :: "fan_state \<Rightarrow> nat" where
  "sending st = length (filter (\<lambda>w. case w of Sending _ _ \<Rightarrow> True | _ \<Rightarrow> False) (workers st))"

definition nils :: "fan_state \<Rightarrow> nat" where
  "nils st = length (filter (\<lambda>e. e = None) (errs st))"

definition dup :: "fan_state \<Rightarrow> nat" where
  "dup st = (if phase st = SendDup then 1 else 0)"

primrec errs_left :: "nat \<Rightarrow> phase \<Rightarrow> nat" where
  "errs_left n Launch = n" | "errs_left n SendDup = n" | "errs_left n (ReadErr k) = k"
| "errs_left n (ReadSeries k) = k" | "errs_left n (Returned r) = 0"

definition returned :: "fan_state \<Rightarrow> bool" where
  "returned st \<longleftrightarrow> (\<exists>r. phase st = Returned r)"

definition reading :: "fan_state \<Rightarrow> nat" where
  "reading st = (case phase st of ReadSeries k \<Rightarrow> 1 | _ \<Rightarrow> 0)"

text \<open>
  Every namer's error is to come or in the channel; as many series as nil errors; room in both channels.
\<close>

definition fan_counts :: "metric_namer list \<Rightarrow> fan_state \<Rightarrow> bool" where
  "fan_counts namers st \<longleftrightarrow>
     (\<not> returned st \<longrightarrow>
        length (errs st) + fetching st + length (todo st) = errs_left (length namers) (phase st) + dup st \<and>
        length (selectorSeriesChan st) + sending st + dup st = nils st + reading st) \<and>
     length (errs st) + fetching st + length (todo st) \<le> length namers + dup st \<and>
     length (selectorSeriesChan st) + sending st + fetching st + length (todo st) \<le> length namers \<and>
     (phase st \<noteq> Launch \<and> phase st \<noteq> SendDup \<longrightarrow> todo st = []) \<and>
     (phase st = SendDup \<longrightarrow> todo st \<noteq> [])"

lemmas count_defs = fan_counts_def fetching_def sending_def nils_def dup_def returned_def reading_def

lemma fan_counts_start: "fan_counts namers (fan_start namers)"
  by (simp add: count_defs fan_start_def)

lemma fan_counts_step: "fan_step answer q namers st st' \<Longrightarrow> fan_counts namers st \<Longrightarrow> fan_counts namers st'"
  by (induction rule: fan_step.induct) (auto simp: count_defs)

lemma fan_reach_counts: "fan_reach answer q namers st \<Longrightarrow> fan_counts namers st"
  by (induction rule: fan_reach.induct) (auto intro: fan_counts_start fan_counts_step)

section \<open>No goroutine is blocked forever\<close>

lemma worker_can_step:
  assumes "fan_counts namers st" "workers st = w # ws"
  shows "\<exists>st'. fan_step answer q namers st st'"
proof (cases w)
  case (Fetching sel)
  have "workers st = [] @ Fetching sel # ws" using assms(2) Fetching by simp
  moreover have "length (errs st) < length namers"
    using assms Fetching by (auto simp: count_defs neq_Nil_conv split: if_splits)
  ultimately show ?thesis
    using fan_step.worker_fails fan_step.worker_fetches by (cases "answer sel") blast+
next
  case (Sending sel s)
  have "workers st = [] @ Sending sel s # ws" using assms(2) Sending by simp
  moreover have "length (selectorSeriesChan st) < length namers"
    using assms Sending by (auto simp: count_defs split: if_splits)
  ultimately show ?thesis using fan_step.worker_sends by blast
qed

lemma main_can_step:
  assumes "fan_counts namers st" "workers st = []" "\<not> returned st"
  shows "\<exists>st'. fan_step answer q namers st st'"
proof (cases "phase st")
  case Launch
  show ?thesis
  proof (cases "todo st")
    case Nil
    with Launch show ?thesis using fan_step.launched by blast
  next
    case (Cons n ns)
    then have "length (errs st) < length namers" using assms Launch by (simp add: count_defs)
    with Launch Cons show ?thesis using fan_step.launch_dup fan_step.launch_go by (cases "Selector n \<in> selectors st") blast+
  qed
next
  case SendDup
  then obtain n ns where t: "todo st = n # ns" using assms(1) by (auto simp: fan_counts_def neq_Nil_conv)
  then have "length (selectorSeriesChan st) < length namers" using assms(1) by (simp add: count_defs)
  with SendDup t show ?thesis using fan_step.send_dup by blast
next
  case (ReadErr k)
  show ?thesis
  proof (cases k)
    case 0
    with ReadErr show ?thesis using fan_step.all_read by blast
  next
    case (Suc j)
    then have "errs st \<noteq> []" using assms ReadErr by (auto simp: count_defs)
    then obtain e es where "errs st = e # es" by (cases "errs st") auto
    with ReadErr Suc show ?thesis using fan_step.read_failure fan_step.read_nil by (cases e) blast+
  qed
next
  case (ReadSeries k)
  then have "selectorSeriesChan st \<noteq> []" using assms by (auto simp: count_defs)
  then obtain sel s ss where "selectorSeriesChan st = (sel, s) # ss" by (cases "selectorSeriesChan st") auto
  with ReadSeries show ?thesis using fan_step.read_series by blast
next
  case (Returned r)
  with assms(3) show ?thesis by (simp add: returned_def)
qed

lemma fan_progress:
  "fan_counts namers st \<Longrightarrow> \<not> (returned st \<and> workers st = []) \<Longrightarrow> \<exists>st'. fan_step answer q namers st st'"
  using worker_can_step main_can_step by (cases "workers st") blast+

section \<open>What is returned\<close>

definition found_series :: "(string \<Rightarrow> string + series list option) \<Rightarrow> (string, series list) gomap" where
  "found_series answer sel = (case answer sel of Inr s \<Rightarrow> s | Inl _ \<Rightarrow> None)"

text \<open>The specification: one query for each namer, in order, with no concurrency.\<close>

definition list_series :: "(string \<Rightarrow> string + series list option) \<Rightarrow> metric_namer list \<Rightarrow> update_result" where
  "list_series answer namers = collect (found_series answer) namers"

definition lists :: "(string \<Rightarrow> string + series list option) \<Rightarrow> (string \<Rightarrow> string) \<Rightarrow> metric_namer list \<Rightarrow> string + update_result \<Rightarrow> bool" where
  "lists answer q namers r \<longleftrightarrow>
     (case r of
        Inr u \<Rightarrow> list_all (\<lambda>n. \<not> isl (answer (Selector n))) namers \<and> u = list_series answer namers
      | Inl m \<Rightarrow> list_ex (\<lambda>n. case answer (Selector n) of
          Inl e \<Rightarrow> m = list_error (fetch_error (q (Selector n)) e) | Inr _ \<Rightarrow> False) namers)"

lemma collect_cong:
  assumes "\<And>n. n \<in> set namers \<Longrightarrow> f (Selector n) = g (Selector n)"
  shows "collect f namers = collect g namers"
proof -
  have "filter (\<lambda>n. f (Selector n) \<noteq> None) namers = filter (\<lambda>n. g (Selector n) \<noteq> None) namers"
    using assms by (intro filter_cong) simp_all
  then show ?thesis using assms by (auto simp: collect_def Let_def)
qed

text \<open>Where the answer to a launched selector is.\<close>

definition accounted :: "(string \<Rightarrow> string + series list option) \<Rightarrow> fan_state \<Rightarrow> string \<Rightarrow> bool" where
  "accounted answer st sel \<longleftrightarrow>
     Fetching sel \<in> set (workers st) \<or>
     (case answer sel of
        Inl e \<Rightarrow> \<exists>m. Some m \<in> set (errs st)
      | Inr s \<Rightarrow> Sending sel s \<in> set (workers st) \<or> (sel, s) \<in> set (selectorSeriesChan st) \<or>
          seriesCacheByQuery st sel = s)"

definition fetch_failure :: "(string \<Rightarrow> string + series list option) \<Rightarrow> (string \<Rightarrow> string) \<Rightarrow> string set \<Rightarrow> string \<Rightarrow> bool" where
  "fetch_failure answer q sels m \<longleftrightarrow> (\<exists>sel \<in> sels. \<exists>e. answer sel = Inl e \<and> m = fetch_error (q sel) e)"

lemma fetch_failure_insert: "fetch_failure answer q sels m \<Longrightarrow> fetch_failure answer q (insert sel sels) m"
  by (auto simp: fetch_failure_def)

lemma fetch_failureI: "answer sel = Inl e \<Longrightarrow> sel \<in> sels \<Longrightarrow> fetch_failure answer q sels (fetch_error (q sel) e)"
  by (auto simp: fetch_failure_def)

definition fan_safe :: "(string \<Rightarrow> string + series list option) \<Rightarrow> (string \<Rightarrow> string) \<Rightarrow> metric_namer list \<Rightarrow> fan_state \<Rightarrow> bool" where
  "fan_safe answer q namers st \<longleftrightarrow>
     selectors st \<union> Selector ` set (todo st) = Selector ` set namers \<and>
     (phase st = SendDup \<longrightarrow> Selector (hd (todo st)) \<in> selectors st) \<and>
     (\<forall>sel. Fetching sel \<in> set (workers st) \<longrightarrow> sel \<in> selectors st) \<and>
     (\<forall>sel s. Sending sel s \<in> set (workers st) \<longrightarrow> answer sel = Inr s) \<and>
     (\<forall>sel s. (sel, s) \<in> set (selectorSeriesChan st) \<longrightarrow> s = None \<or> answer sel = Inr s) \<and>
     (\<forall>sel x. seriesCacheByQuery st sel = Some x \<longrightarrow> answer sel = Inr (Some x)) \<and>
     (\<forall>m. Some m \<in> set (errs st) \<longrightarrow> fetch_failure answer q (selectors st) m)"

definition fan_data :: "(string \<Rightarrow> string + series list option) \<Rightarrow> (string \<Rightarrow> string) \<Rightarrow> metric_namer list \<Rightarrow> fan_state \<Rightarrow> bool" where
  "fan_data answer q namers st \<longleftrightarrow>
     fan_safe answer q namers st \<and>
     (\<forall>r. phase st = Returned r \<longrightarrow> lists answer q namers r) \<and>
     (\<not> returned st \<longrightarrow> (\<forall>sel \<in> selectors st. accounted answer st sel))"

lemma fan_data_start: "fan_data answer q namers (fan_start namers)"
  by (simp add: fan_data_def fan_safe_def fan_start_def)

lemma lists_failure:
  assumes "fan_data answer q namers st" "Some m \<in> set (errs st)"
  shows "lists answer q namers (Inl (list_error m))"
proof -
  obtain sel e where "sel \<in> selectors st" "answer sel = Inl e" "m = fetch_error (q sel) e"
    using assms unfolding fan_data_def fan_safe_def fetch_failure_def by blast
  moreover from this(1) obtain n where "n \<in> set namers" "sel = Selector n"
    using assms(1) unfolding fan_data_def fan_safe_def by blast
  ultimately show ?thesis by (auto simp: lists_def list_ex_iff split: sum.split intro!: bexI [of _ n])
qed

lemma lists_success:
  assumes d: "fan_data answer q namers st" and c: "fan_counts namers st" and p: "phase st = ReadErr 0"
  shows "lists answer q namers (Inr (collect (seriesCacheByQuery st) namers))"
proof -
  have empty: "errs st = []" "workers st = []" "selectorSeriesChan st = []" "todo st = []"
  proof -
    have "fetching st = 0" "sending st = 0" "errs st = []" "selectorSeriesChan st = []" "todo st = []"
      using c p by (auto simp: fan_counts_def returned_def dup_def nils_def reading_def)
    then show "errs st = []" "selectorSeriesChan st = []" "todo st = []" by simp_all
    show "workers st = []"
      using \<open>fetching st = 0\<close> \<open>sending st = 0\<close>
      by (cases "workers st") (auto simp: fetching_def sending_def split: worker.splits)
  qed
  have found: "\<exists>s. answer (Selector n) = Inr s \<and> seriesCacheByQuery st (Selector n) = s" if "n \<in> set namers" for n
  proof -
    have "Selector n \<in> selectors st" using d that empty(4) unfolding fan_data_def fan_safe_def by auto
    then have "accounted answer st (Selector n)" using d p unfolding fan_data_def fan_safe_def returned_def by auto
    then show ?thesis using empty by (auto simp: accounted_def split: sum.splits)
  qed
  have "collect (seriesCacheByQuery st) namers = list_series answer namers"
    unfolding list_series_def by (rule collect_cong) (use found in \<open>force simp: found_series_def\<close>)
  moreover have "list_all (\<lambda>n. \<not> isl (answer (Selector n))) namers" using found by (force simp: list_all_iff)
  ultimately show ?thesis by (simp add: lists_def)
qed

lemma union_known: "a \<in> A \<Longrightarrow> insert a (A \<union> B) = A \<union> B"
  by auto

lemma fan_safe_step: "fan_step answer q namers st st' \<Longrightarrow> fan_safe answer q namers st \<Longrightarrow> fan_safe answer q namers st'"
proof (induction rule: fan_step.induct)
  case (read_series st k sel s ss)
  then show ?case by (cases s) (auto simp: fan_safe_def)
next
  case (launch_dup st n ns)
  then show ?case by (auto simp: fan_safe_def)
next
  case (send_dup st n ns)
  then have n: "Selector n \<in> selectors st" and u: "selectors st \<union> Selector ` set (todo st) = Selector ` set namers"
    by (simp_all add: fan_safe_def)
  have "selectors st \<union> Selector ` set ns = Selector ` set namers"
    using u unfolding send_dup.hyps(2) by (simp add: union_known [OF n])
  with send_dup.prems show ?case by (simp add: fan_safe_def)
next
  case (launch_go st n ns)
  then have "selectors st \<union> Selector ` set (todo st) = Selector ` set namers" by (simp add: fan_safe_def)
  then have "insert (Selector n) (selectors st \<union> Selector ` set ns) = Selector ` set namers"
    unfolding launch_go.hyps(2) by simp
  with launch_go.prems launch_go.hyps(1) show ?case by (simp add: fan_safe_def fetch_failure_insert)
next
  case (launched st)
  then show ?case by (auto simp: fan_safe_def intro: fetch_failureI)
next
  case (worker_fails st us sel vs m)
  then show ?case by (auto simp: fan_safe_def intro: fetch_failureI)
next
  case (worker_fetches st us sel vs s)
  then show ?case by (auto simp: fan_safe_def intro: fetch_failureI)
next
  case (worker_sends st us sel s vs)
  then show ?case by (auto simp: fan_safe_def intro: fetch_failureI)
next
  case (read_failure st k m es)
  then show ?case by (auto simp: fan_safe_def intro: fetch_failureI)
next
  case (read_nil st k es)
  then show ?case by (auto simp: fan_safe_def intro: fetch_failureI)
next
  case (all_read st)
  then show ?case by (auto simp: fan_safe_def intro: fetch_failureI)
qed

lemma accounted_step:
  "fan_step answer q namers st st' \<Longrightarrow> fan_safe answer q namers st \<Longrightarrow> \<not> returned st' \<Longrightarrow> sel' \<in> selectors st' \<Longrightarrow>
   (\<And>sel. sel \<in> selectors st \<Longrightarrow> accounted answer st sel) \<Longrightarrow> accounted answer st' sel'"
proof (induction rule: fan_step.induct)
  case (launch_dup st n ns)
  then show ?case by (fastforce simp: accounted_def split: sum.splits)
next
  case (send_dup st n ns)
  then show ?case by (fastforce simp: accounted_def split: sum.splits)
next
  case (launch_go st n ns)
  then show ?case by (fastforce simp: accounted_def split: sum.splits)
next
  case (launched st)
  then show ?case by (fastforce simp: accounted_def split: sum.splits)
next
  case (worker_fails st us sel vs m)
  then show ?case by (fastforce simp: accounted_def split: sum.splits)
next
  case (worker_fetches st us sel vs s)
  then show ?case by (fastforce simp: accounted_def split: sum.splits)
next
  case (worker_sends st us sel s vs)
  then show ?case by (fastforce simp: accounted_def split: sum.splits)
next
  case (read_nil st k es)
  then show ?case by (fastforce simp: accounted_def split: sum.splits)
next
  case (read_series st k sel s ss)
  from read_series.prems have "accounted answer st sel'" by simp
  with read_series show ?case
    by (cases s; cases "answer sel'") (auto simp: accounted_def fan_safe_def)
qed (simp_all add: returned_def)

lemma fan_step_not_returned: "fan_step answer q namers st st' \<Longrightarrow> \<not> returned st' \<Longrightarrow> \<not> returned st"
  by (induction rule: fan_step.induct) (auto simp: returned_def)

lemma outcome_step:
  "fan_step answer q namers st st' \<Longrightarrow> fan_counts namers st \<Longrightarrow> fan_data answer q namers st \<Longrightarrow>
   phase st' = Returned r \<Longrightarrow> lists answer q namers r"
proof (induction rule: fan_step.induct)
  case (read_failure st k m es)
  then show ?case using lists_failure [of answer q namers st m] by auto
next
  case (all_read st)
  then show ?case using lists_success [of answer q namers st] by auto
qed (auto simp: fan_data_def)

lemma fan_data_step:
  assumes "fan_step answer q namers st st'" "fan_counts namers st" "fan_data answer q namers st"
  shows "fan_data answer q namers st'"
  using fan_safe_step [OF assms(1)] outcome_step [OF assms] accounted_step [OF assms(1)]
    fan_step_not_returned [OF assms(1)] assms(3)
  by (auto simp: fan_data_def)

lemma fan_reach_data: "fan_reach answer q namers st \<Longrightarrow> fan_data answer q namers st"
  by (induction rule: fan_reach.induct) (auto intro: fan_data_start fan_data_step fan_reach_counts)

section \<open>Runs\<close>

text \<open>A run of so many steps; a state is final when nothing can step any more.\<close>

inductive fan_run ::
  "(string \<Rightarrow> string + series list option) \<Rightarrow> (string \<Rightarrow> string) \<Rightarrow> metric_namer list \<Rightarrow> nat \<Rightarrow> fan_state \<Rightarrow> fan_state \<Rightarrow> bool"
  for answer q namers where
  none: "fan_run answer q namers 0 st st"
| more: "fan_step answer q namers st st' \<Longrightarrow> fan_run answer q namers k st' st'' \<Longrightarrow> fan_run answer q namers (Suc k) st st''"

inductive_cases fan_run_SucE: "fan_run answer q namers (Suc k) st st''"

lemma fan_run_rank: "fan_run answer q namers k st st' \<Longrightarrow> k + fan_rank namers st' \<le> fan_rank namers st"
  by (induction rule: fan_run.induct) (auto dest: fan_step_rank)

lemma fan_run_reach: "fan_run answer q namers k st st' \<Longrightarrow> fan_reach answer q namers st \<Longrightarrow> fan_reach answer q namers st'"
  by (induction rule: fan_run.induct) (auto intro: fan_reach.advance)

lemma fan_run_ends:
  "fan_reach answer q namers st \<Longrightarrow> \<exists>k st'. fan_run answer q namers k st st' \<and> returned st' \<and> workers st' = []"
proof (induction "fan_rank namers st" arbitrary: st rule: less_induct)
  case less
  show ?case
  proof (cases "returned st \<and> workers st = []")
    case True
    then show ?thesis using fan_run.none by blast
  next
    case False
    then obtain st1 where s: "fan_step answer q namers st st1"
      using fan_progress [OF fan_reach_counts [OF less.prems]] by blast
    then show ?thesis
      using less.hyps [OF fan_step_rank [OF s] fan_reach.advance [OF less.prems s]] fan_run.more by blast
  qed
qed

lemma fan_rank_start: "fan_rank namers (fan_start namers) = 8 * length namers + 3"
  by (simp add: fan_rank_def fan_start_def)

section \<open>Properties\<close>

text \<open>
  C3. Listing the metrics cannot hang: whatever the interleaving, no run has more than
  \<open>8 * n + 3\<close> steps for \<open>n\<close> namers, and in every reachable state either the call has returned and all its
  goroutines have ended, or some goroutine can go on; so no goroutine is left blocked on a channel, even
  when the call returns early with an error.
\<close>

theorem fanout_never_blocks:
  "(\<forall>k st. \<not> (fan_run answer q namers k (fan_start namers) st \<and>
      (8 * length namers + 3 < k \<or> \<not> (returned st \<and> workers st = []) \<and> (\<nexists>st'. fan_step answer q namers st st')))) \<and>
   (\<exists>k st. fan_run answer q namers k (fan_start namers) st \<and> returned st \<and> workers st = [])"
proof (intro conjI allI notI)
  fix k st
  assume a: "fan_run answer q namers k (fan_start namers) st \<and>
      (8 * length namers + 3 < k \<or> \<not> (returned st \<and> workers st = []) \<and> (\<nexists>st'. fan_step answer q namers st st'))"
  then have "k \<le> 8 * length namers + 3" using fan_run_rank [of answer q namers k "fan_start namers" st] fan_rank_start by simp
  moreover have "fan_counts namers st"
    using a by (blast intro: fan_reach_counts fan_run_reach fan_reach.initial)
  ultimately show False using a fan_progress by fastforce
qed (rule fan_run_ends [OF fan_reach.initial])

text \<open>
  C2. The concurrent listing implements the sequential one: when it returns series they are, for every
  interleaving, those of one query per namer in the order of the namers, and every query has succeeded; when
  it returns an error, some query has failed with it.
\<close>

theorem fanout_refines_sequential:
  assumes "fan_reach answer q namers st" "phase st = Returned r"
  shows "lists answer q namers r"
  using fan_reach_data [OF assms(1)] assms(2) by (simp add: fan_data_def)

definition demo_namer :: "string \<Rightarrow> metric_namer" where
  "demo_namer sel =
     \<lparr>Selector = sel, FilterSeries = (\<lambda>xs. xs), ResourcesForSeries = \<lambda>_. ([\<lparr>grGroup = [], grResource = ''pods''\<rparr>], True),
      LabelForResource = \<lambda>r. Inr ''pod'', MetricNameForSeries = \<lambda>s. Inr (seriesName s),
      QueryForSeries = \<lambda>s _ _ _ _. Inr s, QueryForExternalSeries = \<lambda>s _ _. Inr s\<rparr>"

definition demo_series :: "string \<Rightarrow> series" where
  "demo_series n = \<lparr>seriesName = n, seriesLabels = []\<rparr>"

theorem fanout_refines_sequential_witness:
  "\<exists>st. fan_reach (\<lambda>_. Inr (Some [demo_series ''up''])) (\<lambda>s. s) [demo_namer ''a'', demo_namer ''a''] st \<and>
     phase st = Returned (Inr \<lparr>rSeries = [[demo_series ''up''], [demo_series ''up'']],
       rNamers = [demo_namer ''a'', demo_namer ''a'']\<rparr>)"
proof -
  let ?answer = "\<lambda>_. Inr (Some [demo_series ''up''])" and ?ns = "[demo_namer ''a'', demo_namer ''a'']"
  obtain st r where st: "fan_reach ?answer (\<lambda>s. s) ?ns st" "phase st = Returned r"
    using fan_run_ends [OF fan_reach.initial] fan_run_reach fan_reach.initial unfolding returned_def by metis
  have "lists ?answer (\<lambda>s. s) ?ns r" by (rule fanout_refines_sequential [OF st])
  then have "r = Inr \<lparr>rSeries = [[demo_series ''up''], [demo_series ''up'']], rNamers = ?ns\<rparr>"
    by (auto simp: lists_def list_series_def collect_def found_series_def demo_namer_def split: sum.splits)
  with st show ?thesis by blast
qed

end
