(* ===== verification/External_Provider.thy ===== *)
theory External_Provider
  imports Metric_Fanout Cost_Metrics
begin

text \<open>
  The Prometheus external metrics provider: the periodic lister with its listeners, the series
  registry it fills, the converter of query results and the provider that answers requests.
\<close>

section \<open>The periodic lister\<close>

text \<open>
  \<open>'s\<close> is the state the listeners write to; a listener that is a nil function is \<open>None\<close>. A call
  that ends the process (\<open>klog.Fatal\<close>) is read as a panic.
\<close>

record 's periodic_lister =
  mostRecentResult :: update_result
  callbacks :: "(update_result \<Rightarrow> 's \<Rightarrow> 's res) option list"

definition NewPeriodicMetricLister :: "'s periodic_lister" where
  "NewPeriodicMetricLister = \<lparr>mostRecentResult = \<lparr>rSeries = [], rNamers = []\<rparr>, callbacks = []\<rparr>"

definition AddNotificationReceiver :: "(update_result \<Rightarrow> 's \<Rightarrow> 's res) option \<Rightarrow> 's periodic_lister \<Rightarrow> 's periodic_lister" where
  "AddNotificationReceiver callback l = l\<lparr>callbacks := callbacks l @ [callback]\<rparr>"

definition ListAllMetrics_periodic :: "'s periodic_lister \<Rightarrow> update_result or_error" where
  "ListAllMetrics_periodic l = Inr (mostRecentResult l)"

definition notifyListeners :: "'s periodic_lister \<Rightarrow> 's \<Rightarrow> 's res" where
  "notifyListeners l s =
     each (\<lambda>listener s. case listener of None \<Rightarrow> Inr s | Some f \<Rightarrow> f (mostRecentResult l) s) (callbacks l) s"

text \<open>One update: \<open>r\<close> is what the lister underneath returned. The error is returned with the state.\<close>

definition updateMetrics ::
  "update_result or_error \<Rightarrow> 's periodic_lister \<times> 's \<Rightarrow> (string option \<times> 's periodic_lister \<times> 's) res" where
  "updateMetrics r ls =
     (case r of
        Inl err \<Rightarrow> Inr (Some err, ls)
      | Inr result \<Rightarrow>
          (let l = (fst ls)\<lparr>mostRecentResult := result\<rparr>
           in and_then (notifyListeners l (snd ls)) (\<lambda>s. Inr (None, l, s))))"

text \<open>
  \<open>RunUntil\<close>: an update at once and after every interval until the stop channel closes; the
  errors are handed to \<open>HandleError\<close>. \<open>rs\<close> are the results of the updates that happen.
\<close>

definition RunUntil :: "update_result or_error list \<Rightarrow> 's periodic_lister \<times> 's \<Rightarrow> ('s periodic_lister \<times> 's) res" where
  "RunUntil rs = each (\<lambda>r ls. and_then (updateMetrics r ls) (\<lambda>(_, ls'). Inr ls')) rs"

section \<open>The registry\<close>

record series_info =
  infoSeries :: string
  infoNamer :: metric_namer

record external_registry =
  metrics :: "string list"
  metricsInfo :: "(string, series_info) gomap"

definition NewExternalSeriesRegistry :: external_registry where
  "NewExternalSeriesRegistry = \<lparr>metrics = [], metricsInfo = Map.empty\<rparr>"

definition store_series :: "metric_namer \<Rightarrow> series \<Rightarrow> (string, series_info) gomap \<Rightarrow> (string, series_info) gomap" where
  "store_series namer s raw =
     (case MetricNameForSeries namer s of
        Inl _ \<Rightarrow> raw
      | Inr name \<Rightarrow> raw(name \<mapsto> \<lparr>infoSeries = seriesName s, infoNamer = namer\<rparr>))"

definition raw_metrics :: "update_result \<Rightarrow> (string, series_info) gomap" where
  "raw_metrics u = fold (\<lambda>(xs, namer). fold (store_series namer) xs) (zip (rSeries u) (rNamers u)) Map.empty"

text \<open>\<open>keys\<close> is the order in which the run visits a map. The lock makes the two writes one step.\<close>

definition filterAndStoreMetrics ::
  "((string, series_info) gomap \<Rightarrow> string list) \<Rightarrow> update_result \<Rightarrow> external_registry \<Rightarrow> external_registry res" where
  "filterAndStoreMetrics keys result r =
     (if length (rSeries result) \<noteq> length (rNamers result) then Inl (Panic ''need one set of series per converter'')
      else let raw = raw_metrics result in Inr \<lparr>metrics = keys raw, metricsInfo = raw\<rparr>)"

definition ListAllMetrics_external :: "external_registry \<Rightarrow> string list" where
  "ListAllMetrics_external r = metrics r"

definition QueryForMetric_external ::
  "string \<Rightarrow> string \<Rightarrow> string \<Rightarrow> external_registry \<Rightarrow> string \<times> bool \<times> string option" where
  "QueryForMetric_external namespace metricName selector r =
     (case metricsInfo r metricName of
        None \<Rightarrow> ([], False, None)
      | Some info \<Rightarrow> (case QueryForExternalSeries (infoNamer info) (infoSeries info) namespace selector of
          Inl err \<Rightarrow> ([], True, Some err)
        | Inr query \<Rightarrow> (query, True, None)))"

section \<open>The converter\<close>

text \<open>
  Results of the Prometheus API: a scalar (a pointer, with its timestamp and value), a vector (a slice, which may be
  nil) or another type.
\<close>

datatype prom_result = Scalar "(int \<times> f64) option" | VectorOf "sample list option" | OtherType

definition convertSample_external :: "string \<Rightarrow> sample \<Rightarrow> external_value or_error" where
  "convertSample_external metric s =
     Inr \<lparr>MetricName = metric, MetricLabels = sMetric s, Timestamp = sTimestamp s,
       MilliValue = trunc64 (fmul (sValue s) (Fin 1000))\<rparr>"

fun convert_samples :: "string \<Rightarrow> sample list \<Rightarrow> external_value list or_error" where
  "convert_samples metric [] = Inr []"
| "convert_samples metric (s # ss) =
     (case convertSample_external metric s of
        Inl err \<Rightarrow> Inl (''unable to convert vector: '' @ err)
      | Inr v \<Rightarrow> (case convert_samples metric ss of Inl err \<Rightarrow> Inl err | Inr vs \<Rightarrow> Inr (v # vs)))"

definition convertVector_external :: "string \<Rightarrow> prom_result \<Rightarrow> external_value list or_error" where
  "convertVector_external metric r =
     (case r of
        VectorOf None \<Rightarrow> Inl ''the provided input did not contain vector query results''
      | VectorOf (Some toConvert) \<Rightarrow> if length toConvert = 0 then Inr [] else convert_samples metric toConvert
      | _ \<Rightarrow> Inl ''incorrect query result type'')"

definition convertScalar_external :: "string \<Rightarrow> prom_result \<Rightarrow> external_value list or_error" where
  "convertScalar_external metric r =
     (case r of
        Scalar None \<Rightarrow> Inl ''the provided input did not contain scalar query results''
      | Scalar (Some (t, v)) \<Rightarrow>
          Inr [\<lparr>MetricName = metric, MetricLabels = Map.empty, Timestamp = t, MilliValue = trunc64 (fmul v (Fin 1000))\<rparr>]
      | _ \<Rightarrow> Inl ''scalarConverter can only convert scalar query results'')"

definition Convert :: "string \<Rightarrow> prom_result \<Rightarrow> external_value list or_error" where
  "Convert metric r =
     (case r of
        Scalar _ \<Rightarrow> convertScalar_external metric r
      | VectorOf _ \<Rightarrow> convertVector_external metric r
      | OtherType \<Rightarrow> Inl ''encountered an unexpected query result type'')"

section \<open>The provider\<close>

text \<open>Errors of the API: a status with its code and message, or a plain error.\<close>

datatype api_error = Status int string | Plain string

definition NewInternalError :: "string \<Rightarrow> api_error" where
  "NewInternalError m = Status 500 (''Internal error occurred: '' @ m)"

definition group_resource_string :: "group_resource \<Rightarrow> string" where
  "group_resource_string r = (if grGroup r = [] then grResource r else grResource r @ ''.'' @ grGroup r)"

definition NewMetricNotFoundError :: "group_resource \<Rightarrow> string \<Rightarrow> api_error" where
  "NewMetricNotFoundError r metric =
     Status 404 (''the server could not find the metric '' @ metric @ '' for '' @ group_resource_string r)"

definition selectGroupResource :: "string \<Rightarrow> group_resource" where
  "selectGroupResource namespace =
     (if namespace = ''default'' then \<lparr>grGroup = [], grResource = ''namespaces''\<rparr>
      else \<lparr>grGroup = [], grResource = []\<rparr>)"

text \<open>\<open>prom\<close> answers a query made now.\<close>

definition GetExternalMetric_prometheus ::
  "(string \<Rightarrow> prom_result or_error) \<Rightarrow> external_registry \<Rightarrow> string \<Rightarrow> string \<Rightarrow> string \<Rightarrow> api_error + external_value list" where
  "GetExternalMetric_prometheus prom r namespace selector metric =
     (case QueryForMetric_external namespace metric selector r of
        (_, _, Some err) \<Rightarrow> Inl (NewInternalError ''unable to fetch metrics'')
      | (query, found, None) \<Rightarrow>
          if \<not> found then Inl (NewMetricNotFoundError (selectGroupResource namespace) metric)
          else (case prom query of
            Inl err \<Rightarrow> Inl (NewInternalError ''unable to fetch metrics'')
          | Inr result \<Rightarrow> (case Convert metric result of Inl err \<Rightarrow> Inl (Plain err) | Inr vs \<Rightarrow> Inr vs)))"

definition ListAllExternalMetrics_prometheus :: "external_registry \<Rightarrow> string list" where
  "ListAllExternalMetrics_prometheus r = ListAllMetrics_external r"

text \<open>The provider as it is put together: the registry is the only listener of the lister.\<close>

definition NewExternalPrometheusProvider ::
  "((string, series_info) gomap \<Rightarrow> string list) \<Rightarrow> external_registry periodic_lister \<times> external_registry" where
  "NewExternalPrometheusProvider keys =
     (AddNotificationReceiver (Some (filterAndStoreMetrics keys)) NewPeriodicMetricLister, NewExternalSeriesRegistry)"

section \<open>The contract between lister and listeners\<close>

text \<open>
  \<open>returns\<close> holds of the results a lister can return. What the registry needs of it is one
  slice of series for each namer: then no update ends the process, and after any sequence of
  updates lister and registry hold the last series that were listed.
\<close>

definition last_listed :: "update_result or_error list \<Rightarrow> update_result option" where
  "last_listed rs = fold (\<lambda>r u. case r of Inl _ \<Rightarrow> u | Inr v \<Rightarrow> Some v) rs None"

definition holds :: "((string, series_info) gomap \<Rightarrow> string list) \<Rightarrow> update_result option \<Rightarrow>
    external_registry periodic_lister \<times> external_registry" where
  "holds keys u =
     (\<lparr>mostRecentResult = (case u of None \<Rightarrow> \<lparr>rSeries = [], rNamers = []\<rparr> | Some v \<Rightarrow> v),
       callbacks = [Some (filterAndStoreMetrics keys)]\<rparr>,
      (case u of None \<Rightarrow> NewExternalSeriesRegistry | Some v \<Rightarrow> \<lparr>metrics = keys (raw_metrics v), metricsInfo = raw_metrics v\<rparr>))"

locale metric_lister =
  fixes returns :: "update_result or_error \<Rightarrow> bool"
  assumes aligned: "returns (Inr u) \<Longrightarrow> length (rSeries u) = length (rNamers u)"
begin

lemma update_holds:
  assumes "returns r"
  shows "\<exists>e. updateMetrics r (holds keys u) = Inr (e, holds keys (case r of Inl _ \<Rightarrow> u | Inr v \<Rightarrow> Some v))"
proof (cases r)
  case (Inl m)
  then show ?thesis by (simp add: updateMetrics_def)
next
  case (Inr v)
  with assms aligned have "length (rSeries v) = length (rNamers v)" by simp
  with Inr show ?thesis
    by (simp add: updateMetrics_def holds_def notifyListeners_def filterAndStoreMetrics_def Let_def)
qed

lemma rounds_hold:
  "list_all returns rs \<Longrightarrow>
   RunUntil rs (holds keys u) = Inr (holds keys (fold (\<lambda>r u. case r of Inl _ \<Rightarrow> u | Inr v \<Rightarrow> Some v) rs u))"
proof (induction rs arbitrary: u)
  case (Cons r rs)
  then obtain e where "updateMetrics r (holds keys u) = Inr (e, holds keys (case r of Inl _ \<Rightarrow> u | Inr v \<Rightarrow> Some v))"
    using update_holds [of r keys u] by auto
  with Cons show ?case by (simp add: RunUntil_def)
qed (simp add: RunUntil_def)

lemma provider_holds:
  "list_all returns rs \<Longrightarrow> RunUntil rs (NewExternalPrometheusProvider keys) = Inr (holds keys (last_listed rs))"
  using rounds_hold [of rs keys None]
  by (simp add: last_listed_def holds_def NewExternalPrometheusProvider_def AddNotificationReceiver_def
      NewPeriodicMetricLister_def)

end

text \<open>The concurrent lister keeps the contract.\<close>

definition basic_returns :: "metric_namer list \<Rightarrow> update_result or_error \<Rightarrow> bool" where
  "basic_returns namers r \<longleftrightarrow> (\<exists>answer q. lists answer q namers r)"

lemma basic_aligned: "basic_returns namers (Inr u) \<Longrightarrow> length (rSeries u) = length (rNamers u)"
  by (auto simp: basic_returns_def lists_def list_series_def collect_def Let_def)

interpretation basic_lister: metric_lister "basic_returns namers" for namers
  by unfold_locales (rule basic_aligned)

section \<open>What the registry holds\<close>

text \<open>The named series of an update, in order; a later series takes the name over.\<close>

definition named :: "metric_namer \<Rightarrow> series list \<Rightarrow> (string \<times> series_info) list" where
  "named namer xs = concat (map (\<lambda>s. case MetricNameForSeries namer s of
     Inl _ \<Rightarrow> [] | Inr name \<Rightarrow> [(name, \<lparr>infoSeries = seriesName s, infoNamer = namer\<rparr>)]) xs)"

definition named_series :: "(string \<Rightarrow> string + series list option) \<Rightarrow> metric_namer list \<Rightarrow> (string \<times> series_info) list" where
  "named_series answer namers = concat (map (\<lambda>n. case found_series answer (Selector n) of
     None \<Rightarrow> [] | Some xs \<Rightarrow> named n (FilterSeries n xs)) namers)"

lemma map_of_rev_append: "map_of (rev (xs @ ys)) = map_of (rev xs) ++ map_of (rev ys)"
  by (simp add: map_of_append)

text \<open>A loop that stores pairs is the map of all its pairs, the last first.\<close>

lemma fold_map_add:
  assumes "\<And>x m. x \<in> set xs \<Longrightarrow> step x m = m ++ map_of (rev (g x))"
  shows "fold step xs m = m ++ map_of (rev (concat (map g xs)))"
  using assms
proof (induction xs arbitrary: m)
  case (Cons x xs)
  have "fold step (x # xs) m = m ++ map_of (rev (g x)) ++ map_of (rev (concat (map g xs)))" using Cons by simp
  also have "\<dots> = m ++ map_of (rev (g x @ concat (map g xs)))" by (simp only: map_of_rev_append map_add_assoc)
  finally show ?case by simp
qed simp

lemma fold_store_series: "fold (store_series n) xs m = m ++ map_of (rev (named n xs))"
  unfolding named_def by (rule fold_map_add) (simp add: store_series_def split: sum.split)

text \<open>The loop over the collected series of an update is a loop over its namers.\<close>

lemma fold_collected:
  assumes "\<And>n xs m. store n xs m = m ++ map_of (rev (g n xs))"
  shows "fold (\<lambda>(xs, n). store n xs) (zip (rSeries (collect f namers)) (rNamers (collect f namers))) m =
    m ++ map_of (rev (concat (map (\<lambda>n. case f (Selector n) of None \<Rightarrow> [] | Some xs \<Rightarrow> g n (FilterSeries n xs)) namers)))"
proof -
  have "fold (\<lambda>(xs, n). store n xs) (zip (rSeries (collect f namers)) (rNamers (collect f namers))) m =
      fold (\<lambda>n m. case f (Selector n) of None \<Rightarrow> m | Some xs \<Rightarrow> store n (FilterSeries n xs) m) namers m"
    by (induction namers arbitrary: m) (auto simp: collect_def Let_def)
  then show ?thesis using assms by (simp add: fold_map_add [where g = "\<lambda>n. case f (Selector n) of None \<Rightarrow> [] | Some xs \<Rightarrow> g n (FilterSeries n xs)"] split: option.split)
qed

lemma raw_metrics_collect:
  "raw_metrics (collect f namers) =
   map_of (rev (concat (map (\<lambda>n. case f (Selector n) of None \<Rightarrow> [] | Some xs \<Rightarrow> named n (FilterSeries n xs)) namers)))"
  unfolding raw_metrics_def by (subst fold_collected [where g = named]) (simp_all add: fold_store_series)

definition all_answer :: "metric_namer list \<Rightarrow> (string \<Rightarrow> string + series list option) \<Rightarrow> bool" where
  "all_answer namers answer \<longleftrightarrow> list_all (\<lambda>n. \<not> isl (answer (Selector n))) namers"

definition current :: "metric_namer list \<Rightarrow> (string \<Rightarrow> string + series list option) list \<Rightarrow> (string \<Rightarrow> string + series list option) option" where
  "current namers answers = find (all_answer namers) (rev answers)"

lemma lists_failed:
  assumes "lists answer q namers (Inl m)"
  obtains n e where "n \<in> set namers" "answer (Selector n) = Inl e" "m = list_error (fetch_error (q (Selector n)) e)"
proof -
  obtain n where n: "n \<in> set namers"
    "case answer (Selector n) of Inl e \<Rightarrow> m = list_error (fetch_error (q (Selector n)) e) | Inr _ \<Rightarrow> False"
    using assms by (auto simp: lists_def list_ex_iff)
  then show thesis using that by (cases "answer (Selector n)") auto
qed

lemma lists_isl: "lists answer q namers r \<Longrightarrow> isl r \<longleftrightarrow> \<not> all_answer namers answer"
  by (cases r) (auto elim!: lists_failed simp: lists_def [of _ _ _ "Inr _"] all_answer_def list_all_iff intro!: bexI)

lemma last_listed_snoc: "last_listed (rs @ [r]) = (case r of Inl _ \<Rightarrow> last_listed rs | Inr v \<Rightarrow> Some v)"
  by (simp add: last_listed_def split: sum.split)

lemma last_listed_current:
  assumes "list_all2 (\<lambda>answer r. lists answer q namers r) answers rs"
  shows "last_listed rs = map_option (\<lambda>answer. list_series answer namers) (current namers answers)"
  using assms
proof (induction rs arbitrary: answers rule: rev_induct)
  case (snoc r rs)
  then obtain as a where as: "answers = as @ [a]" "list_all2 (\<lambda>answer r. lists answer q namers r) as rs" "lists a q namers r"
    by (auto simp: list_all2_append2 list_all2_Cons2)
  then have IH: "last_listed rs = map_option (\<lambda>answer. list_series answer namers) (current namers as)" using snoc.IH by blast
  show ?case
  proof (cases r)
    case (Inl m)
    with lists_isl [OF as(3)] IH as(1) show ?thesis by (simp add: last_listed_snoc current_def)
  next
    case (Inr u)
    with as(3) have "u = list_series a namers" by (simp add: lists_def)
    with lists_isl [OF as(3)] Inr as(1) show ?thesis by (simp add: last_listed_snoc current_def)
  qed
qed (simp add: last_listed_def current_def)

section \<open>Properties\<close>

text \<open>
  C6. The registry follows Prometheus: after any number of concurrent listings, under any interleaving, it
  maps each metric name to the last series with that name in the latest listing in which every query
  succeeded, and lists exactly those names; a failed listing leaves it as it was, and no update ends the process.
\<close>

theorem external_registry_follows_prometheus:
  assumes "list_all2 (\<lambda>answer r. \<exists>st. fan_reach answer q namers st \<and> phase st = Returned r) answers rs"
    and "current namers answers = Some answer"
  shows "\<exists>l reg. RunUntil rs (NewExternalPrometheusProvider keys) = Inr (l, reg) \<and>
    metricsInfo reg = map_of (rev (named_series answer namers)) \<and>
    ListAllExternalMetrics_prometheus reg = keys (map_of (rev (named_series answer namers)))"
proof -
  have l: "list_all2 (\<lambda>answer r. lists answer q namers r) answers rs"
    using assms(1) by (rule list_all2_mono) (auto dest!: fan_reach_data simp: fan_data_def)
  then have "list_all (basic_returns namers) rs"
    unfolding list_all2_conv_all_nth list_all_length basic_returns_def by metis
  then have "RunUntil rs (NewExternalPrometheusProvider keys) = Inr (holds keys (Some (list_series answer namers)))"
    using basic_lister.provider_holds last_listed_current [OF l] assms(2) by simp
  moreover have "raw_metrics (list_series answer namers) = map_of (rev (named_series answer namers))"
    by (simp add: list_series_def named_series_def raw_metrics_collect)
  ultimately show ?thesis
    by (simp add: holds_def ListAllExternalMetrics_prometheus_def ListAllMetrics_external_def)
qed

theorem external_registry_follows_prometheus_witness:
  "\<exists>r l reg. RunUntil [r] (NewExternalPrometheusProvider (\<lambda>m. if m = Map.empty then [] else [''up''])) = Inr (l, reg) \<and>
     ListAllExternalMetrics_prometheus reg = [''up'']"
proof -
  let ?answer = "\<lambda>_. Inr (Some [demo_series ''up''])" and ?ns = "[demo_namer ''a'']"
  let ?keys = "\<lambda>m. if m = Map.empty then [] else [''up'']"
  obtain st r where st: "fan_reach ?answer (\<lambda>s. s) ?ns st" "phase st = Returned r"
    using fan_run_ends [OF fan_reach.initial] fan_run_reach fan_reach.initial unfolding returned_def by metis
  then have "list_all2 (\<lambda>answer r. \<exists>st. fan_reach answer (\<lambda>s. s) ?ns st \<and> phase st = Returned r) [?answer] [r]" by auto
  moreover have "current ?ns [?answer] = Some ?answer" by (simp add: current_def all_answer_def demo_namer_def)
  ultimately obtain l reg where "RunUntil [r] (NewExternalPrometheusProvider ?keys) = Inr (l, reg)"
    "ListAllExternalMetrics_prometheus reg = ?keys (map_of (rev (named_series ?answer ?ns)))"
    using external_registry_follows_prometheus by blast
  moreover have "map_of (rev (named_series ?answer ?ns)) \<noteq> Map.empty"
    by (simp add: named_series_def found_series_def demo_namer_def named_def demo_series_def)
  ultimately show ?thesis by auto
qed

lemma convert_samples_eq: "convert_samples metric xs = Inr (map (convertSample metric) xs)"
  by (induction xs) (simp_all add: convertSample_external_def convertSample_def)

lemma prometheus_named: "GetExternalMetric_prometheus prom r namespace selector metric = Inr vs \<Longrightarrow> list_all (carries metric) vs"
  by (auto simp: GetExternalMetric_prometheus_def QueryForMetric_external_def Convert_def convertVector_external_def
      convertScalar_external_def convert_samples_eq carries_def
      split: option.splits sum.splits prom_result.splits prod.splits if_splits)

text \<open>What a series that was found is answered with: its query, built by the namer that found it, run and converted.\<close>

definition series_answer ::
  "(string \<Rightarrow> prom_result or_error) \<Rightarrow> series_info \<Rightarrow> string \<Rightarrow> string \<Rightarrow> string \<Rightarrow> api_error + external_value list" where
  "series_answer prom i namespace selector metric =
     (case QueryForExternalSeries (infoNamer i) (infoSeries i) namespace selector of
        Inl _ \<Rightarrow> Inl (NewInternalError ''unable to fetch metrics'')
      | Inr query \<Rightarrow> (case prom query of
          Inl _ \<Rightarrow> Inl (NewInternalError ''unable to fetch metrics'')
        | Inr result \<Rightarrow> (case Convert metric result of Inl err \<Rightarrow> Inl (Plain err) | Inr vs \<Rightarrow> Inr vs)))"

lemma GetExternalMetric_found:
  "metricsInfo r metric = Some i \<Longrightarrow>
   GetExternalMetric_prometheus prom r namespace selector metric = series_answer prom i namespace selector metric"
  by (simp add: GetExternalMetric_prometheus_def QueryForMetric_external_def series_answer_def split: sum.split)

end
