(* ===== verification/Legacy_Cost.thy ===== *)
theory Legacy_Cost
  imports External_Provider "HOL-Library.Sublist"
begin

text \<open>
  The first source of cost metrics (\<open>cost.go\<close>): one PromQL template per metric, into which the labels of the request are
  printed, and the conversion of the answer. The lemmas say for which metrics the query is the template with the labels in
  its place.
\<close>

section \<open>Metrics and their templates\<close>

definition GetExternalMetricInfoList_cost :: "string list" where
  "GetExternalMetricInfoList_cost =
     [''cost_cpu_request'', ''cost_cpu_limit'', ''cost_cpu_usage'', ''cost_cpu_utilization'', ''cost_memory_request'',
      ''cost_memory_limit'', ''cost_memory_usage'', ''cost_memory_utilization'', ''cost_hour'', ''cost_day'',
      ''cost_week'', ''cost_month'', ''cost_min'', ''cost_ratio'', ''cost_percorepricing'',
      ''cost_total_hour'', ''cost_total_min'', ''cost_total_day'', ''cost_total_week'', ''cost_total_month'',
      ''cost_custom_hour'', ''cost_custom_day'', ''cost_custom_week'', ''cost_custom_month'']"

text \<open>A metric without a case has the empty template.\<close>

definition sql_table :: "(string \<times> string) list" where
  \<open>sql_table =
     [(''cost_cpu_request'',
       ''sum(kube_pod_container_resource_requests_cpu_cores{job="_kube-state-metrics"}) by(pod) * on(pod) group_right sum(kube_pod_labels{%s}) by(pod)''),
      (''cost_cpu_limit'',
       ''sum(kube_pod_container_resource_limits_cpu_cores{job="_kube-state-metrics"}) by(pod) * on(pod) group_left sum(kube_pod_labels{%s}) by(pod)''),
      (''cost_cpu_usage'',
       ''sum(rate (container_cpu_usage_seconds_total[1m])) by(pod) * on(pod) group_right sum(kube_pod_labels{%s}) by(pod)''),
      (''cost_cpu_utilization'',
       ''sum(rate (container_cpu_usage_seconds_total{}[1m])) by (pod) * on(pod) group_right sum(kube_pod_labels) by (pod) / sum(kube_pod_container_resource_requests_cpu_cores{job="_kube-state-metrics"} ) by (pod) * on(pod) group_right sum(kube_pod_labels{%s}) by (pod)''),
      (''cost_memory_request'',
       ''sum(kube_pod_container_resource_requests_memory_bytes{job="_kube-state-metrics"}) by(pod)  * on(pod) group_right sum(kube_pod_labels{%s}) by(pod)''),
      (''cost_memory_limit'',
       ''sum(kube_pod_container_resource_limits_memory_bytes{job="_kube-state-metrics"}) by(pod) * on(pod) group_left sum(kube_pod_labels{%s}) by(pod)''),
      (''cost_memory_usage'',
       ''sum(container_memory_working_set_bytes) by (pod)  * on(pod) group_right sum(kube_pod_labels{%s}) by(pod)''),
      (''cost_memory_utilization'',
       ''sum(container_memory_working_set_bytes) by (pod) * on(pod) group_right sum(kube_pod_labels{}) by (pod) / sum(kube_pod_container_resource_requests_memory_bytes{job="_kube-state-metrics"} ) by (pod) * on(pod) group_right sum(kube_pod_labels{%s}) by (pod)''),
      (''cost_hour'',
       ''sum(max(node_current_price) by (node) / on (node)  group_left kube_node_status_capacity_cpu_cores{job="_kube-state-metrics"} * on(node) group_right kube_pod_container_resource_requests_cpu_cores{job="_kube-state-metrics"}) by (pod) * on(pod) group_right sum(kube_pod_labels{%s}) by (pod) * 3600''),
      (''cost_min'',
       ''sum(max(node_current_price) by (node) / on (node)  group_left kube_node_status_capacity_cpu_cores{job="_kube-state-metrics"} * on(node) group_right kube_pod_container_resource_requests_cpu_cores{job="_kube-state-metrics"}) by (pod) * on(pod) group_right sum(kube_pod_labels{%}) by (pod) * 60''),
      (''cost_day'',
       ''sum(sum_over_time((sum(max(node_current_price) by (node) / on (node)  group_left kube_node_status_capacity_cpu_cores{job="_kube-state-metrics"}) by (node) * on(node) group_right kube_pod_container_resource_requests_cpu_cores{job="_kube-state-metrics"})[24h:1h])) by(pod) * on(pod) group_right sum(kube_pod_labels{%s}) by (pod) * 3600''),
      (''cost_week'',
       ''sum(sum_over_time((sum(max(node_current_price) by (node) / on (node)  group_left kube_node_status_capacity_cpu_cores{job="_kube-state-metrics"}) by (node) * on(node) group_right kube_pod_container_resource_requests_cpu_cores{job="_kube-state-metrics"})[168h:1h])) by(pod) * on(pod) group_right sum(kube_pod_labels{%s}) by (pod) * 3600''),
      (''cost_month'',
       ''sum(sum_over_time((sum(max(node_current_price) by (node) / on (node)  group_left kube_node_status_capacity_cpu_cores{job="_kube-state-metrics"}) by (node) * on(node) group_right kube_pod_container_resource_requests_cpu_cores{job="_kube-state-metrics"})[720h:1h])) by(pod) * on(pod) group_right sum(kube_pod_labels{%s}) by (pod) * 3600''),
      (''cost_total_hour'',
       ''sum(max(node_current_price) by (node) / on (node)  group_left kube_node_status_capacity_cpu_cores{job="_kube-state-metrics"} * on(node) group_right kube_pod_container_resource_requests_cpu_cores{job="_kube-state-metrics"} * 3600)''),
      (''cost_total_min'',
       ''sum(max(node_current_price) by (node) / on (node)  group_left kube_node_status_capacity_cpu_cores{job="_kube-state-metrics"} * on(node) group_right kube_pod_container_resource_requests_cpu_cores{job="_kube-state-metrics"}* 60)''),
      (''cost_total_day'',
       ''sum(sum_over_time((sum(max(node_current_price) by (node) / on (node)  group_left kube_node_status_capacity_cpu_cores{job="_kube-state-metrics"}) by (node) * on(node) group_right kube_pod_container_resource_requests_cpu_cores{job="_kube-state-metrics"})[24h:1h])* 3600)''),
      (''cost_total_week'',
       ''sum(sum_over_time((sum(max(node_current_price) by (node) / on (node)  group_left kube_node_status_capacity_cpu_cores{job="_kube-state-metrics"}) by (node) * on(node) group_right kube_pod_container_resource_requests_cpu_cores{job="_kube-state-metrics"})[168h:1h])* 3600)''),
      (''cost_total_month'',
       ''sum(sum_over_time((sum(max(node_current_price) by (node) / on (node)  group_left kube_node_status_capacity_cpu_cores{job="_kube-state-metrics"}) by (node) * on(node) group_right kube_pod_container_resource_requests_cpu_cores{job="_kube-state-metrics"})[720h:1h])* 3600)''),
      (''cost_percorepricing'',
       ''sum(max(node_current_price) by (node) / on (node)  group_left kube_node_status_capacity_cpu_cores{job="_kube-state-metrics"} * on(node) group_right kube_pod_container_resource_requests_cpu_cores{job="_kube-state-metrics"}) by (pod) * on(pod) group_right sum(kube_pod_labels{%s}) by (pod) / on(pod) sum(kube_pod_container_resource_requests_cpu_cores) by (pod) * 3600''),
      (''cost_custom_hour'',
       ''max(label_replace(pod_custom_price, "pod", "$1", "exported_pod", "(.*)")) by (pod) * on(pod) group_right sum(kube_pod_labels{%s}) by (pod) * 3600''),
      (''cost_custom_day'',
       ''sum_over_time((max(label_replace(pod_custom_price, "pod", "$1", "exported_pod", "(.*)")) by (pod))[24h:1h]) * on(pod) group_right sum(kube_pod_labels{%s}) by (pod) * 3600''),
      (''cost_custom_week'',
       ''sum_over_time((max(label_replace(pod_custom_price, "pod", "$1", "exported_pod", "(.*)")) by (pod))[168h:1h]) * on(pod) group_right sum(kube_pod_labels{%s}) by (pod) * 3600''),
      (''cost_custom_month'',
       ''sum_over_time((max(label_replace(pod_custom_price, "pod", "$1", "exported_pod", "(.*)")) by (pod))[720h:1h]) * on(pod) group_right sum(kube_pod_labels{%s}) by (pod) * 3600'')]\<close>

definition getPrometheusSql :: "string \<Rightarrow> string" where
  "getPrometheusSql metricName = (case map_of sql_table metricName of None \<Rightarrow> [] | Some item \<Rightarrow> item)"

section \<open>Printing labels into a template\<close>

text \<open>
  \<open>fmt.Sprintf\<close> on strings, for the verbs the templates hold: \<open>%s\<close>, and the mistaken \<open>%}\<close>, which prints a complaint and uses
  up an argument all the same. Arguments left over are appended as another complaint.
\<close>

fun sprintf_any :: "string \<Rightarrow> string list \<Rightarrow> string" where
  "sprintf_any [] args =
     (if args = [] then [] else ''%!(EXTRA '' @ join '', '' (map (\<lambda>a. ''string='' @ a) args) @ '')'')"
| "sprintf_any (c # s) args =
     (if c \<noteq> CHR ''%'' then c # sprintf_any s args
      else case s of
        [] \<Rightarrow> ''%!(NOVERB)'' @ sprintf_any [] args
      | v # t \<Rightarrow>
          if v = CHR ''%'' then CHR ''%'' # sprintf_any t args
          else case args of
            [] \<Rightarrow> ''%!'' @ v # ''(MISSING)'' @ sprintf_any t []
          | a # as \<Rightarrow>
              (if v = CHR ''s'' \<or> v = CHR ''v'' then a else ''%!'' @ v # ''(string='' @ a @ '')'') @ sprintf_any t as)"

section \<open>Labels\<close>

definition buildNamespaceLabel :: "string \<Rightarrow> string" where
  \<open>buildNamespaceLabel namespace = (if namespace \<noteq> ''*'' then ''namespace="'' @ namespace @ ''"'' else [])\<close>

text \<open>\<open>ks\<close> is the order in which the run visits the map.\<close>

definition convertPodLabels :: "string list \<Rightarrow> (string, string list) gomap \<Rightarrow> string" where
  "convertPodLabels ks labelMap = join '','' (map (\<lambda>k. matcher k (join ''|'' (elems (labelMap k)))) ks)"

definition collect_label :: "requirement \<Rightarrow> (string, string list) gomap \<Rightarrow> (string, string list) gomap res" where
  "collect_label r m =
     and_then (index (sort (remdups (rvalues r))) 0) (\<lambda>v.
       Inr (if v \<noteq> [] then m(rkey r \<mapsto> elems (m (rkey r)) @ [v]) else m))"

definition buildPodLabel :: "((string, string list) gomap \<Rightarrow> string list) \<Rightarrow> requirement list \<Rightarrow> string res" where
  "buildPodLabel order reqs =
     (if length reqs = 0 then Inr []
      else and_then (each collect_label reqs Map.empty) (\<lambda>m. Inr (if m = Map.empty then [] else convertPodLabels (order m) m)))"

definition buildExternalQuery_cost ::
  "((string, string list) gomap \<Rightarrow> string list) \<Rightarrow> string \<Rightarrow> string \<Rightarrow> requirement list \<Rightarrow> string res" where
  "buildExternalQuery_cost order namespace promSql reqs =
     and_then (buildPodLabel order reqs) (\<lambda>podLabel.
       let namespaceLabel = buildNamespaceLabel namespace in
       if namespaceLabel = [] then Inr (sprintf_any promSql [podLabel])
       else if podLabel = [] then Inr (sprintf_any promSql [namespaceLabel])
       else Inr (sprintf_any promSql [join '','' [podLabel, namespaceLabel]]))"

section \<open>The answer\<close>

definition convertSample_cost :: "string \<Rightarrow> sample \<Rightarrow> external_value res" where
  "convertSample_cost metricName s =
     Inr \<lparr>MetricName = metricName, MetricLabels = sMetric s, Timestamp = sTimestamp s,
          MilliValue = trunc64 (fmul (sValue s) (Fin 1000))\<rparr>"

definition convertVector_cost :: "string \<Rightarrow> prom_result \<Rightarrow> external_value list res" where
  "convertVector_cost metricName r =
     (case r of
        VectorOf v \<Rightarrow> (case v of
          None \<Rightarrow> Inl (Err ''the provided input did not contain vector query results'')
        | Some toConvert \<Rightarrow>
            if length toConvert = 0 then Inr []
            else each (\<lambda>s items. case convertSample_cost metricName s of
                     Inl (Err e) \<Rightarrow> Inl (Err (''unable to convert vector: '' @ e))
                   | Inl (Panic e) \<Rightarrow> Inl (Panic e)
                   | Inr m \<Rightarrow> Inr (items @ [m])) toConvert [])
      | _ \<Rightarrow> Inl (Err ''incorrect query result type''))"

text \<open>\<open>prom\<close> makes a client, which runs queries; a failed query is reported without its reason.\<close>

definition getCOSTMetrics :: "(string \<Rightarrow> prom_result res) res \<Rightarrow> string \<Rightarrow> string \<Rightarrow> external_value list res" where
  "getCOSTMetrics prom metricName query =
     and_then prom (\<lambda>run.
       case run query of
         Inl (Err _) \<Rightarrow> Inl (Err ''Internal error occurred: unable to fetch metrics'')
       | Inl (Panic e) \<Rightarrow> Inl (Panic e)
       | Inr queryResult \<Rightarrow> convertVector_cost metricName queryResult)"

definition total_metrics :: "string list" where
  "total_metrics = [''cost_total_hour'', ''cost_total_min'', ''cost_total_day'', ''cost_total_week'', ''cost_total_month'']"

definition GetExternalMetric_cost ::
  "((string, string list) gomap \<Rightarrow> string list) \<Rightarrow> (string \<Rightarrow> prom_result res) res \<Rightarrow> string \<Rightarrow> string \<Rightarrow> requirement list \<Rightarrow>
   external_value list res" where
  "GetExternalMetric_cost order prom metric namespace reqs =
     (let promSql = getPrometheusSql metric in
      and_then (buildExternalQuery_cost order namespace promSql reqs) (\<lambda>query.
        if metric \<in> set total_metrics then getCOSTMetrics prom metric promSql
        else getCOSTMetrics prom metric query))"

section \<open>Where the labels go\<close>

text \<open>Metrics whose template has one \<open>%s\<close>, in the selector of \<open>kube_pod_labels\<close>.\<close>

definition scoped_metrics :: "string list" where
  "scoped_metrics = filter (\<lambda>m. m \<notin> set (''cost_min'' # ''cost_ratio'' # total_metrics)) GetExternalMetricInfoList_cost"

fun split_verb :: "string \<Rightarrow> string \<Rightarrow> (string \<times> string) option" where
  "split_verb acc [] = None"
| "split_verb acc (c # s) = (if c = CHR ''%'' then Some (acc, s) else split_verb (c # acc) s)"

fun scoped_rest :: "string \<Rightarrow> bool" where
  "scoped_rest (s # r # b) \<longleftrightarrow> s = CHR ''s'' \<and> r = CHR ''}'' \<and> list_all (\<lambda>c. c \<noteq> CHR ''%'') b"
| "scoped_rest _ \<longleftrightarrow> False"

definition scoped_template :: "string \<Rightarrow> bool" where
  "scoped_template s =
     (case split_verb [] s of None \<Rightarrow> False | Some (a, b) \<Rightarrow> prefix (rev ''kube_pod_labels{'') a \<and> scoped_rest b)"

lemma sql_table_scoped: "list_all (\<lambda>(m, s). m \<in> set (''cost_min'' # total_metrics) \<or> scoped_template s) sql_table"
  by code_simp

lemma sql_table_metrics: "set GetExternalMetricInfoList_cost \<subseteq> insert ''cost_ratio'' (fst ` set sql_table)"
  by (simp add: sql_table_def GetExternalMetricInfoList_cost_def)

lemma scoped_templates:
  assumes "m \<in> set scoped_metrics"
  shows "scoped_template (getPrometheusSql m)"
proof -
  have "m \<in> fst ` set sql_table" using sql_table_metrics assms by (auto simp: scoped_metrics_def)
  then obtain s where "map_of sql_table m = Some s" by (auto dest: weak_map_of_SomeI)
  moreover from map_of_SomeD [OF this] have "scoped_template s"
    using sql_table_scoped assms by (auto simp: list_all_iff scoped_metrics_def)
  ultimately show ?thesis by (simp add: getPrometheusSql_def)
qed

definition cost_labels :: "string \<Rightarrow> string \<Rightarrow> string" where
  "cost_labels podLabel namespace = join '','' (filter (\<lambda>l. l \<noteq> []) [podLabel, buildNamespaceLabel namespace])"

lemma buildExternalQuery_cost_eq:
  "buildPodLabel order reqs = Inr podLabel \<Longrightarrow>
   buildExternalQuery_cost order namespace promSql reqs = Inr (sprintf_any promSql [cost_labels podLabel namespace])"
  by (simp add: buildExternalQuery_cost_def cost_labels_def Let_def)

lemma sprintf_any_plain: "CHR ''%'' \<notin> set a \<Longrightarrow> sprintf_any (a @ s) args = a @ sprintf_any s args"
  by (induction a) auto

lemma sprintf_any_done: "CHR ''%'' \<notin> set b \<Longrightarrow> sprintf_any b [] = b"
  using sprintf_any_plain [of b "[]" "[]"] by simp

lemma split_verb_Some: "split_verb acc s = Some (a, b) \<Longrightarrow> rev acc @ s = rev a @ CHR ''%'' # b"
  by (induction acc s rule: split_verb.induct) (auto split: if_splits)

lemma split_verb_plain: "split_verb acc s = Some (a, b) \<Longrightarrow> CHR ''%'' \<notin> set acc \<Longrightarrow> CHR ''%'' \<notin> set a"
  by (induction acc s rule: split_verb.induct) (auto split: if_splits)

lemma scoped_restD: "scoped_rest b \<Longrightarrow> \<exists>t. b = ''s}'' @ t \<and> CHR ''%'' \<notin> set t"
  by (induction b rule: scoped_rest.induct) (auto simp: list_all_iff)

lemma scoped_shape:
  assumes "scoped_template s"
  obtains a b where "s = a @ ''kube_pod_labels{%s}'' @ b" "CHR ''%'' \<notin> set a" "CHR ''%'' \<notin> set b"
proof -
  obtain x y where xy: "split_verb [] s = Some (x, y)" "prefix (rev ''kube_pod_labels{'') x" "scoped_rest y"
    using assms by (auto simp: scoped_template_def split: option.splits)
  from xy(2) obtain r where r: "x = rev ''kube_pod_labels{'' @ r" by (auto simp only: prefix_def)
  from scoped_restD [OF xy(3)] obtain t where t: "y = ''s}'' @ t" "CHR ''%'' \<notin> set t" by blast
  have "s = rev x @ CHR ''%'' # y" using split_verb_Some [OF xy(1)] by simp
  moreover have "CHR ''%'' \<notin> set x" using split_verb_plain [OF xy(1)] by simp
  ultimately show ?thesis using that [of "rev r" t] by (simp add: r t)
qed

text \<open>
  The query of a cost metric: for every registered metric of a pod other than the two below and the totals it is the
  template with the request's labels, those of the pods before the namespace, as the selector of
  \<open>kube_pod_labels\<close>, and the rest of the template untouched; the totals are asked for without labels.
\<close>

theorem cost_query_scoped:
  assumes "buildPodLabel order reqs = Inr podLabel"
  shows "if metric \<in> set scoped_metrics
    then \<exists>a b. getPrometheusSql metric = a @ ''kube_pod_labels{%s}'' @ b \<and>
      GetExternalMetric_cost order prom metric namespace reqs =
        getCOSTMetrics prom metric (a @ ''kube_pod_labels{'' @ cost_labels podLabel namespace @ ''}'' @ b)
    else metric \<in> set total_metrics \<longrightarrow>
      GetExternalMetric_cost order prom metric namespace reqs = getCOSTMetrics prom metric (getPrometheusSql metric)"
proof (cases "metric \<in> set scoped_metrics")
  case True
  obtain a b where ab: "getPrometheusSql metric = a @ ''kube_pod_labels{%s}'' @ b" "CHR ''%'' \<notin> set a" "CHR ''%'' \<notin> set b"
    using scoped_templates [OF True] by (rule scoped_shape)
  have "sprintf_any (getPrometheusSql metric) [l] = a @ ''kube_pod_labels{'' @ l @ ''}'' @ b" for l
    using ab by (simp add: sprintf_any_plain sprintf_any_done)
  moreover have "metric \<notin> set total_metrics" using True by (simp add: scoped_metrics_def)
  ultimately show ?thesis
    using True ab(1) by (auto simp: GetExternalMetric_cost_def buildExternalQuery_cost_eq [OF assms])
qed (simp add: GetExternalMetric_cost_def buildExternalQuery_cost_eq [OF assms])

definition echo_prom :: "(string \<Rightarrow> prom_result res) res" where
  "echo_prom = Inr (\<lambda>query. Inr (VectorOf (Some [\<lparr>sMetric = [''query'' \<mapsto> query], sValue = Fin 1, sTimestamp = 0\<rparr>])))"

lemma echo_prom_query:
  "getCOSTMetrics echo_prom m query = Inr [\<lparr>MetricName = m, MetricLabels = [''query'' \<mapsto> query], Timestamp = 0, MilliValue = 1000\<rparr>]"
proof -
  have "trunc64 (fmul (Fin 1) (Fin 1000)) = 1000" by code_simp
  then show ?thesis by (simp add: getCOSTMetrics_def echo_prom_def convertVector_cost_def convertSample_cost_def)
qed

theorem cost_query_scoped_witness:
  "\<exists>a b. GetExternalMetric_cost (\<lambda>_. [''app'']) echo_prom ''cost_day'' ''ns''
       [\<lparr>rkey = ''app'', roperator = Equals, rvalues = [''web'']\<rparr>] =
     Inr [\<lparr>MetricName = ''cost_day'', MetricLabels = [''query'' \<mapsto> a @ ''kube_pod_labels{'' @ cost_labels (matcher ''app'' ''web'') ''ns'' @ ''}'' @ b],
       Timestamp = 0, MilliValue = 1000\<rparr>]"
proof -
  let ?reqs = "[\<lparr>rkey = ''app'', roperator = Equals, rvalues = [''web'']\<rparr>]"
  have "buildPodLabel (\<lambda>_. [''app'']) ?reqs = Inr (matcher ''app'' ''web'')"
    by (simp add: buildPodLabel_def collect_label_def convertPodLabels_def elems_def)
  moreover have "''cost_day'' \<in> set scoped_metrics" by code_simp
  ultimately show ?thesis
    using cost_query_scoped [of "\<lambda>_. [''app'']" ?reqs _ "''cost_day''" echo_prom "''ns''"] by (auto simp: echo_prom_query)
qed

lemma cost_min_template:
  "case split_verb [] (getPrometheusSql ''cost_min'') of None \<Rightarrow> False
   | Some (a, b) \<Rightarrow> prefix (rev ''kube_pod_labels{'') a \<and> prefix ''}'' b \<and> list_all (\<lambda>c. c \<noteq> CHR ''%'') b"
  by code_simp

text \<open>
  The two registered metrics whose query does not use its labels: \<open>cost_min\<close> has a mistyped verb, so the labels end
  up in a complaint of the formatter inside the selector; \<open>cost_ratio\<close> has no template at all, so its query is the formatter's
  complaint about an argument too many.
\<close>

theorem cost_query_unscoped:
  assumes "buildPodLabel order reqs = Inr podLabel"
  shows "(\<exists>a b. getPrometheusSql ''cost_min'' = a @ ''kube_pod_labels{%}'' @ b \<and>
      GetExternalMetric_cost order prom ''cost_min'' namespace reqs =
        getCOSTMetrics prom ''cost_min'' (a @ ''kube_pod_labels{%!}(string='' @ cost_labels podLabel namespace @ '')'' @ b)) \<and>
    GetExternalMetric_cost order prom ''cost_ratio'' namespace reqs =
      getCOSTMetrics prom ''cost_ratio'' (''%!(EXTRA string='' @ cost_labels podLabel namespace @ '')'')"
proof
  obtain x y where xy: "split_verb [] (getPrometheusSql ''cost_min'') = Some (x, y)"
    "prefix (rev ''kube_pod_labels{'') x" "prefix ''}'' y" "list_all (\<lambda>c. c \<noteq> CHR ''%'') y"
    using cost_min_template by (auto split: option.splits)
  from xy(2,3) obtain r t where rt: "x = rev ''kube_pod_labels{'' @ r" "y = ''}'' @ t" unfolding prefix_def by blast
  have e: "getPrometheusSql ''cost_min'' = rev r @ ''kube_pod_labels{%}'' @ t" using split_verb_Some [OF xy(1)] by (simp add: rt)
  moreover have "CHR ''%'' \<notin> set (rev r)" "CHR ''%'' \<notin> set t" using split_verb_plain [OF xy(1)] xy(4) rt by (auto simp: list_all_iff)
  ultimately have "sprintf_any (getPrometheusSql ''cost_min'') [l] = rev r @ ''kube_pod_labels{%!}(string='' @ l @ '')'' @ t" for l
    by (simp add: sprintf_any_plain sprintf_any_done)
  with e show "\<exists>a b. getPrometheusSql ''cost_min'' = a @ ''kube_pod_labels{%}'' @ b \<and>
      GetExternalMetric_cost order prom ''cost_min'' namespace reqs =
        getCOSTMetrics prom ''cost_min'' (a @ ''kube_pod_labels{%!}(string='' @ cost_labels podLabel namespace @ '')'' @ b)"
    by (intro exI [of _ "rev r"] exI [of _ t])
      (simp add: GetExternalMetric_cost_def buildExternalQuery_cost_eq [OF assms] total_metrics_def)
  have "getPrometheusSql ''cost_ratio'' = []" by (simp add: getPrometheusSql_def sql_table_def)
  then show "GetExternalMetric_cost order prom ''cost_ratio'' namespace reqs =
      getCOSTMetrics prom ''cost_ratio'' (''%!(EXTRA string='' @ cost_labels podLabel namespace @ '')'')"
    by (simp add: GetExternalMetric_cost_def buildExternalQuery_cost_eq [OF assms] total_metrics_def)
qed

theorem cost_query_unscoped_witness:
  "GetExternalMetric_cost (\<lambda>_. []) echo_prom ''cost_ratio'' ''*'' [] =
     Inr [\<lparr>MetricName = ''cost_ratio'', MetricLabels = [''query'' \<mapsto> ''%!(EXTRA string=)''], Timestamp = 0, MilliValue = 1000\<rparr>]"
proof -
  have "buildPodLabel (\<lambda>_. []) [] = Inr []" by (simp add: buildPodLabel_def)
  from cost_query_unscoped [OF this, of echo_prom "''*''"] show ?thesis
    by (simp add: echo_prom_query cost_labels_def buildNamespaceLabel_def)
qed

section \<open>The three converters\<close>

lemma each_append_items:
  "each (\<lambda>s items. case convertSample_cost name s of
       Inl (Err e) \<Rightarrow> Inl (Err (w @ e)) | Inl (Panic e) \<Rightarrow> Inl (Panic e) | Inr m \<Rightarrow> Inr (items @ [m])) xs ys =
     Inr (ys @ map (convertSample name) xs)"
  by (induction xs arbitrary: ys) (simp_all add: convertSample_cost_def convertSample_def)

lemma convertVector_cost_named: "convertVector_cost name r = Inr vs \<Longrightarrow> list_all (carries name) vs"
  by (auto simp: convertVector_cost_def each_append_items split: prom_result.splits option.splits if_splits)

lemma getCOSTMetrics_named: "getCOSTMetrics prom name query = Inr vs \<Longrightarrow> list_all (carries name) vs"
proof -
  assume "getCOSTMetrics prom name query = Inr vs"
  then obtain run where "prom = Inr run" and run: "(case run query of Inl (Err _) \<Rightarrow> Inl (Err ''Internal error occurred: unable to fetch metrics'')
      | Inl (Panic e) \<Rightarrow> Inl (Panic e) | Inr r \<Rightarrow> convertVector_cost name r) = Inr vs"
    by (auto simp: getCOSTMetrics_def and_then_eq_Inr)
  show ?thesis
  proof (cases "run query")
    case (Inl e)
    with run show ?thesis by (cases e) simp_all
  next
    case (Inr r)
    with run show ?thesis by (auto dest: convertVector_cost_named)
  qed
qed

lemma cost_named: "GetExternalMetric_cost order prom metric namespace reqs = Inr vs \<Longrightarrow> list_all (carries metric) vs"
  by (auto simp: GetExternalMetric_cost_def Let_def and_then_eq_Inr split: if_splits dest: getCOSTMetrics_named)

interpretation cost_source: metric_source GetExternalMetricInfoList_cost "\<lambda>metric. metric" "GetExternalMetric_cost order prom" for order prom
  by unfold_locales (code_simp, rule cost_named)

text \<open>
  C30. The three converters of Prometheus vectors agree: the one of this source, the one of the second cost source and the one of
  the Prometheus provider give one value per sample, in order, with the sample's labels and its value in thousandths;
  they differ only on the empty vector, which the second cost source refuses.
\<close>

theorem converters_agree:
  "convertVector_cost name (VectorOf (Some xs)) = Inr (map (convertSample name) xs) \<and>
   Convert name (VectorOf (Some xs)) = Inr (map (convertSample name) xs) \<and>
   convertVector name (Vector xs) =
     (if xs = [] then Inl (Err ''the provided input did not contain vector query results'')
      else Inr (map (convertSample name) xs))"
  by (simp add: convertVector_cost_def each_append_items Convert_def convertVector_external_def convert_samples_eq convertVector_def each_collects)

end
