(* ===== verification/Custom_Provider.thy ===== *)
theory Custom_Provider
  imports External_Provider
begin

text \<open>
  The Prometheus custom metrics provider: the registry of series by resource, the caching lister that
  refreshes it through the concurrent fan-out, and the provider that answers by object name or by
  selector.
\<close>

section \<open>Metrics of resources\<close>

record custom_info =
  ciResource :: group_resource
  ciNamespaced :: bool
  ciMetric :: string

record object_reference =
  refAPIVersion :: string
  refKind :: string
  refNamespace :: string
  refName :: string

text \<open>
  What the provider asks of the cluster: normalising a metric's resource and the reference to an
  object (through the REST mapper), the names of the objects of a resource that match a selector, and the
  parser of label selectors.
\<close>

record cluster =
  Normalized :: "custom_info \<Rightarrow> custom_info or_error"
  ReferenceFor :: "string \<Rightarrow> string \<Rightarrow> custom_info \<Rightarrow> object_reference or_error"
  ListObjectNames :: "string \<Rightarrow> string \<Rightarrow> custom_info \<Rightarrow> string list or_error"
  ParseToLabelSelector :: "string \<Rightarrow> string or_error"

section \<open>The registry\<close>

record custom_registry =
  info :: "(custom_info, series_info) gomap"
  customMetrics :: "custom_info list"

definition cluster_scoped :: "group_resource list" where
  "cluster_scoped =
     [\<lparr>grGroup = [], grResource = ''namespaces''\<rparr>, \<lparr>grGroup = [], grResource = ''nodes''\<rparr>,
      \<lparr>grGroup = [], grResource = ''persistentvolumes''\<rparr>]"

definition custom_info_of :: "bool \<Rightarrow> string \<Rightarrow> group_resource \<Rightarrow> custom_info" where
  "custom_info_of namespaced name resource =
     \<lparr>ciResource = resource, ciNamespaced = (if resource \<in> set cluster_scoped then False else namespaced),
      ciMetric = name\<rparr>"

definition store_custom :: "metric_namer \<Rightarrow> series \<Rightarrow> (custom_info, series_info) gomap \<Rightarrow> (custom_info, series_info) gomap" where
  "store_custom namer s m =
     (let (resources, namespaced) = ResourcesForSeries namer s in
      case MetricNameForSeries namer s of
        Inl _ \<Rightarrow> m
      | Inr name \<Rightarrow>
          fold (\<lambda>resource m. m(custom_info_of namespaced name resource \<mapsto> \<lparr>infoSeries = seriesName s, infoNamer = namer\<rparr>))
            resources m)"

definition SetSeries ::
  "((custom_info, series_info) gomap \<Rightarrow> custom_info list) \<Rightarrow> series list list \<Rightarrow> metric_namer list \<Rightarrow> custom_registry \<Rightarrow>
   custom_registry or_error" where
  "SetSeries keys newSeriesSlices namers r =
     (if length newSeriesSlices \<noteq> length namers then Inl ''need one set of series per namer''
      else let newInfo = fold (\<lambda>(xs, namer). fold (store_custom namer) xs) (zip newSeriesSlices namers) Map.empty
           in Inr \<lparr>info = newInfo, customMetrics = keys newInfo\<rparr>)"

definition ListAllMetrics_custom :: "custom_registry \<Rightarrow> custom_info list" where
  "ListAllMetrics_custom r = customMetrics r"

definition QueryForMetric_custom ::
  "cluster \<Rightarrow> custom_registry \<Rightarrow> custom_info \<Rightarrow> string \<Rightarrow> string \<Rightarrow> string list \<Rightarrow> string \<times> bool" where
  "QueryForMetric_custom c r metricInfo namespace selector resourceNames =
     (if length resourceNames = 0 then ([], False)
      else case Normalized c metricInfo of
        Inl _ \<Rightarrow> ([], False)
      | Inr metricInfo \<Rightarrow> (case info r metricInfo of
          None \<Rightarrow> ([], False)
        | Some i \<Rightarrow> (case QueryForSeries (infoNamer i) (infoSeries i) (ciResource metricInfo) namespace selector resourceNames of
            Inl _ \<Rightarrow> ([], False)
          | Inr query \<Rightarrow> (query, True))))"

text \<open>A sample of a vector is a pointer; a label that is missing reads as the empty string.\<close>

definition label_value :: "string \<Rightarrow> sample \<Rightarrow> string" where
  "label_value lbl s = (case sMetric s lbl of None \<Rightarrow> [] | Some v \<Rightarrow> v)"

definition match_value :: "string \<Rightarrow> sample option \<Rightarrow> (string, f64) gomap \<Rightarrow> (string, f64) gomap" where
  "match_value lbl s m = (case s of None \<Rightarrow> m | Some s \<Rightarrow> m(label_value lbl s \<mapsto> sValue s))"

definition MatchValuesToNames :: "cluster \<Rightarrow> custom_registry \<Rightarrow> custom_info \<Rightarrow> sample option list \<Rightarrow> (string, f64) gomap \<times> bool" where
  "MatchValuesToNames c r metricInfo values =
     (case Normalized c metricInfo of
        Inl _ \<Rightarrow> (Map.empty, False)
      | Inr metricInfo \<Rightarrow> (case info r metricInfo of
          None \<Rightarrow> (Map.empty, False)
        | Some i \<Rightarrow> (case LabelForResource (infoNamer i) (ciResource metricInfo) of
            Inl _ \<Rightarrow> (Map.empty, False)
          | Inr lbl \<Rightarrow> (fold (match_value lbl) values Map.empty, True))))"

section \<open>The provider\<close>

record metric_value =
  DescribedObject :: object_reference
  valueMetric :: string
  valueSelector :: "string option"
  valueTime :: int
  valueMilli :: int

text \<open>The quantity of a sample: not a number is zero.\<close>

definition sample_milli :: "f64 \<Rightarrow> int" where
  "sample_milli v = (if v = NaN then 0 else trunc64 (fmul v (Fin 1000)))"

definition metricFor ::
  "cluster \<Rightarrow> int \<Rightarrow> f64 \<Rightarrow> string \<Rightarrow> string \<Rightarrow> custom_info \<Rightarrow> string \<Rightarrow> api_error + metric_value" where
  "metricFor c now v namespace name i metricSelector =
     (case ReferenceFor c namespace name i of
        Inl err \<Rightarrow> Inl (Plain err)
      | Inr ref \<Rightarrow>
          let metric = \<lparr>DescribedObject = ref, valueMetric = ciMetric i, valueSelector = None, valueTime = now,
                valueMilli = sample_milli v\<rparr>
          in if metricSelector = [] then Inr metric
             else (case ParseToLabelSelector c metricSelector of
               Inl err \<Rightarrow> Inl (Plain err) | Inr sel \<Rightarrow> Inr (metric\<lparr>valueSelector := Some sel\<rparr>)))"

fun metrics_loop ::
  "(string \<Rightarrow> f64 \<Rightarrow> api_error + metric_value) \<Rightarrow> (string, f64) gomap \<Rightarrow> string list \<Rightarrow> api_error + metric_value list" where
  "metrics_loop f vs [] = Inr []"
| "metrics_loop f vs (name # names) =
     (case vs name of
        None \<Rightarrow> metrics_loop f vs names
      | Some v \<Rightarrow> (case f name v of
          Inl err \<Rightarrow> Inl err
        | Inr m \<Rightarrow> (case metrics_loop f vs names of Inl err \<Rightarrow> Inl err | Inr ms \<Rightarrow> Inr (m # ms))))"

definition metricsFor ::
  "cluster \<Rightarrow> int \<Rightarrow> custom_registry \<Rightarrow> sample option list \<Rightarrow> string \<Rightarrow> string list \<Rightarrow> custom_info \<Rightarrow> string \<Rightarrow>
   api_error + metric_value list" where
  "metricsFor c now r valueSet namespace names i metricSelector =
     (let (values, found) = MatchValuesToNames c r i valueSet in
      if \<not> found then Inl (NewMetricNotFoundError (ciResource i) (ciMetric i))
      else metrics_loop (\<lambda>name v. metricFor c now v namespace name i metricSelector) values names)"

definition buildQuery ::
  "cluster \<Rightarrow> (string \<Rightarrow> prom_result or_error) \<Rightarrow> custom_registry \<Rightarrow> custom_info \<Rightarrow> string \<Rightarrow> string \<Rightarrow> string list \<Rightarrow>
   api_error + sample option list" where
  "buildQuery c prom r i namespace metricSelector names =
     (let (query, found) = QueryForMetric_custom c r i namespace metricSelector names in
      if \<not> found then Inl (NewMetricNotFoundError (ciResource i) (ciMetric i))
      else case prom query of
        Inr (VectorOf v) \<Rightarrow> Inr (case v of None \<Rightarrow> [] | Some xs \<Rightarrow> map Some xs)
      | _ \<Rightarrow> Inl (NewInternalError ''unable to fetch metrics''))"

definition NewMetricNotFoundForError :: "group_resource \<Rightarrow> string \<Rightarrow> string \<Rightarrow> api_error" where
  "NewMetricNotFoundForError r metric name =
     Status 404 (''the server could not find the metric '' @ metric @ '' for '' @ group_resource_string r @ '' '' @ name)"

definition GetMetricByName ::
  "cluster \<Rightarrow> int \<Rightarrow> (string \<Rightarrow> prom_result or_error) \<Rightarrow> custom_registry \<Rightarrow> string \<Rightarrow> string \<Rightarrow> custom_info \<Rightarrow> string \<Rightarrow>
   api_error + metric_value" where
  "GetMetricByName c now prom r namespace name i metricSelector =
     (case buildQuery c prom r i namespace metricSelector [name] of
        Inl err \<Rightarrow> Inl err
      | Inr queryResults \<Rightarrow>
          if length queryResults < 1 then Inl (NewMetricNotFoundForError (ciResource i) (ciMetric i) name)
          else let (namedValues, found) = MatchValuesToNames c r i queryResults in
            if \<not> found then Inl (NewMetricNotFoundError (ciResource i) (ciMetric i))
            else (case namedValues name of
              None \<Rightarrow> Inl (NewMetricNotFoundForError (ciResource i) (ciMetric i) name)
            | Some v \<Rightarrow> metricFor c now v namespace name i metricSelector))"

definition GetMetricBySelector ::
  "cluster \<Rightarrow> int \<Rightarrow> (string \<Rightarrow> prom_result or_error) \<Rightarrow> custom_registry \<Rightarrow> string \<Rightarrow> string \<Rightarrow> custom_info \<Rightarrow> string \<Rightarrow>
   api_error + metric_value list" where
  "GetMetricBySelector c now prom r namespace selector i metricSelector =
     (case ListObjectNames c namespace selector i of
        Inl _ \<Rightarrow> Inl (NewInternalError ''unable to list matching resources'')
      | Inr resourceNames \<Rightarrow> (case buildQuery c prom r i namespace metricSelector resourceNames of
          Inl err \<Rightarrow> Inl err
        | Inr queryResults \<Rightarrow> metricsFor c now r queryResults namespace resourceNames i metricSelector))"

section \<open>The caching lister\<close>

text \<open>The result of the fan-out is stored at once; an error leaves the registry.\<close>

definition store_listing ::
  "((custom_info, series_info) gomap \<Rightarrow> custom_info list) \<Rightarrow> update_result or_error \<Rightarrow> custom_registry \<Rightarrow>
   string option \<times> custom_registry" where
  "store_listing keys r reg =
     (case r of
        Inl err \<Rightarrow> (Some err, reg)
      | Inr u \<Rightarrow> (case SetSeries keys (rSeries u) (rNamers u) reg of
          Inl err \<Rightarrow> (Some err, reg) | Inr reg' \<Rightarrow> (None, reg')))"

inductive updateMetrics_custom ::
  "((custom_info, series_info) gomap \<Rightarrow> custom_info list) \<Rightarrow> (string \<Rightarrow> string + series list option) \<Rightarrow> (string \<Rightarrow> string) \<Rightarrow>
   metric_namer list \<Rightarrow> custom_registry \<Rightarrow> string option \<times> custom_registry \<Rightarrow> bool" for keys answer q namers where
  "fan_reach answer q namers st \<Longrightarrow> phase st = Returned r \<Longrightarrow>
   updateMetrics_custom keys answer q namers reg (store_listing keys r reg)"

inductive_cases updateMetrics_customE: "updateMetrics_custom keys answer q namers reg out"

section \<open>What the registry holds\<close>

definition named_custom :: "metric_namer \<Rightarrow> series list \<Rightarrow> (custom_info \<times> series_info) list" where
  "named_custom n xs = concat (map (\<lambda>s. case MetricNameForSeries n s of
     Inl _ \<Rightarrow> []
   | Inr name \<Rightarrow> map (\<lambda>resource. (custom_info_of (snd (ResourcesForSeries n s)) name resource,
       \<lparr>infoSeries = seriesName s, infoNamer = n\<rparr>)) (fst (ResourcesForSeries n s))) xs)"

definition custom_series :: "(string \<Rightarrow> string + series list option) \<Rightarrow> metric_namer list \<Rightarrow> (custom_info \<times> series_info) list" where
  "custom_series answer namers = concat (map (\<lambda>n. case found_series answer (Selector n) of
     None \<Rightarrow> [] | Some xs \<Rightarrow> named_custom n (FilterSeries n xs)) namers)"

lemma fold_store_custom: "fold (store_custom n) xs m = m ++ map_of (rev (named_custom n xs))"
  unfolding named_custom_def
proof (rule fold_map_add)
  fix s m
  have "fold (\<lambda>r m. m(f r \<mapsto> v)) rs m = m ++ map_of (rev (map (\<lambda>r. (f r, v)) rs))" for f :: "group_resource \<Rightarrow> custom_info" and v rs and m :: "(custom_info, series_info) gomap"
    using fold_map_add [of rs "\<lambda>r m. m(f r \<mapsto> v)" "\<lambda>r. [(f r, v)]" m] by (simp add: map_eq_conv comp_def)
  then show "store_custom n s m = m ++ map_of (rev (case MetricNameForSeries n s of Inl _ \<Rightarrow> []
     | Inr name \<Rightarrow> map (\<lambda>resource. (custom_info_of (snd (ResourcesForSeries n s)) name resource,
         \<lparr>infoSeries = seriesName s, infoNamer = n\<rparr>)) (fst (ResourcesForSeries n s))))"
    by (simp add: store_custom_def case_prod_beta split: sum.split)
qed

lemma custom_update:
  assumes "updateMetrics_custom keys answer q namers reg out"
  shows "if all_answer namers answer
    then out = (None, \<lparr>info = map_of (rev (custom_series answer namers)), customMetrics = keys (map_of (rev (custom_series answer namers)))\<rparr>)
    else \<exists>err. out = (Some (list_error err), reg)"
proof -
  obtain st r where st: "fan_reach answer q namers st" "phase st = Returned r" and out: "out = store_listing keys r reg"
    using assms by (rule updateMetrics_customE)
  then have l: "lists answer q namers r" by (auto dest!: fan_reach_data simp: fan_data_def)
  show ?thesis
  proof (cases r)
    case (Inl m)
    obtain n :: metric_namer and e where "m = list_error (fetch_error (q (Selector n)) e)" using l unfolding Inl by (rule lists_failed)
    with Inl lists_isl [OF l] out show ?thesis by (auto simp: store_listing_def)
  next
    case (Inr u)
    with l have u: "u = collect (found_series answer) namers" by (simp add: lists_def list_series_def)
    then have "length (rSeries u) = length (rNamers u)" by (simp add: collect_def Let_def)
    moreover have "fold (\<lambda>(xs, n). fold (store_custom n) xs) (zip (rSeries u) (rNamers u)) Map.empty =
        map_of (rev (custom_series answer namers))"
      unfolding u custom_series_def by (subst fold_collected [where g = named_custom]) (simp_all add: fold_store_custom)
    ultimately show ?thesis using Inr lists_isl [OF l] out by (simp add: store_listing_def SetSeries_def Let_def)
  qed
qed

text \<open>
  C7. One update of the custom registry, under any interleaving of its queries: when every query succeeds the
  registry maps each metric of each resource to the last series that provides it, and lists exactly these
  metrics; otherwise the update returns an error and the registry is what it was.
\<close>

theorem custom_registry_follows_prometheus:
  assumes "updateMetrics_custom keys answer q namers reg out"
  shows "if all_answer namers answer
    then out = (None, \<lparr>info = map_of (rev (custom_series answer namers)), customMetrics = keys (map_of (rev (custom_series answer namers)))\<rparr>)
    else \<exists>err. out = (Some (list_error err), reg)"
  using assms by (rule custom_update)

theorem custom_registry_follows_prometheus_witness:
  "\<exists>out. updateMetrics_custom (\<lambda>m. [custom_info_of True ''up'' \<lparr>grGroup = [], grResource = ''pods''\<rparr>])
     (\<lambda>_. Inr (Some [demo_series ''up''])) (\<lambda>s. s) [demo_namer ''a''] \<lparr>info = Map.empty, customMetrics = []\<rparr> out \<and>
     fst out = None \<and> customMetrics (snd out) = [custom_info_of True ''up'' \<lparr>grGroup = [], grResource = ''pods''\<rparr>]"
proof -
  let ?answer = "\<lambda>_. Inr (Some [demo_series ''up''])" and ?ns = "[demo_namer ''a'']"
  let ?keys = "\<lambda>m. [custom_info_of True ''up'' \<lparr>grGroup = [], grResource = ''pods''\<rparr>]"
  let ?reg = "\<lparr>info = Map.empty, customMetrics = []\<rparr>"
  obtain st r where "fan_reach ?answer (\<lambda>s. s) ?ns st" "phase st = Returned r"
    using fan_run_ends [OF fan_reach.initial] fan_run_reach fan_reach.initial unfolding returned_def by metis
  then have u: "updateMetrics_custom ?keys ?answer (\<lambda>s. s) ?ns ?reg (store_listing ?keys r ?reg)"
    by (rule updateMetrics_custom.intros)
  moreover have "all_answer ?ns ?answer" by (simp add: all_answer_def demo_namer_def)
  ultimately have "store_listing ?keys r ?reg =
      (None, \<lparr>info = map_of (rev (custom_series ?answer ?ns)), customMetrics = ?keys (map_of (rev (custom_series ?answer ?ns)))\<rparr>)"
    using custom_registry_follows_prometheus [OF u] by simp
  with u show ?thesis by (intro exI [of _ "store_listing ?keys r ?reg"]) simp
qed

section \<open>What a request is answered with\<close>

definition last_sample :: "string \<Rightarrow> string \<Rightarrow> sample list \<Rightarrow> sample option" where
  "last_sample lbl name xs = find (\<lambda>s. label_value lbl s = name) (rev xs)"

lemma match_values:
  "fold (match_value lbl) (map Some xs) Map.empty = (\<lambda>name. map_option sValue (last_sample lbl name xs))"
proof (induction xs rule: rev_induct)
  case (snoc x xs)
  then show ?case by (auto simp: match_value_def last_sample_def fun_eq_iff)
qed (simp add: last_sample_def)

lemma metrics_loop_all:
  assumes "\<And>n v. n \<in> set names \<Longrightarrow> f n v = Inr (g n v)"
  shows "metrics_loop f vs names = Inr (map (\<lambda>n. g n (the (vs n))) (filter (\<lambda>n. vs n \<noteq> None) names))"
  using assms by (induction names) (auto split: option.split)

text \<open>
  C15. A request by selector: one value for each selected object that has a sample, in the order of the
  objects; the value is that of the last sample labelled with the object's name, in thousandths, and zero when it is not
  a number.
\<close>

theorem GetMetricBySelector_values:
  assumes "ListObjectNames c namespace selector i = Inr names" "names \<noteq> []"
    and "Normalized c i = Inr i'" "info r i' = Some si"
    and "QueryForSeries (infoNamer si) (infoSeries si) (ciResource i') namespace [] names = Inr query"
    and "LabelForResource (infoNamer si) (ciResource i') = Inr lbl"
    and "prom query = Inr (VectorOf (Some xs))"
    and "\<And>n. n \<in> set names \<Longrightarrow> ReferenceFor c namespace n i = Inr (ref n)"
  shows "GetMetricBySelector c now prom r namespace selector i [] =
    Inr (map (\<lambda>n. \<lparr>DescribedObject = ref n, valueMetric = ciMetric i, valueSelector = None, valueTime = now,
             valueMilli = (let v = sValue (the (last_sample lbl n xs)) in if v = NaN then 0 else trunc64 (fmul v (Fin 1000)))\<rparr>)
          (filter (\<lambda>n. last_sample lbl n xs \<noteq> None) names))"
proof -
  let ?vs = "\<lambda>name. map_option sValue (last_sample lbl name xs)"
  have "buildQuery c prom r i namespace [] names = Inr (map Some xs)"
    using assms by (simp add: buildQuery_def QueryForMetric_custom_def)
  moreover have "MatchValuesToNames c r i (map Some xs) = (?vs, True)"
    using assms by (simp add: MatchValuesToNames_def match_values)
  moreover have "metrics_loop (\<lambda>name v. metricFor c now v namespace name i []) ?vs names =
      Inr (map (\<lambda>n. \<lparr>DescribedObject = ref n, valueMetric = ciMetric i, valueSelector = None, valueTime = now,
        valueMilli = sample_milli (the (?vs n))\<rparr>) (filter (\<lambda>n. ?vs n \<noteq> None) names))"
    by (rule metrics_loop_all) (simp add: metricFor_def assms(8))
  ultimately show ?thesis
    using assms(1) by (auto simp: GetMetricBySelector_def metricsFor_def sample_milli_def Let_def option.map_sel)
qed

definition demo_cluster :: cluster where
  "demo_cluster =
     \<lparr>Normalized = Inr, ReferenceFor = \<lambda>ns n i. Inr \<lparr>refAPIVersion = ''v1'', refKind = ''Pod'', refNamespace = ns, refName = n\<rparr>,
      ListObjectNames = \<lambda>_ _ _. Inr [''p'', ''q''], ParseToLabelSelector = Inr\<rparr>"

definition demo_info :: custom_info where
  "demo_info = \<lparr>ciResource = \<lparr>grGroup = [], grResource = ''pods''\<rparr>, ciNamespaced = True, ciMetric = ''up''\<rparr>"

theorem GetMetricBySelector_values_witness:
  "GetMetricBySelector demo_cluster 7
     (\<lambda>_. Inr (VectorOf (Some [\<lparr>sMetric = [''pod'' \<mapsto> ''q''], sValue = NaN, sTimestamp = 5\<rparr>])))
     \<lparr>info = [demo_info \<mapsto> \<lparr>infoSeries = ''up'', infoNamer = demo_namer ''a''\<rparr>], customMetrics = [demo_info]\<rparr>
     ''ns'' ''app=x'' demo_info [] =
   Inr [\<lparr>DescribedObject = \<lparr>refAPIVersion = ''v1'', refKind = ''Pod'', refNamespace = ''ns'', refName = ''q''\<rparr>,
         valueMetric = ''up'', valueSelector = None, valueTime = 7, valueMilli = 0\<rparr>]"
proof -
  let ?r = "\<lparr>info = [demo_info \<mapsto> \<lparr>infoSeries = ''up'', infoNamer = demo_namer ''a''\<rparr>], customMetrics = [demo_info]\<rparr>"
  let ?xs = "[\<lparr>sMetric = [''pod'' \<mapsto> ''q''], sValue = NaN, sTimestamp = 5\<rparr>]"
  have "GetMetricBySelector demo_cluster 7 (\<lambda>_. Inr (VectorOf (Some ?xs))) ?r ''ns'' ''app=x'' demo_info [] =
    Inr (map (\<lambda>n. \<lparr>DescribedObject = \<lparr>refAPIVersion = ''v1'', refKind = ''Pod'', refNamespace = ''ns'', refName = n\<rparr>,
             valueMetric = ciMetric demo_info, valueSelector = None, valueTime = 7,
             valueMilli = (let v = sValue (the (last_sample ''pod'' n ?xs)) in if v = NaN then 0 else trunc64 (fmul v (Fin 1000)))\<rparr>)
          (filter (\<lambda>n. last_sample ''pod'' n ?xs \<noteq> None) [''p'', ''q'']))"
    by (rule GetMetricBySelector_values [where i' = demo_info and si = "\<lparr>infoSeries = ''up'', infoNamer = demo_namer ''a''\<rparr>"])
      (simp_all add: demo_cluster_def demo_namer_def)
  then show ?thesis by (simp add: last_sample_def label_value_def demo_info_def)
qed

end
