(* ===== verification/Access_Info.thy ===== *)
theory Access_Info
  imports Source_Params
begin

text \<open>
  Where the credentials of the cloud services come from (\<open>utils/client.go\<close>, \<open>utils/region.go\<close>): the environment, an
  encrypted file or the metadata server. Base64, cipher block chaining and the padding are written out; the block cipher itself
  is a parameter. The lemmas show that an encrypted text is read back, and which source counts.
\<close>

section \<open>Base64\<close>

definition b64_value :: "char \<Rightarrow> nat option" where
  "b64_value c =
     (let n = of_char c in
      if 65 \<le> n \<and> n \<le> 90 then Some (n - 65) else if 97 \<le> n \<and> n \<le> 122 then Some (n - 71)
      else if 48 \<le> n \<and> n \<le> 57 then Some (n + 4) else if c = CHR ''+'' then Some 62
      else if c = CHR ''/'' then Some 63 else None)"

definition bytes_of_quad :: "nat \<Rightarrow> nat \<Rightarrow> nat \<Rightarrow> nat \<Rightarrow> char list" where
  "bytes_of_quad a b c d =
     [char_of (4 * a + b div 16), char_of (16 * (b mod 16) + c div 4), char_of (64 * (c mod 4) + d)]"

fun b64_quads :: "string \<Rightarrow> char list option" where
  "b64_quads [] = Some []"
| "b64_quads (a # b # c # d # s) =
     (case (b64_value a, b64_value b) of
        (Some x, Some y) \<Rightarrow>
          if d = CHR ''='' then
            (if s \<noteq> [] then None
             else if c = CHR ''='' then Some (take 1 (bytes_of_quad x y 0 0))
             else map_option (\<lambda>z. take 2 (bytes_of_quad x y z 0)) (b64_value c))
          else (case (b64_value c, b64_value d) of
            (Some z, Some w) \<Rightarrow> map_option (\<lambda>r. bytes_of_quad x y z w @ r) (b64_quads s)
          | _ \<Rightarrow> None)
      | _ \<Rightarrow> None)"
| "b64_quads _ = None"

text \<open>\<open>base64.StdEncoding.DecodeString\<close>, which skips line ends.\<close>

definition b64_decode :: "string \<Rightarrow> char list option" where
  "b64_decode s = b64_quads (filter (\<lambda>c. c \<noteq> CHR 0x0A \<and> c \<noteq> CHR 0x0D) s)"

section \<open>Decrypting\<close>

text \<open>
  A slice \<open>xs[:n]\<close> of a slice without spare capacity. (With spare capacity the one use on a text that is too short
  panics a line later, where \<open>make\<close> gets a negative length.)
\<close>

definition slice_to :: "'a list \<Rightarrow> int \<Rightarrow> 'a list res" where
  "slice_to xs n = (if 0 \<le> n \<and> n \<le> int (length xs) then Inr (take (nat n) xs) else Inl (Panic ''slice bounds out of range''))"

definition PKCS5UnPadding :: "char list \<Rightarrow> char list res" where
  "PKCS5UnPadding origData =
     (if origData = [] then Inl (Panic ''index out of range'')
      else slice_to origData (int (length origData) - int (of_char (last origData))))"

definition xor_char :: "char \<Rightarrow> char \<Rightarrow> char" where
  "xor_char a b = char_of (xor (of_char a) (of_char b) :: nat)"

text \<open>Cipher block chaining on whole blocks of sixteen bytes; \<open>D\<close> decrypts a block under a key.\<close>

function cbc_decrypt :: "(char list \<Rightarrow> char list) \<Rightarrow> char list \<Rightarrow> char list \<Rightarrow> char list" where
  "cbc_decrypt D iv c =
     (if c = [] then [] else map2 xor_char (D (take 16 c)) iv @ cbc_decrypt D (take 16 c) (drop 16 c))"
  by pat_completeness auto
termination by (relation "measure (\<lambda>(_, _, c). length c)") auto

declare cbc_decrypt.simps [simp del]

definition CryptBlocks :: "(char list \<Rightarrow> char list) \<Rightarrow> char list \<Rightarrow> char list \<Rightarrow> char list res" where
  "CryptBlocks D iv src =
     (if length src mod 16 \<noteq> 0 then Inl (Panic ''crypto/cipher: input not full blocks'') else Inr (cbc_decrypt D iv src))"

text \<open>\<open>aes\<close> is the block decryption of \<open>aes.NewCipher\<close>, which takes keys of 16, 24 and 32 bytes.\<close>

definition Decrypt :: "(char list \<Rightarrow> char list \<Rightarrow> char list) \<Rightarrow> string \<Rightarrow> char list \<Rightarrow> char list res" where
  "Decrypt aes s keyring =
     (case b64_decode s of
        None \<Rightarrow> Inl (Err ''illegal base64 data'')
      | Some cdata \<Rightarrow>
          if length keyring \<notin> {16, 24, 32} then Inl (Err (''crypto/aes: invalid key size '' @ itoa (int (length keyring))))
          else and_then (slice_to cdata 16) (\<lambda>iv.
               and_then (CryptBlocks (aes keyring) iv (drop 16 cdata)) PKCS5UnPadding))"

section \<open>The credentials\<close>

text \<open>
  What is read: the environment, whether the token file exists and its contents, the clock, and the calls to the metadata
  server.
\<close>

record role_auth =
  authKeyId :: string
  authKeySecret :: string
  authToken :: string

record machine =
  Getenv :: "string \<Rightarrow> string"
  StatConfig :: bool
  ReadConfig :: "string res"
  metaRegion :: "string res"
  metaRoleName :: "string res"
  metaRamRoleToken :: "string \<Rightarrow> role_auth res"

definition GetRegionFromEnv :: "machine \<Rightarrow> string res" where
  "GetRegionFromEnv m =
     (let region = Getenv m ''Region'' in if region = [] then Inl (Err ''not found region info in env'') else Inr region)"

definition access_fields :: "access_user field list" where
  "access_fields =
     [(''access.key.id'', string_field AccessKeyId_update), (''access.key.secret'', string_field AccessKeySecret_update),
      (''security.token'', string_field SecurityToken_update), (''expiration'', string_field Expiration_update),
      (''keyring'', string_field Keyring_update), (''Region'', string_field Region_update)]"

definition zero_user :: access_user where
  "zero_user = \<lparr>AccessKeyId = [], AccessKeySecret = [], SecurityToken = [], Expiration = [], Keyring = [], Region = []\<rparr>"

text \<open>\<open>klog.Fatalf\<close> ends the process; it is read as a panic.\<close>

definition fatal :: "string \<Rightarrow> 'a res \<Rightarrow> 'a res" where
  "fatal what m = (case m of Inl (Err e) \<Rightarrow> Inl (Panic (what @ e)) | _ \<Rightarrow> m)"

text \<open>The token file; an expired token is only logged.\<close>

definition token_file ::
  "(char list \<Rightarrow> char list \<Rightarrow> char list) \<Rightarrow> machine \<Rightarrow> string \<Rightarrow> access_user res" where
  "token_file aes m region =
     and_then (fatal ''failed to read token config, err: '' (ReadConfig m)) (\<lambda>text.
       case unmarshal_struct access_fields zero_user text of
         None \<Rightarrow> Inl (Panic ''error unmarshal token config: json'')
       | Some u \<Rightarrow>
           and_then (fatal ''failed to decode ak, err: '' (Decrypt aes (AccessKeyId u) (Keyring u))) (\<lambda>ak.
           and_then (fatal ''failed to decode sk, err: '' (Decrypt aes (AccessKeySecret u) (Keyring u))) (\<lambda>sk.
           and_then (fatal ''failed to decode token, err: '' (Decrypt aes (SecurityToken u) (Keyring u))) (\<lambda>token.
             Inr (u\<lparr>AccessKeyId := ak, AccessKeySecret := sk, SecurityToken := token, Region := region\<rparr>)))))"

definition GetAccessUserInfo :: "(char list \<Rightarrow> char list \<Rightarrow> char list) \<Rightarrow> machine \<Rightarrow> access_user res" where
  "GetAccessUserInfo aes m =
     and_then (case GetRegionFromEnv m of Inr region \<Rightarrow> Inr region | Inl _ \<Rightarrow> metaRegion m) (\<lambda>region.
       let ak = Getenv m ''AccessKeyId''; sk = Getenv m ''AccessKeySecret'' in
       if ak \<noteq> [] \<and> sk \<noteq> [] then Inr (zero_user\<lparr>Region := region, AccessKeyId := ak, AccessKeySecret := sk\<rparr>)
       else if StatConfig m then token_file aes m region
       else and_then (metaRoleName m) (\<lambda>roleName. and_then (metaRamRoleToken m roleName) (\<lambda>auth.
              Inr (zero_user\<lparr>AccessKeyId := authKeyId auth, AccessKeySecret := authKeySecret auth,
                SecurityToken := authToken auth, Region := region\<rparr>))))"

section \<open>What was encrypted is read back\<close>

text \<open>The other direction: base64, chaining and padding of a text.\<close>

definition b64_char :: "nat \<Rightarrow> char" where
  "b64_char n = ''ABCDEFGHIJKLMNOPQRSTUVWXYZabcdefghijklmnopqrstuvwxyz0123456789+/'' ! n"

fun b64_encode :: "char list \<Rightarrow> string" where
  "b64_encode [] = []"
| "b64_encode [a] = [b64_char (of_char a div 4), b64_char (16 * (of_char a mod 4)), CHR ''='', CHR ''='']"
| "b64_encode [a, b] =
     [b64_char (of_char a div 4), b64_char (16 * (of_char a mod 4) + of_char b div 16), b64_char (4 * (of_char b mod 16)), CHR ''='']"
| "b64_encode (a # b # c # s) =
     [b64_char (of_char a div 4), b64_char (16 * (of_char a mod 4) + of_char b div 16),
      b64_char (4 * (of_char b mod 16) + of_char c div 64), b64_char (of_char c mod 64)] @ b64_encode s"

function cbc_encrypt :: "(char list \<Rightarrow> char list) \<Rightarrow> char list \<Rightarrow> char list \<Rightarrow> char list" where
  "cbc_encrypt E iv p =
     (if p = [] then [] else let c = E (map2 xor_char (take 16 p) iv) in c @ cbc_encrypt E c (drop 16 p))"
  by pat_completeness auto
termination by (relation "measure (\<lambda>(_, _, p). length p)") auto

declare cbc_encrypt.simps [simp del]

definition pkcs5_pad :: "char list \<Rightarrow> char list" where
  "pkcs5_pad s = (let n = 16 - length s mod 16 in s @ replicate n (char_of n))"

definition encrypt :: "(char list \<Rightarrow> char list) \<Rightarrow> char list \<Rightarrow> char list \<Rightarrow> string" where
  "encrypt E iv text = b64_encode (iv @ cbc_encrypt E iv (pkcs5_pad text))"

lemma b64_value_char: "n < 64 \<Longrightarrow> b64_value (b64_char n) = Some n"
proof -
  assume "n < 64"
  then have "n \<in> set [0..<64]" by simp
  moreover have "list_all (\<lambda>n. b64_value (b64_char n) = Some n) [0..<64]" by code_simp
  ultimately show ?thesis by (simp add: list_all_iff)
qed

lemma b64_char_plain: "n < 64 \<Longrightarrow> b64_char n \<noteq> CHR 0x0A \<and> b64_char n \<noteq> CHR 0x0D \<and> b64_char n \<noteq> CHR ''=''"
proof -
  assume "n < 64"
  then have "n \<in> set [0..<64]" by simp
  moreover have "list_all (\<lambda>n. b64_char n \<noteq> CHR 0x0A \<and> b64_char n \<noteq> CHR 0x0D \<and> b64_char n \<noteq> CHR ''='') [0..<64]" by code_simp
  ultimately show ?thesis by (simp add: list_all_iff)
qed

lemma sextets:
  fixes a b c :: nat
  assumes "a < 256" "b < 256" "c < 256"
  shows "a div 4 < 64" "16 * (a mod 4) + b div 16 < 64" "4 * (b mod 16) + c div 64 < 64" "c mod 64 < 64"
    "16 * (a mod 4) < 64" "4 * (b mod 16) < 64"
  using assms by linarith+

lemma split_digit: "y < k \<Longrightarrow> (k * x + y) div k = x \<and> (k * x + y) mod k = (y :: nat)"
  by simp

lemma octets:
  fixes a b c :: nat
  shows "b < 256 \<Longrightarrow> 4 * (a div 4) + (16 * (a mod 4) + b div 16) div 16 = a"
    and "b < 256 \<Longrightarrow> c < 256 \<Longrightarrow> 16 * ((16 * (a mod 4) + b div 16) mod 16) + (4 * (b mod 16) + c div 64) div 4 = b"
    and "c < 256 \<Longrightarrow> 64 * ((4 * (b mod 16) + c div 64) mod 4) + c mod 64 = c"
proof -
  have d: "b < 256 \<Longrightarrow> b div 16 < 16" "c < 256 \<Longrightarrow> c div 64 < 4" by linarith+
  show "b < 256 \<Longrightarrow> 4 * (a div 4) + (16 * (a mod 4) + b div 16) div 16 = a"
    using d split_digit [of "b div 16" 16 "a mod 4"] by simp
  show "b < 256 \<Longrightarrow> c < 256 \<Longrightarrow> 16 * ((16 * (a mod 4) + b div 16) mod 16) + (4 * (b mod 16) + c div 64) div 4 = b"
    using d split_digit [of "b div 16" 16 "a mod 4"] split_digit [of "c div 64" 4 "b mod 16"] by simp
  show "c < 256 \<Longrightarrow> 64 * ((4 * (b mod 16) + c div 64) mod 4) + c mod 64 = c"
    using d split_digit [of "c div 64" 4 "b mod 16"] by simp
qed

lemma octet_end:
  fixes a :: nat
  shows "4 * (a div 4) + 16 * (a mod 4) div 16 = a" "16 * (a div 16) + 4 * (a mod 16) div 4 = a"
  by simp_all

lemma char_octet: "of_char c < (256 :: nat)"
  by (rule char_code)

lemma b64_quads_encode: "b64_quads (b64_encode s) = Some s"
proof (induction s rule: b64_encode.induct)
  case (2 a)
  then show ?case
    using sextets [OF char_octet [of a] char_octet [of a] char_octet [of a]] octet_end(1) [of "of_char a"]
    by (simp add: b64_value_char b64_char_plain bytes_of_quad_def)
next
  case (3 a b)
  then show ?case
    using sextets [OF char_octet [of a] char_octet [of b] char_octet [of b]] octets(1) [OF char_octet [of b], of "of_char a"] octet_end(2) [of "of_char b"]
    by (simp add: b64_value_char b64_char_plain bytes_of_quad_def)
next
  case (4 a b c s)
  then show ?case
    using sextets [OF char_octet [of a] char_octet [of b] char_octet [of c]]
      octets(1) [OF char_octet [of b], of "of_char a"] octets(2) [OF char_octet [of b] char_octet [of c], of "of_char a"]
      octets(3) [OF char_octet [of c], of "of_char b"]
    by (simp add: b64_value_char b64_char_plain bytes_of_quad_def)
qed simp

lemma b64_encode_plain: "list_all (\<lambda>c. c \<noteq> CHR 0x0A \<and> c \<noteq> CHR 0x0D) (b64_encode s)"
proof (induction s rule: b64_encode.induct)
  case (2 a)
  then show ?case using sextets [OF char_octet [of a] char_octet [of a] char_octet [of a]] by (simp add: b64_char_plain)
next
  case (3 a b)
  then show ?case using sextets [OF char_octet [of a] char_octet [of b] char_octet [of b]] by (simp add: b64_char_plain)
next
  case (4 a b c s)
  then show ?case using sextets [OF char_octet [of a] char_octet [of b] char_octet [of c]] by (simp add: b64_char_plain)
qed simp

lemma b64_decode_encode: "b64_decode (b64_encode s) = Some s"
  using b64_encode_plain [of s] b64_quads_encode [of s] by (simp add: b64_decode_def list_all_iff filter_True)

lemma xor_char_involution: "xor_char (xor_char a b) b = a"
proof -
  have "take_bit 8 (of_char c :: nat) = of_char c" for c
    using char_octet [of c] by (simp add: take_bit_nat_eq_self_iff)
  then have "take_bit 8 (xor (of_char a) (of_char b) :: nat) = xor (of_char a) (of_char b)"
    by (simp add: take_bit_xor)
  then have "xor (of_char a) (of_char b) < (256 :: nat)" using take_bit_nat_less_exp [of 8 "xor (of_char a) (of_char b)"] by simp
  then have "of_char (xor_char a b) = (xor (of_char a) (of_char b) :: nat)" by (simp add: xor_char_def of_char_of)
  then show ?thesis by (simp add: xor_char_def [of "xor_char a b"] xor.assoc)
qed

lemma map2_xor: "length v = length w \<Longrightarrow> map2 xor_char (map2 xor_char v w) w = v"
  by (induction v w rule: list_induct2) (simp_all add: xor_char_involution)

definition inverse_blocks :: "(char list \<Rightarrow> char list) \<Rightarrow> (char list \<Rightarrow> char list) \<Rightarrow> bool" where
  "inverse_blocks E D \<longleftrightarrow> (\<forall>b. length b = 16 \<longrightarrow> length (E b) = 16 \<and> D (E b) = b)"

lemma cbc_roundtrip:
  assumes "inverse_blocks E D"
  shows "16 dvd length p \<Longrightarrow> length iv = 16 \<Longrightarrow> cbc_decrypt D iv (cbc_encrypt E iv p) = p \<and> length (cbc_encrypt E iv p) = length p"
proof (induction "length p" arbitrary: iv p rule: less_induct)
  case less
  show ?case
  proof (cases "p = []")
    case True
    then show ?thesis by (subst cbc_decrypt.simps, subst cbc_encrypt.simps, subst cbc_encrypt.simps) simp
  next
    case False
    then have len: "16 \<le> length p" using less(2) by (auto dest: dvd_imp_le)
    define c where "c = E (map2 xor_char (take 16 p) iv)"
    have c: "length c = 16" "D c = map2 xor_char (take 16 p) iv"
      using assms len less(3) by (auto simp: inverse_blocks_def c_def)
    have enc: "cbc_encrypt E iv p = c @ cbc_encrypt E c (drop 16 p)"
      using False by (subst cbc_encrypt.simps) (simp add: c_def Let_def)
    have IH: "cbc_decrypt D c (cbc_encrypt E c (drop 16 p)) = drop 16 p \<and> length (cbc_encrypt E c (drop 16 p)) = length (drop 16 p)"
      using less(1) [of "drop 16 p" c] len less(2) c(1) by (auto simp: dvd_minus_self)
    have "cbc_decrypt D iv (c @ cbc_encrypt E c (drop 16 p)) = map2 xor_char (D c) iv @ drop 16 p"
      using c(1) IH by (subst cbc_decrypt.simps) auto
    also have "\<dots> = p" using c(2) map2_xor [of "take 16 p" iv] len less(3) by simp
    finally show ?thesis unfolding enc using c(1) IH len by simp
  qed
qed

lemma unpad_pad: "PKCS5UnPadding (pkcs5_pad s) = Inr s"
proof -
  define n where "n = 16 - length s mod 16"
  have n: "0 < n" "n \<le> 16" by (simp_all add: n_def)
  then show ?thesis
    by (simp add: PKCS5UnPadding_def pkcs5_pad_def Let_def n_def [symmetric] slice_to_def of_char_of)
qed

lemma dvd_pad: "16 dvd length (pkcs5_pad s)"
proof -
  define n where "n = length s"
  have "n mod 16 < 16" by simp
  then have "n + (16 - n mod 16) = 16 * (n div 16 + 1)"
    using mult_div_mod_eq [of 16 n] by (simp only: distrib_left)
  moreover have "length (pkcs5_pad s) = n + (16 - n mod 16)" by (simp add: pkcs5_pad_def n_def Let_def)
  ultimately show ?thesis by simp
qed

lemma decrypt_encrypt:
  assumes "inverse_blocks E (aes keyring)" "length keyring \<in> {16, 24, 32}" "length iv = 16"
  shows "Decrypt aes (encrypt E iv text) keyring = Inr text"
proof -
  have "CryptBlocks (aes keyring) iv (cbc_encrypt E iv (pkcs5_pad text)) = Inr (pkcs5_pad text)"
    using cbc_roundtrip [OF assms(1) dvd_pad assms(3), of "text"] dvd_pad [of "text"] by (simp add: CryptBlocks_def mod_eq_0_iff_dvd)
  then show ?thesis using assms(2,3) by (simp add: Decrypt_def encrypt_def b64_decode_encode slice_to_def unpad_pad)
qed

text \<open>
  What was encrypted is read back: base64 of a block and the chained, padded text under the same key decrypts to the
  text, when the cipher's block decryption undoes its encryption and the key has one of the three sizes.
\<close>

theorem Decrypt_roundtrip:
  assumes "inverse_blocks E (aes keyring)" "length keyring \<in> {16, 24, 32}" "length iv = 16"
  shows "Decrypt aes (encrypt E iv text) keyring = Inr text"
  using assms by (rule decrypt_encrypt)

theorem Decrypt_roundtrip_witness:
  "Decrypt (\<lambda>k. rev) (encrypt rev ''0123456789abcdef'' ''secret'') ''0123456789abcdef'' = Inr ''secret''"
  by (rule Decrypt_roundtrip) (simp_all add: inverse_blocks_def)

text \<open>The token file that holds three texts encrypted under one key ring.\<close>

definition token_json :: "(char list \<Rightarrow> char list) \<Rightarrow> char list \<Rightarrow> access_user \<Rightarrow> json" where
  "token_json E iv u =
     JObj [(''access.key.id'', JStr (encrypt E iv (AccessKeyId u))), (''access.key.secret'', JStr (encrypt E iv (AccessKeySecret u))),
       (''security.token'', JStr (encrypt E iv (SecurityToken u))), (''expiration'', JStr (Expiration u)),
       (''keyring'', JStr (Keyring u))]"

lemma field_for_access:
  "field_for access_fields ''access.key.id'' = Some (string_field AccessKeyId_update)"
  "field_for access_fields ''access.key.secret'' = Some (string_field AccessKeySecret_update)"
  "field_for access_fields ''security.token'' = Some (string_field SecurityToken_update)"
  "field_for access_fields ''expiration'' = Some (string_field Expiration_update)"
  "field_for access_fields ''keyring'' = Some (string_field Keyring_update)"
  by (simp_all add: field_for_def access_fields_def)

lemma unmarshal_token:
  "unmarshal_struct access_fields zero_user (json_text (token_json E iv u)) =
     Some (u\<lparr>AccessKeyId := encrypt E iv (AccessKeyId u), AccessKeySecret := encrypt E iv (AccessKeySecret u),
       SecurityToken := encrypt E iv (SecurityToken u), Region := []\<rparr>)"
proof -
  have "parse_json (json_text (token_json E iv u)) = Some (token_json E iv u)"
    by (rule parse_json_text) (simp_all add: token_json_def)
  moreover have "store_object access_fields zero_user (token_json E iv u) =
      (u\<lparr>AccessKeyId := encrypt E iv (AccessKeyId u), AccessKeySecret := encrypt E iv (AccessKeySecret u),
         SecurityToken := encrypt E iv (SecurityToken u), Region := []\<rparr>, True)"
    by (simp add: token_json_def store_object_def store_member_def field_for_access string_field_def zero_user_def)
  ultimately show ?thesis by (simp add: unmarshal_struct_def)
qed

text \<open>
  C27. The credentials of a token file: without both keys in the environment, and with the file present, the program uses the
  key, secret and token that were encrypted into the file, whatever region the file names, provided the cipher's block
  decryption under the file's key ring undoes its encryption. The region is the environment's, or the metadata server's.
\<close>

theorem GetAccessUserInfo_token_file:
  assumes "Getenv m ''AccessKeyId'' = [] \<or> Getenv m ''AccessKeySecret'' = []"
    and "StatConfig m" "ReadConfig m = Inr (json_text (token_json E iv u))"
    and "(if Getenv m ''Region'' = [] then metaRegion m else Inr (Getenv m ''Region'')) = Inr region"
    and "inverse_blocks E (aes (Keyring u))" "length (Keyring u) \<in> {16, 24, 32}" "length iv = 16"
  shows "GetAccessUserInfo aes m = Inr (u\<lparr>Region := region\<rparr>)"
proof -
  have dec: "Decrypt aes (encrypt E iv s) (Keyring u) = Inr s" for s
    using assms(5-7) by (rule decrypt_encrypt)
  have r: "(case GetRegionFromEnv m of Inr region \<Rightarrow> Inr region | Inl _ \<Rightarrow> metaRegion m) = Inr region"
    using assms(4) by (auto simp: GetRegionFromEnv_def Let_def split: if_splits)
  have "token_file aes m region = Inr (u\<lparr>Region := region\<rparr>)"
    by (simp add: token_file_def assms(3) unmarshal_token dec fatal_def)
  with r assms(1,2) show ?thesis by (auto simp: GetAccessUserInfo_def Let_def)
qed

theorem GetAccessUserInfo_token_file_witness:
  "let u = \<lparr>AccessKeyId = ''STS.id'', AccessKeySecret = ''secret'', SecurityToken = ''token'', Expiration = ''2020-01-01T00:00:00Z'',
         Keyring = ''0123456789abcdef'', Region = ''elsewhere''\<rparr>;
       m = \<lparr>Getenv = (\<lambda>_. []), StatConfig = True, ReadConfig = Inr (json_text (token_json rev ''fedcba9876543210'' u)),
         metaRegion = Inr ''cn-beijing'', metaRoleName = Inl (Err ''none''), metaRamRoleToken = (\<lambda>_. Inl (Err ''none''))\<rparr>
   in GetAccessUserInfo (\<lambda>k. rev) m = Inr (u\<lparr>Region := ''cn-beijing''\<rparr>)"
  unfolding Let_def
  by (rule GetAccessUserInfo_token_file [where E = rev and iv = "''fedcba9876543210''"])
    (simp_all add: inverse_blocks_def)

end
