(* ===== verification/Prom_Client_Options.thy ===== *)
theory Prom_Client_Options
  imports Time_Util
begin

text \<open>
  The options of the adapter and the Prometheus client made from them (\<open>prometheus.go\<close>), with the wrapper that measures its
  calls (\<open>utils/metrics.go\<close>, \<open>utils/types.go\<close>). Files, certificates, kubeconfigs and URLs are read by libraries, which
  are parameters. The lemmas show what each option decides.
\<close>

section \<open>Options\<close>

record 'cfg adapter_options =
  PrometheusURL :: string
  PrometheusInsecure :: bool
  PrometheusAuthInCluster :: bool
  PrometheusAuthConf :: string
  PrometheusCAFile :: string
  PrometheusTokenFile :: string
  PrometheusHeaders :: "string list"
  AdapterConfigFile :: string
  MetricsRelistInterval :: duration
  MetricsMaxAge :: duration
  MetricsConfig :: 'cfg
  CostWeights :: string

text \<open>The defaults before the flags are parsed; \<open>cfg\<close> is a new, empty configuration.\<close>

definition NewAlibabaMetricsAdapterOptions :: "'cfg \<Rightarrow> 'cfg adapter_options" where
  "NewAlibabaMetricsAdapterOptions cfg =
     \<lparr>PrometheusURL = ''http://ack-prometheus-operator-prometheus.monitoring.svc:9090'', PrometheusInsecure = False,
      PrometheusAuthInCluster = False, PrometheusAuthConf = [], PrometheusCAFile = [], PrometheusTokenFile = [],
      PrometheusHeaders = [], AdapterConfigFile = [], MetricsRelistInterval = 10 * minute, MetricsMaxAge = 20 * minute,
      MetricsConfig = cfg, CostWeights = []\<rparr>"

text \<open>Registering the flags sets the two options whose flag has a default of its own.\<close>

definition AddFlags :: "'cfg adapter_options \<Rightarrow> 'cfg adapter_options" where
  \<open>AddFlags cmd = cmd\<lparr>PrometheusInsecure := True, CostWeights := ''{"cpu": "1.0", "memory": "0.0", "gpu": "0.0"}''\<rparr>\<close>

definition LoadConfig :: "(string \<Rightarrow> 'cfg res) \<Rightarrow> 'cfg adapter_options \<Rightarrow> 'cfg adapter_options res" where
  "LoadConfig FromFile cmd =
     (if AdapterConfigFile cmd = []
      then Inl (Err ''no metrics discovery configuration file specified (make sure to use --config)'')
      else case FromFile (AdapterConfigFile cmd) of
        Inl (Err e) \<Rightarrow> Inl (Err (''unable to load metrics discovery configuration: '' @ e))
      | Inl (Panic e) \<Rightarrow> Inl (Panic e)
      | Inr metricsConfig \<Rightarrow> Inr (cmd\<lparr>MetricsConfig := metricsConfig\<rparr>))"

section \<open>Headers\<close>

text \<open>
  The canonical form of a header's key in \<open>net/textproto\<close>: a key of valid bytes is written with capitals at the start
  and after each hyphen, and small letters elsewhere; any other key is left.
\<close>

definition header_byte :: "char \<Rightarrow> bool" where
  "header_byte c \<longleftrightarrow> is_digit c \<or> (65 \<le> (of_char c :: nat) \<and> of_char c \<le> (90 :: nat)) \<or>
     (97 \<le> (of_char c :: nat) \<and> of_char c \<le> (122 :: nat)) \<or> c \<in> set ''!#$%&*+-.^_`|~'' \<or> of_char c = (39 :: nat)"

definition upper_char :: "char \<Rightarrow> char" where
  "upper_char c = (if 97 \<le> (of_char c :: nat) \<and> of_char c \<le> (122 :: nat) then char_of (of_char c - 32 :: nat) else c)"

fun title_case :: "bool \<Rightarrow> string \<Rightarrow> string" where
  "title_case upper [] = []"
| "title_case upper (c # s) =
     (let c' = (if upper then upper_char c else lower_char c) in c' # title_case (c' = CHR ''-'') s)"

definition CanonicalMIMEHeaderKey :: "string \<Rightarrow> string" where
  "CanonicalMIMEHeaderKey s = (if list_all header_byte s then title_case True s else s)"

definition header_add :: "string \<Rightarrow> string \<Rightarrow> (string, string list) gomap \<Rightarrow> (string, string list) gomap" where
  "header_add key value h =
     (let k = CanonicalMIMEHeaderKey key in h(k \<mapsto> (case h k of None \<Rightarrow> [] | Some vs \<Rightarrow> vs) @ [value]))"

text \<open>\<open>http.Header.Get\<close>\<close>

definition header_get :: "(string, string list) gomap \<Rightarrow> string \<Rightarrow> string" where
  "header_get h key = (case h (CanonicalMIMEHeaderKey key) of Some (v # _) \<Rightarrow> v | _ \<Rightarrow> [])"

text \<open>\<open>strings.SplitN(h, "=", 2)\<close>: the key, and the value, which is empty without an equals sign.\<close>

definition header_arg :: "string \<Rightarrow> string \<times> string" where
  "header_arg h = (takeWhile (\<lambda>c. c \<noteq> CHR ''='') h, drop 1 (dropWhile (\<lambda>c. c \<noteq> CHR ''='') h))"

definition parseHeaderArgs :: "string list \<Rightarrow> (string, string list) gomap" where
  "parseHeaderArgs args = fold (\<lambda>h headers. let (key, value) = header_arg h in header_add key value headers) args Map.empty"

section \<open>The client\<close>

text \<open>
  The transport of the HTTP client: TLS with or without certificates of its own, one made from a kubeconfig, the default
  one, and the wrapper that adds a token.
\<close>

datatype ('pool, 'auth) round_tripper =
    TLSTransport "'pool option" bool
  | AuthTransport 'auth
  | DefaultTransport
  | BearerAuth string "('pool, 'auth) round_tripper"

text \<open>What the libraries answer: files, certificates, kubeconfigs, transports, the URL, and the quoted form of a text.\<close>

record ('pool, 'conf, 'auth) libraries =
  ReadFile :: "string \<Rightarrow> string res"
  AppendCertsFromPEM :: "string \<Rightarrow> 'pool option"
  ClientConfig :: "string \<Rightarrow> 'conf res"
  InClusterConfig :: "'conf res"
  TransportFor :: "'conf \<Rightarrow> 'auth res"
  ParseURL :: "string \<Rightarrow> string res"
  Quoted :: "string \<Rightarrow> string"

definition makePrometheusCAClient ::
  "('pool, 'conf, 'auth) libraries \<Rightarrow> string \<Rightarrow> bool \<Rightarrow> ('pool, 'auth) round_tripper res" where
  "makePrometheusCAClient lib caFilename insecure =
     and_then (explain ''failed to read prometheus-ca-file: '' (ReadFile lib caFilename)) (\<lambda>data.
       case AppendCertsFromPEM lib data of
         None \<Rightarrow> Inl (Err ''no certs found in prometheus-ca-file'')
       | Some pool \<Rightarrow> Inr (TLSTransport (Some pool) insecure))"

definition makeKubeconfigHTTPClient ::
  "('pool, 'conf, 'auth) libraries \<Rightarrow> bool \<Rightarrow> string \<Rightarrow> ('pool, 'auth) round_tripper res" where
  "makeKubeconfigHTTPClient lib inClusterAuth kubeConfigPath =
     (if inClusterAuth \<and> kubeConfigPath \<noteq> []
      then Inl (Err ''may not use both in-cluster auth and an explicit kubeconfig at the same time'')
      else if \<not> inClusterAuth \<and> kubeConfigPath = [] then Inr DefaultTransport
      else and_then
        (if kubeConfigPath \<noteq> []
         then explain (''unable to construct  auth configuration from '' @ Quoted lib kubeConfigPath @ '' for connecting to Prometheus: '')
                (ClientConfig lib kubeConfigPath)
         else explain ''unable to construct in-cluster auth configuration for connecting to Prometheus: '' (InClusterConfig lib))
        (\<lambda>authConf. and_then (explain ''unable to construct client transport for connecting to Prometheus: '' (TransportFor lib authConf))
           (\<lambda>tr. Inr (AuthTransport tr))))"

record ('pool, 'auth) connection =
  baseURL :: string
  Transport :: "('pool, 'auth) round_tripper"
  connHeaders :: "(string, string list) gomap"
  serverName :: string

text \<open>The nil URL that the first error quotes prints as \<open><nil>\<close>.\<close>

definition base_transport ::
  "('pool, 'conf, 'auth) libraries \<Rightarrow> 'cfg adapter_options \<Rightarrow> ('pool, 'auth) round_tripper res" where
  "base_transport lib cmd =
     (if PrometheusCAFile cmd \<noteq> [] then makePrometheusCAClient lib (PrometheusCAFile cmd) (PrometheusInsecure cmd)
      else if PrometheusAuthInCluster cmd
      then makeKubeconfigHTTPClient lib (PrometheusAuthInCluster cmd) (PrometheusAuthConf cmd)
      else Inr (TLSTransport None (PrometheusInsecure cmd)))"

definition add_token ::
  "('pool, 'conf, 'auth) libraries \<Rightarrow> 'cfg adapter_options \<Rightarrow> ('pool, 'auth) round_tripper \<Rightarrow> ('pool, 'auth) round_tripper res" where
  "add_token lib cmd tr =
     (if PrometheusTokenFile cmd \<noteq> []
      then and_then (explain ''failed to read prometheus-token-file: '' (ReadFile lib (PrometheusTokenFile cmd)))
             (\<lambda>data. Inr (BearerAuth data tr))
      else Inr tr)"

definition MakePromClient ::
  "('pool, 'conf, 'auth) libraries \<Rightarrow> 'cfg adapter_options \<Rightarrow> ('pool, 'auth) connection res" where
  "MakePromClient lib cmd =
     and_then (explain ''invalid Prometheus URL <nil>: '' (ParseURL lib (PrometheusURL cmd))) (\<lambda>url.
     and_then (base_transport lib cmd) (\<lambda>tr.
     and_then (add_token lib cmd tr) (\<lambda>tr.
       Inr \<lparr>baseURL = url, Transport = tr, connHeaders = parseHeaderArgs (PrometheusHeaders cmd), serverName = url\<rparr>)))"

section \<open>Measured calls\<close>

text \<open>
  Errors of a call: the error type of \<open>utils\<close>, with its text, or one of another package. The measured call passes the answer
  on and observes the seconds it took, unless there is an error of another package.
\<close>

datatype call_error = UtilsError string string | ForeignError string

definition Error_text :: "string \<Rightarrow> string \<Rightarrow> string" where
  "Error_text type msg = type @ '': '' @ msg"

definition Do_instrumented ::
  "string \<Rightarrow> (gotime \<times> gotime) \<Rightarrow> string \<Rightarrow> call_error + 'r \<Rightarrow> (string \<times> string \<times> duration) list \<Rightarrow>
   (call_error + 'r) \<times> (string \<times> string \<times> duration) list" where
  "Do_instrumented server clock endpoint answer latencies =
     (answer, case answer of
        Inl (ForeignError _) \<Rightarrow> latencies
      | _ \<Rightarrow> latencies @ [(endpoint, server, time_sub (snd clock) (fst clock))])"

section \<open>Headers by name\<close>

lemma of_char_upper:
  "of_char (upper_char c) = (if 97 \<le> (of_char c :: nat) \<and> of_char c \<le> (122 :: nat) then of_char c - 32 else of_char c :: nat)"
  by (auto simp: upper_char_def)

lemma of_char_lower:
  "of_char (lower_char c) = (if 65 \<le> (of_char c :: nat) \<and> of_char c \<le> (90 :: nat) then of_char c + 32 else of_char c :: nat)"
  by (auto simp: lower_char_def Let_def)

lemma upper_char_id: "\<not> (97 \<le> (of_char c :: nat) \<and> of_char c \<le> (122 :: nat)) \<Longrightarrow> upper_char c = c"
  by (simp only: upper_char_def if_False)

lemma lower_char_id: "\<not> (65 \<le> (of_char c :: nat) \<and> of_char c \<le> (90 :: nat)) \<Longrightarrow> lower_char c = c"
  by (simp only: lower_char_def Let_def if_False)

lemma letter_byte:
  "65 \<le> (of_char c :: nat) \<Longrightarrow> of_char c \<le> (90 :: nat) \<Longrightarrow> header_byte c"
  "97 \<le> (of_char c :: nat) \<Longrightarrow> of_char c \<le> (122 :: nat) \<Longrightarrow> header_byte c"
  unfolding header_byte_def by blast+

lemma char_eq_nat: "c = d \<longleftrightarrow> of_char c = (of_char d :: nat)"
  by simp

lemma case_char_idem:
  "upper_char (upper_char c) = upper_char c" "upper_char (lower_char c) = upper_char c"
  "lower_char (lower_char c) = lower_char c" "lower_char (upper_char c) = lower_char c"
  by (simp_all only: char_eq_nat of_char_upper of_char_lower) auto

lemma title_case_idem: "title_case up (title_case up s) = title_case up s"
  by (induction up s rule: title_case.induct) (auto simp: Let_def case_char_idem)

lemma header_byte_case: "header_byte (upper_char c) \<longleftrightarrow> header_byte c" "header_byte (lower_char c) \<longleftrightarrow> header_byte c"
proof -
  show "header_byte (upper_char c) \<longleftrightarrow> header_byte c"
  proof (cases "97 \<le> (of_char c :: nat) \<and> of_char c \<le> (122 :: nat)")
    case True
    then have "65 \<le> (of_char c - 32 :: nat)" "(of_char c - 32 :: nat) \<le> 90" by linarith+
    with True show ?thesis using letter_byte(1) [of "upper_char c"] letter_byte(2) [of c] by (simp add: of_char_upper)
  qed (simp add: upper_char_id del: de_Morgan_conj)
  show "header_byte (lower_char c) \<longleftrightarrow> header_byte c"
  proof (cases "65 \<le> (of_char c :: nat) \<and> of_char c \<le> (90 :: nat)")
    case True
    then show ?thesis using letter_byte(2) [of "lower_char c"] letter_byte(1) [of c] by (simp add: of_char_lower)
  qed (simp add: lower_char_id del: de_Morgan_conj)
qed

lemma header_byte_title: "list_all header_byte (title_case up s) \<longleftrightarrow> list_all header_byte s"
  by (induction up s rule: title_case.induct) (auto simp: Let_def header_byte_case)

lemma CanonicalMIMEHeaderKey_idem: "CanonicalMIMEHeaderKey (CanonicalMIMEHeaderKey s) = CanonicalMIMEHeaderKey s"
  by (simp add: CanonicalMIMEHeaderKey_def header_byte_title title_case_idem)

text \<open>The values given for a header, in the order of the arguments.\<close>

definition header_values :: "string \<Rightarrow> string list \<Rightarrow> string list" where
  "header_values key args =
     map snd (filter (\<lambda>p. CanonicalMIMEHeaderKey (fst p) = CanonicalMIMEHeaderKey key) (map header_arg args))"

lemma parseHeaderArgs_snoc:
  "parseHeaderArgs (args @ [h]) = header_add (fst (header_arg h)) (snd (header_arg h)) (parseHeaderArgs args)"
  by (simp add: parseHeaderArgs_def case_prod_beta Let_def)

lemma header_values_snoc:
  "header_values key (args @ [h]) =
     header_values key args @
     (if CanonicalMIMEHeaderKey (fst (header_arg h)) = CanonicalMIMEHeaderKey key then [snd (header_arg h)] else [])"
  by (simp add: header_values_def)

lemma parseHeaderArgs_lookup:
  "parseHeaderArgs args (CanonicalMIMEHeaderKey key) = (if header_values key args = [] then None else Some (header_values key args))"
proof (induction args rule: rev_induct)
  case Nil
  show ?case by (simp add: parseHeaderArgs_def header_values_def)
next
  case (snoc h args)
  show ?case
  proof (cases "CanonicalMIMEHeaderKey (fst (header_arg h)) = CanonicalMIMEHeaderKey key")
    case True
    then show ?thesis unfolding parseHeaderArgs_snoc header_values_snoc header_add_def Let_def by (simp add: snoc)
  next
    case False
    then show ?thesis unfolding parseHeaderArgs_snoc header_values_snoc header_add_def Let_def by (simp add: snoc)
  qed
qed

text \<open>
  Headers of the client: under any spelling of a name, the header that is sent first is the value of the first argument
  whose name is the same header, whatever the case of its letters, and all its values are kept in the order given.
\<close>

theorem parseHeaderArgs_values:
  "(parseHeaderArgs args (CanonicalMIMEHeaderKey key) =
      (if header_values key args = [] then None else Some (header_values key args))) \<and>
   header_get (parseHeaderArgs args) key = (case header_values key args of [] \<Rightarrow> [] | v # _ \<Rightarrow> v) \<and>
   header_values (CanonicalMIMEHeaderKey key) args = header_values key args"
  by (auto simp: header_get_def parseHeaderArgs_lookup header_values_def [of "CanonicalMIMEHeaderKey key"]
      CanonicalMIMEHeaderKey_idem header_values_def [symmetric] split: list.split)

section \<open>What decides the transport\<close>

definition transport_ok :: "('pool, 'conf, 'auth) libraries \<Rightarrow> 'cfg adapter_options \<Rightarrow> ('pool, 'auth) round_tripper \<Rightarrow> bool" where
  "transport_ok lib cmd tr \<longleftrightarrow>
     (if PrometheusCAFile cmd \<noteq> []
      then \<exists>data pool. ReadFile lib (PrometheusCAFile cmd) = Inr data \<and> AppendCertsFromPEM lib data = Some pool \<and>
             tr = TLSTransport (Some pool) (PrometheusInsecure cmd)
      else if PrometheusAuthInCluster cmd
      then PrometheusAuthConf cmd = [] \<and>
        (\<exists>conf auth. InClusterConfig lib = Inr conf \<and> TransportFor lib conf = Inr auth \<and> tr = AuthTransport auth)
      else tr = TLSTransport None (PrometheusInsecure cmd))"

lemma base_transport_Inr: "base_transport lib cmd = Inr tr \<longleftrightarrow> transport_ok lib cmd tr"
  by (auto simp: base_transport_def transport_ok_def makePrometheusCAClient_def makeKubeconfigHTTPClient_def and_then_eq_Inr
      split: option.splits)

lemma base_transport_conf:
  "base_transport lib cmd = Inr tr \<Longrightarrow>
   base_transport lib (cmd\<lparr>PrometheusAuthConf := conf\<rparr>) =
     (if PrometheusCAFile cmd = [] \<and> PrometheusAuthInCluster cmd \<and> conf \<noteq> []
      then Inl (Err ''may not use both in-cluster auth and an explicit kubeconfig at the same time'') else Inr tr)"
  by (auto simp: base_transport_def makeKubeconfigHTTPClient_def split: if_splits)

text \<open>
  C33. How the client authenticates. When a client is made, its transport is the certificate file's if one is named, then the
  cluster's, then TLS that is checked only when insecure access is turned off, under the token of the token file if one is
  named. The option of an explicit kubeconfig never decides: with in-cluster authentication and no certificate file it is
  refused, and otherwise it is ignored.
\<close>

theorem MakePromClient_transport:
  assumes "MakePromClient lib cmd = Inr conn"
  shows "(\<exists>tr. transport_ok lib cmd tr \<and>
      (if PrometheusTokenFile cmd = [] then Transport conn = tr
       else \<exists>data. ReadFile lib (PrometheusTokenFile cmd) = Inr data \<and> Transport conn = BearerAuth data tr)) \<and>
    MakePromClient lib (cmd\<lparr>PrometheusAuthConf := conf\<rparr>) =
      (if PrometheusCAFile cmd = [] \<and> PrometheusAuthInCluster cmd \<and> conf \<noteq> []
       then Inl (Err ''may not use both in-cluster auth and an explicit kubeconfig at the same time'') else Inr conn)"
proof -
  from assms obtain url tr tr' where ok: "ParseURL lib (PrometheusURL cmd) = Inr url" "base_transport lib cmd = Inr tr"
      "add_token lib cmd tr = Inr tr'"
    and conn: "conn = \<lparr>baseURL = url, Transport = tr', connHeaders = parseHeaderArgs (PrometheusHeaders cmd), serverName = url\<rparr>"
    by (auto simp: MakePromClient_def and_then_eq_Inr)
  have "add_token lib (cmd\<lparr>PrometheusAuthConf := conf\<rparr>) = add_token lib cmd" by (simp add: add_token_def fun_eq_iff)
  with ok conn have "MakePromClient lib (cmd\<lparr>PrometheusAuthConf := conf\<rparr>) =
      (if PrometheusCAFile cmd = [] \<and> PrometheusAuthInCluster cmd \<and> conf \<noteq> []
       then Inl (Err ''may not use both in-cluster auth and an explicit kubeconfig at the same time'') else Inr conn)"
    by (simp add: MakePromClient_def base_transport_conf)
  moreover have "if PrometheusTokenFile cmd = [] then Transport conn = tr
      else \<exists>data. ReadFile lib (PrometheusTokenFile cmd) = Inr data \<and> Transport conn = BearerAuth data tr"
    using ok(3) by (auto simp: conn add_token_def and_then_eq_Inr split: if_splits)
  ultimately show ?thesis using ok(2) base_transport_Inr by blast
qed

text \<open>A cluster with a token file, and the options that use it.\<close>

definition demo_libraries :: "(string, string, string) libraries" where
  "demo_libraries =
     \<lparr>ReadFile = (\<lambda>f. if f = ''/token'' then Inr ''secret'' else Inl (Err ''no such file'')), AppendCertsFromPEM = (\<lambda>_. None),
      ClientConfig = (\<lambda>_. Inl (Err ''no configuration'')), InClusterConfig = Inr ''in-cluster'', TransportFor = Inr,
      ParseURL = Inr, Quoted = (\<lambda>s. s)\<rparr>"

definition demo_options :: "unit adapter_options" where
  "demo_options = (AddFlags (NewAlibabaMetricsAdapterOptions ()))
     \<lparr>PrometheusURL := ''http://prometheus'', PrometheusAuthInCluster := True, PrometheusTokenFile := ''/token'',
      PrometheusHeaders := [''x-scope-orgid=a=b'', ''X-Scope-OrgID=c'']\<rparr>"

theorem MakePromClient_transport_witness:
  "MakePromClient demo_libraries (demo_options\<lparr>PrometheusAuthConf := ''kube.config''\<rparr>) =
   Inl (Err ''may not use both in-cluster auth and an explicit kubeconfig at the same time'')"
proof -
  have "MakePromClient demo_libraries demo_options =
      Inr \<lparr>baseURL = ''http://prometheus'', Transport = BearerAuth ''secret'' (AuthTransport ''in-cluster''),
        connHeaders = parseHeaderArgs [''x-scope-orgid=a=b'', ''X-Scope-OrgID=c''], serverName = ''http://prometheus''\<rparr>"
    by (simp add: MakePromClient_def base_transport_def add_token_def makeKubeconfigHTTPClient_def demo_options_def demo_libraries_def
        NewAlibabaMetricsAdapterOptions_def AddFlags_def)
  from conjunct2 [OF MakePromClient_transport [OF this, where conf = "''kube.config''"]] show ?thesis
    by (simp add: demo_options_def NewAlibabaMetricsAdapterOptions_def AddFlags_def)
qed

end
