(* ===== verification/Metrics_Manager.thy ===== *)
theory Metrics_Manager
  imports SLB_Source CMS_Source AHAS_Source SLS_Source Legacy_Cost Custom_Provider Access_Info Prom_Client_Options
begin

text \<open>
  How the parts are put together: the manager in which the six metric sources register their names (\<open>metrics/manager.go\<close>), the
  provider of the cloud's metrics (\<open>alibabaCloudProvider\<close>), and the manager of the three providers, which routes requests
  and is set up at the start (\<open>providerManager.go\<close>). The lemmas show that no registration hides another, where
  each request goes, that a listed metric is answered by what listed it, and whose name the values of an answer carry.
\<close>

section \<open>The manager of external metrics\<close>

record source =
  InfoList :: "string list"
  GetExternalMetric :: "string \<Rightarrow> string \<Rightarrow> requirement list \<Rightarrow> external_value list res"

type_synonym manager = "(string, source) gomap"

definition AddMetricsSource :: "source \<Rightarrow> manager \<Rightarrow> manager" where
  "AddMetricsSource m em = fold (\<lambda>p em. em(p \<mapsto> m)) (InfoList m) em"

text \<open>\<open>keys\<close> is the order in which the run visits a map.\<close>

definition GetMetricsInfoList :: "(manager \<Rightarrow> string list) \<Rightarrow> manager \<Rightarrow> string list" where
  "GetMetricsInfoList keys em = fold (\<lambda>p infos. infos @ [p]) (keys em) []"

definition GetExternalMetrics :: "manager \<Rightarrow> string \<Rightarrow> requirement list \<Rightarrow> string \<Rightarrow> external_value list res" where
  "GetExternalMetrics em namespace reqs metric =
     (case em metric of
        Some s \<Rightarrow> GetExternalMetric s metric namespace reqs
      | None \<Rightarrow> Inl (Err (''The specific metric source '' @ metric @ '' is not found.'' @ [CHR 0x0A])))"

section \<open>The sources as they are registered\<close>

text \<open>
  What the sources reach: the services and their clients, the deployments of the cluster, the files and settings that give
  the credentials, the options and libraries from which each request for costs makes its Prometheus client, the
  queries on that client, the clock, and the orders in which maps are visited.
\<close>

record ('pool, 'conf, 'auth, 'cfg) surroundings =
  logService :: log_service
  slbSdk :: "cms_client sdk"
  cmsSdk :: "cms_client sdk"
  ahasSdk :: "ahas_client sdk"
  clusterDeployments :: deployments
  hostMachine :: machine
  blockCipher :: "char list \<Rightarrow> char list \<Rightarrow> char list"
  hostLibraries :: "('pool, 'conf, 'auth) libraries"
  GlobalConfig :: "'cfg adapter_options"
  instantQuery :: "('pool, 'auth) connection \<Rightarrow> string \<Rightarrow> prom_result res"
  queryAt :: "('pool, 'auth) connection \<Rightarrow> int \<Rightarrow> string \<Rightarrow> query_result res"
  currentTime :: gotime
  parseLayout :: "string \<Rightarrow> string \<Rightarrow> gotime option"
  labelOrder :: "(string, string list) gomap \<Rightarrow> string list"
  filterOrder :: "string list"

definition credentials :: "('pool, 'conf, 'auth, 'cfg) surroundings \<Rightarrow> access_user res" where
  "credentials w = GetAccessUserInfo (blockCipher w) (hostMachine w)"

definition SLSMetricSource :: "('pool, 'conf, 'auth, 'cfg) surroundings \<Rightarrow> source" where
  "SLSMetricSource w = \<lparr>InfoList = GetExternalMetricInfoList_sls,
     GetExternalMetric = GetExternalMetric_sls (logService w) (credentials w) (currentTime w)\<rparr>"

definition SLBMetricSource :: "('pool, 'conf, 'auth, 'cfg) surroundings \<Rightarrow> source" where
  "SLBMetricSource w = \<lparr>InfoList = GetExternalMetricInfoList_slb,
     GetExternalMetric = GetExternalMetric_slb (slbSdk w) (credentials w) (currentTime w)\<rparr>"

definition CMSMetricSource :: "('pool, 'conf, 'auth, 'cfg) surroundings \<Rightarrow> source" where
  "CMSMetricSource w = \<lparr>InfoList = GetExternalMetricInfoList_cms,
     GetExternalMetric = GetExternalMetric_cms (cmsSdk w) (credentials w) (currentTime w)\<rparr>"

definition AHASMetricSource :: "('pool, 'conf, 'auth, 'cfg) surroundings \<Rightarrow> source" where
  "AHASMetricSource w = \<lparr>InfoList = GetExternalMetricInfoList_ahas,
     GetExternalMetric = GetExternalMetric_ahas (ahasSdk w) (credentials w) (clusterDeployments w) (currentTime w)\<rparr>"

definition COSTMetricSource :: "('pool, 'conf, 'auth, 'cfg) surroundings \<Rightarrow> source" where
  "COSTMetricSource w = \<lparr>InfoList = GetExternalMetricInfoList_cost,
     GetExternalMetric = GetExternalMetric_cost (labelOrder w)
       (and_then (MakePromClient (hostLibraries w) (GlobalConfig w)) (\<lambda>c. Inr (instantQuery w c)))\<rparr>"

definition COSTV2MetricSource :: "('pool, 'conf, 'auth, 'cfg) surroundings \<Rightarrow> source" where
  "COSTV2MetricSource w = \<lparr>InfoList = GetExternalMetricInfoList_costv2,
     GetExternalMetric = (\<lambda>metric namespace reqs. GetExternalMetric_costv2
       (and_then (MakePromClient (hostLibraries w) (GlobalConfig w)) (\<lambda>c. Inr (queryAt w c)))
       (parseLayout w) (currentTime w) (filterOrder w) metric reqs)\<rparr>"

text \<open>\<open>init\<close> registers them in this order.\<close>

definition registered :: "('pool, 'conf, 'auth, 'cfg) surroundings \<Rightarrow> source list" where
  "registered w =
     [SLSMetricSource w, SLBMetricSource w, CMSMetricSource w, AHASMetricSource w, COSTMetricSource w, COSTV2MetricSource w]"

definition externalMetricsManager :: "('pool, 'conf, 'auth, 'cfg) surroundings \<Rightarrow> manager" where
  "externalMetricsManager w = fold AddMetricsSource (registered w) Map.empty"

section \<open>The provider of the cloud's metrics\<close>

text \<open>A selector: its text, and its requirements if it can select anything.\<close>

record request_selector =
  selectorText :: string
  Requirements :: "requirement list option"

definition GetExternalMetric_alibaba ::
  "manager \<Rightarrow> string \<Rightarrow> request_selector \<Rightarrow> string \<Rightarrow> external_value list res" where
  "GetExternalMetric_alibaba em namespace selector metric =
     (case Requirements selector of
        None \<Rightarrow> Inl (Err ''External metrics need at least one label provided. '')
      | Some r \<Rightarrow> and_then (GetExternalMetrics em namespace r metric) (\<lambda>values. Inr ([] @ values)))"

definition ListAllExternalMetrics_alibaba :: "(manager \<Rightarrow> string list) \<Rightarrow> manager \<Rightarrow> string list" where
  "ListAllExternalMetrics_alibaba keys em = fold (\<lambda>m infos. infos @ [m]) (GetMetricsInfoList keys em) []"

section \<open>The manager of providers\<close>

text \<open>The three providers: the manager of sources, and the registries of the Prometheus providers at the time of a request.\<close>

record provider_manager =
  alibabaCloudProvider :: manager
  prometheusExternal :: external_registry
  prometheusCustom :: custom_registry

datatype manager_error = Cloud error | Prometheus api_error

definition lift_error :: "('e \<Rightarrow> 'f) \<Rightarrow> 'e + 'a \<Rightarrow> 'f + 'a" where
  "lift_error f m = (case m of Inl e \<Rightarrow> Inl (f e) | Inr v \<Rightarrow> Inr v)"

definition GetExternalMetric_manager ::
  "(manager \<Rightarrow> string list) \<Rightarrow> (string \<Rightarrow> prom_result or_error) \<Rightarrow> provider_manager \<Rightarrow> string \<Rightarrow> request_selector \<Rightarrow> string \<Rightarrow>
   manager_error + external_value list" where
  "GetExternalMetric_manager keys prom pm namespace selector metric =
     (if list_ex (\<lambda>m. m = metric) (ListAllExternalMetrics_alibaba keys (alibabaCloudProvider pm))
      then lift_error Cloud (GetExternalMetric_alibaba (alibabaCloudProvider pm) namespace selector metric)
      else if list_ex (\<lambda>m. m = metric) (ListAllExternalMetrics_prometheus (prometheusExternal pm))
      then lift_error Prometheus
        (GetExternalMetric_prometheus prom (prometheusExternal pm) namespace (selectorText selector) metric)
      else Inl (Cloud (Err (''no any matched metrics from provider: {'' @ metric @ ''}''))))"

definition ListAllExternalMetrics_manager :: "(manager \<Rightarrow> string list) \<Rightarrow> provider_manager \<Rightarrow> string list" where
  "ListAllExternalMetrics_manager keys pm =
     [] @ ListAllExternalMetrics_alibaba keys (alibabaCloudProvider pm) @ ListAllExternalMetrics_prometheus (prometheusExternal pm)"

definition GetMetricByName_manager ::
  "cluster \<Rightarrow> int \<Rightarrow> (string \<Rightarrow> prom_result or_error) \<Rightarrow> provider_manager \<Rightarrow> string \<Rightarrow> string \<Rightarrow> custom_info \<Rightarrow> string \<Rightarrow>
   api_error + metric_value" where
  "GetMetricByName_manager c now prom pm namespace name i metricSelector =
     GetMetricByName c now prom (prometheusCustom pm) namespace name i metricSelector"

definition GetMetricBySelector_manager ::
  "cluster \<Rightarrow> int \<Rightarrow> (string \<Rightarrow> prom_result or_error) \<Rightarrow> provider_manager \<Rightarrow> string \<Rightarrow> string \<Rightarrow> custom_info \<Rightarrow> string \<Rightarrow>
   api_error + metric_value list" where
  "GetMetricBySelector_manager c now prom pm namespace selector i metricSelector =
     GetMetricBySelector c now prom (prometheusCustom pm) namespace selector i metricSelector"

definition ListAllMetrics_manager :: "provider_manager \<Rightarrow> custom_info list" where
  "ListAllMetrics_manager pm = ListAllMetrics_custom (prometheusCustom pm)"

section \<open>The start\<close>

text \<open>
  What is read at the start: the mapper and the client of the cluster, the configuration file, and the namers its rules give. The
  maximal age and the interval only reach the queries of the listers, whose answers are parameters.
\<close>

record ('mapper, 'dynamic, 'cfg) startup =
  RESTMapper :: "'mapper res"
  DynamicClient :: "'dynamic res"
  FromFile :: "string \<Rightarrow> 'cfg res"
  NamersFromConfig :: "'cfg \<Rightarrow> 'mapper \<Rightarrow> metric_namer list res"

record runtime =
  providers :: provider_manager
  externalLister :: "external_registry periodic_lister"

definition NewPrometheusProvider :: custom_registry where
  "NewPrometheusProvider = \<lparr>info = Map.empty, customMetrics = []\<rparr>"

text \<open>A configuration that cannot be loaded is only logged; a client that cannot be made ends the process.\<close>

definition NewProviderManager ::
  "((string, series_info) gomap \<Rightarrow> string list) \<Rightarrow> ('mapper, 'dynamic, 'cfg) startup \<Rightarrow> ('pool, 'conf, 'auth, 'cfg) surroundings \<Rightarrow>
   (metric_namer list \<times> ('pool, 'auth) connection \<times> runtime) res" where
  "NewProviderManager ekeys s w =
     and_then (explain ''unable to construct discovery REST mapper: '' (RESTMapper s)) (\<lambda>mapper.
     and_then (explain ''unable to construct dynamic k8s client: '' (DynamicClient s)) (\<lambda>dynamicClient.
       if MetricsMaxAge (GlobalConfig w) < MetricsRelistInterval (GlobalConfig w)
       then Inl (Err ''max age must not be less than relist interval'')
       else and_then
         (case LoadConfig (FromFile s) (GlobalConfig w) of Inl (Err _) \<Rightarrow> Inr (GlobalConfig w) | loaded \<Rightarrow> loaded) (\<lambda>opts.
       and_then (explain ''unable to construct naming scheme from metrics rules: ''
                  (NamersFromConfig s (MetricsConfig opts) mapper)) (\<lambda>namers.
       and_then (fatal ''unable to construct Prometheus client: '' (MakePromClient (hostLibraries w) opts)) (\<lambda>promClient.
         let (lister, registry) = NewExternalPrometheusProvider ekeys in
         Inr (namers, promClient,
              \<lparr>providers = \<lparr>alibabaCloudProvider = externalMetricsManager (w\<lparr>GlobalConfig := opts\<rparr>),
                 prometheusExternal = registry, prometheusCustom = NewPrometheusProvider\<rparr>,
               externalLister = lister\<rparr>))))))"

text \<open>What happens then: either lister finishes a listing, in any order and as often as it likes.\<close>

inductive serves ::
  "((string, series_info) gomap \<Rightarrow> string list) \<Rightarrow> ((custom_info, series_info) gomap \<Rightarrow> custom_info list) \<Rightarrow> metric_namer list \<Rightarrow>
   runtime \<Rightarrow> runtime \<Rightarrow> bool" for ekeys ckeys namers where
  started: "serves ekeys ckeys namers st st"
| external_listing: "serves ekeys ckeys namers st st' \<Longrightarrow> basic_returns namers r \<Longrightarrow>
    updateMetrics r (externalLister st', prometheusExternal (providers st')) = Inr (e, lister, registry) \<Longrightarrow>
    serves ekeys ckeys namers st
      (st'\<lparr>externalLister := lister, providers := (providers st')\<lparr>prometheusExternal := registry\<rparr>\<rparr>)"
| custom_listing: "serves ekeys ckeys namers st st' \<Longrightarrow>
    updateMetrics_custom ckeys answer q namers (prometheusCustom (providers st')) (e, registry') \<Longrightarrow>
    serves ekeys ckeys namers st (st'\<lparr>providers := (providers st')\<lparr>prometheusCustom := registry'\<rparr>\<rparr>)"

section \<open>No registration hides another\<close>

lemma AddMetricsSource_apply: "AddMetricsSource m em n = (if n \<in> set (InfoList m) then Some m else em n)"
proof -
  have "fold (\<lambda>p em. em(p \<mapsto> m)) ps em n = (if n \<in> set ps then Some m else em n)" for ps
    by (induction ps arbitrary: em) auto
  then show ?thesis by (simp add: AddMetricsSource_def)
qed

lemma add_sources_other: "n \<notin> set (concat (map InfoList ss)) \<Longrightarrow> fold AddMetricsSource ss em n = em n"
  by (induction ss arbitrary: em) (auto simp: AddMetricsSource_apply)

lemma add_sources_own:
  "distinct (concat (map InfoList ss)) \<Longrightarrow> s \<in> set ss \<Longrightarrow> n \<in> set (InfoList s) \<Longrightarrow> fold AddMetricsSource ss em n = Some s"
proof (induction ss arbitrary: em)
  case (Cons a ss)
  show ?case
  proof (cases "s \<in> set ss")
    case True
    with Cons show ?thesis by simp
  next
    case False
    with Cons have "n \<in> set (InfoList a)" "n \<notin> set (concat (map InfoList ss))" "s = a" by auto
    then have "fold AddMetricsSource (a # ss) em n = AddMetricsSource a em n"
      using add_sources_other [of n ss "AddMetricsSource a em"] by simp
    moreover have "AddMetricsSource a em n = Some a" using \<open>n \<in> set (InfoList a)\<close> by (simp add: AddMetricsSource_apply)
    ultimately show ?thesis using \<open>s = a\<close> by (simp only:)
  qed
qed simp

definition all_names :: "string list" where
  "all_names = GetExternalMetricInfoList_sls @ GetExternalMetricInfoList_slb @ GetExternalMetricInfoList_cms @
     GetExternalMetricInfoList_ahas @ GetExternalMetricInfoList_cost @ GetExternalMetricInfoList_costv2"

lemmas source_defs = SLSMetricSource_def SLBMetricSource_def CMSMetricSource_def AHASMetricSource_def COSTMetricSource_def
  COSTV2MetricSource_def

lemma all_names_registered: "concat (map InfoList (registered w)) = all_names"
  by (simp add: registered_def all_names_def source_defs)

lemma distinct_all_names: "distinct all_names"
  by code_simp

lemma manager_own: "s \<in> set (registered w) \<Longrightarrow> n \<in> set (InfoList s) \<Longrightarrow> externalMetricsManager w n = Some s"
  unfolding externalMetricsManager_def by (rule add_sources_own) (simp_all add: all_names_registered distinct_all_names)

lemma manager_dom: "externalMetricsManager w n = None \<longleftrightarrow> n \<notin> set all_names"
proof
  assume none: "externalMetricsManager w n = None"
  show "n \<notin> set all_names"
  proof
    assume "n \<in> set all_names"
    then obtain s where "s \<in> set (registered w)" "n \<in> set (InfoList s)"
      unfolding all_names_registered [of w, symmetric] by auto
    with manager_own none show False by fastforce
  qed
next
  assume "n \<notin> set all_names"
  then show "externalMetricsManager w n = None"
    using add_sources_other [of n "registered w" Map.empty] by (simp add: externalMetricsManager_def all_names_registered)
qed

lemma manager_dom_eq: "dom (externalMetricsManager w) = set all_names"
  by (rule set_eqI) (simp add: domIff manager_dom)

text \<open>
  C32. The registrations of the six sources do not hide one another: their eighty names are distinct, the manager answers exactly
  these names, and each name with the source that listed it.
\<close>

theorem registrations_are_disjoint:
  "distinct (concat (map InfoList (registered w))) \<and> length (concat (map InfoList (registered w))) = 80 \<and>
   dom (externalMetricsManager w) = set (concat (map InfoList (registered w))) \<and>
   list_all (\<lambda>s. list_all (\<lambda>n. externalMetricsManager w n = Some s) (InfoList s)) (registered w)"
proof -
  have "length all_names = 80" by code_simp
  then show ?thesis
    by (simp add: all_names_registered distinct_all_names list_all_iff manager_own dom_def manager_dom)
qed

section \<open>What stays as it was started\<close>

lemma serves_manager: "serves ekeys ckeys namers st st' \<Longrightarrow>
    alibabaCloudProvider (providers st') = alibabaCloudProvider (providers st)"
  by (induction rule: serves.induct) simp_all

lemma serves_holds:
  assumes "serves ekeys ckeys namers st st'" "(externalLister st, prometheusExternal (providers st)) = holds ekeys u"
  shows "\<exists>u. (externalLister st', prometheusExternal (providers st')) = holds ekeys u"
  using assms
proof (induction rule: serves.induct)
  case (external_listing st st' r e lister registry)
  then obtain u where u: "(externalLister st', prometheusExternal (providers st')) = holds ekeys u" by auto
  from basic_lister.update_holds [OF external_listing(2), of ekeys u] external_listing(3) u show ?case by auto
qed auto

lemma LoadConfig_other: "LoadConfig f opts = Inr opts' \<Longrightarrow> \<exists>c. opts' = opts\<lparr>MetricsConfig := c\<rparr>"
  by (auto simp: LoadConfig_def split: if_splits sum.splits error.splits)

lemma MakePromClient_config: "MakePromClient lib (opts\<lparr>MetricsConfig := c\<rparr>) = MakePromClient lib opts"
  by (simp add: MakePromClient_def base_transport_def add_token_def)

lemma manager_config:
  "externalMetricsManager (w\<lparr>GlobalConfig := (GlobalConfig w)\<lparr>MetricsConfig := c\<rparr>\<rparr>) = externalMetricsManager w"
  by (simp add: externalMetricsManager_def registered_def source_defs credentials_def MakePromClient_config)

lemma fatal_Inr [simp]: "fatal what m = Inr v \<longleftrightarrow> m = Inr v"
  by (auto simp: fatal_def split: sum.split error.split)

text \<open>What a start that succeeds has done.\<close>

lemma NewProviderManager_Inr:
  assumes "NewProviderManager ekeys s w = Inr (namers, conn, st)"
  obtains mapper c where "RESTMapper s = Inr mapper" "NamersFromConfig s c mapper = Inr namers"
    "MetricsRelistInterval (GlobalConfig w) \<le> MetricsMaxAge (GlobalConfig w)"
    "MakePromClient (hostLibraries w) (GlobalConfig w) = Inr conn"
    "c = (case LoadConfig (FromFile s) (GlobalConfig w) of Inr opts \<Rightarrow> MetricsConfig opts | Inl _ \<Rightarrow> MetricsConfig (GlobalConfig w))"
    "alibabaCloudProvider (providers st) = externalMetricsManager w" "prometheusCustom (providers st) = NewPrometheusProvider"
    "(externalLister st, prometheusExternal (providers st)) = holds ekeys None"
proof -
  from assms obtain mapper opts where m: "RESTMapper s = Inr mapper"
    and age: "MetricsRelistInterval (GlobalConfig w) \<le> MetricsMaxAge (GlobalConfig w)"
    and opts: "(case LoadConfig (FromFile s) (GlobalConfig w) of Inl (Err _) \<Rightarrow> Inr (GlobalConfig w) | loaded \<Rightarrow> loaded) = Inr opts"
    and rest: "NamersFromConfig s (MetricsConfig opts) mapper = Inr namers" "MakePromClient (hostLibraries w) opts = Inr conn"
      "(let (lister, registry) = NewExternalPrometheusProvider ekeys in
         (namers, conn, \<lparr>providers = \<lparr>alibabaCloudProvider = externalMetricsManager (w\<lparr>GlobalConfig := opts\<rparr>),
           prometheusExternal = registry, prometheusCustom = NewPrometheusProvider\<rparr>, externalLister = lister\<rparr>)) = (namers, conn, st)"
    by (auto simp: NewProviderManager_def and_then_eq_Inr Let_def case_prod_beta split: if_splits)
  have c: "\<exists>c. opts = (GlobalConfig w)\<lparr>MetricsConfig := c\<rparr>"
  proof (cases "LoadConfig (FromFile s) (GlobalConfig w)")
    case (Inl e)
    with opts have "opts = (GlobalConfig w)\<lparr>MetricsConfig := MetricsConfig (GlobalConfig w)\<rparr>" by (cases e) simp_all
    then show ?thesis by (rule exI)
  next
    case (Inr o')
    with opts show ?thesis using LoadConfig_other [OF Inr] by simp
  qed
  have "MetricsConfig opts = (case LoadConfig (FromFile s) (GlobalConfig w) of Inr opts \<Rightarrow> MetricsConfig opts | Inl _ \<Rightarrow> MetricsConfig (GlobalConfig w))"
    using opts by (auto split: sum.splits error.splits)
  moreover have "MakePromClient (hostLibraries w) (GlobalConfig w) = Inr conn" using c rest(2) by (auto simp: MakePromClient_config)
  moreover have "alibabaCloudProvider (providers st) = externalMetricsManager w" using c rest(3)
    by (auto simp: Let_def case_prod_beta manager_config)
  moreover have "prometheusCustom (providers st) = NewPrometheusProvider"
    "(externalLister st, prometheusExternal (providers st)) = holds ekeys None"
    using rest(3) by (auto simp: Let_def case_prod_beta holds_def NewExternalPrometheusProvider_def AddNotificationReceiver_def
        NewPeriodicMetricLister_def)
  ultimately show ?thesis using that m rest(1) age by blast
qed

section \<open>Where a request goes\<close>

lemma listed_alibaba: "ListAllExternalMetrics_alibaba keys em = keys em"
proof -
  have "fold (\<lambda>m infos. infos @ [m]) xs ys = ys @ xs" for xs ys :: "string list"
    by (induction xs arbitrary: ys) simp_all
  then show ?thesis by (simp add: ListAllExternalMetrics_alibaba_def GetMetricsInfoList_def)
qed

lemma GetExternalMetric_own:
  assumes "alibabaCloudProvider pm = externalMetricsManager w" "set (keys (externalMetricsManager w)) = dom (externalMetricsManager w)"
    and "Requirements selector = Some reqs" "s \<in> set (registered w)" "metric \<in> set (InfoList s)"
  shows "GetExternalMetric_manager keys prom pm namespace selector metric = lift_error Cloud (GetExternalMetric s metric namespace reqs)"
proof -
  have own: "externalMetricsManager w metric = Some s" using assms(4,5) by (rule manager_own)
  then have "list_ex (\<lambda>m. m = metric) (ListAllExternalMetrics_alibaba keys (alibabaCloudProvider pm))"
    using assms(1,2) by (auto simp: listed_alibaba list_ex_iff)
  then show ?thesis using assms(1,3) own
    by (cases "GetExternalMetric s metric namespace reqs")
      (simp_all add: GetExternalMetric_manager_def GetExternalMetric_alibaba_def GetExternalMetrics_def)
qed

lemma GetExternalMetric_foreign:
  assumes "alibabaCloudProvider pm = externalMetricsManager w" "set (keys (externalMetricsManager w)) = dom (externalMetricsManager w)"
    and "metric \<notin> set all_names"
  shows "GetExternalMetric_manager keys prom pm namespace selector metric =
    (if metric \<in> set (ListAllExternalMetrics_prometheus (prometheusExternal pm))
     then lift_error Prometheus (GetExternalMetric_prometheus prom (prometheusExternal pm) namespace (selectorText selector) metric)
     else Inl (Cloud (Err (''no any matched metrics from provider: {'' @ metric @ ''}''))))"
  using assms by (simp add: GetExternalMetric_manager_def listed_alibaba list_ex_iff domIff manager_dom)

text \<open>
  C5. Where a request for an external metric goes, at any time after the start and whatever the Prometheus listers have found by
  then: a name of one of the six sources is answered by that source, even if Prometheus has a metric of the same name; any other
  name is answered by the Prometheus provider if its registry lists it, and by an error that names it otherwise.
\<close>

theorem requests_are_routed:
  assumes "NewProviderManager ekeys s w = Inr (namers, conn, st)" "serves ekeys ckeys namers st st'"
    and "set (keys (externalMetricsManager w)) = dom (externalMetricsManager w)" "Requirements selector = Some reqs"
  shows "(\<forall>src. src \<in> set (registered w) \<longrightarrow> metric \<in> set (InfoList src) \<longrightarrow>
      GetExternalMetric_manager keys prom (providers st') namespace selector metric =
        lift_error Cloud (GetExternalMetric src metric namespace reqs)) \<and>
    (metric \<notin> set (concat (map InfoList (registered w))) \<longrightarrow>
      GetExternalMetric_manager keys prom (providers st') namespace selector metric =
        (if metric \<in> set (ListAllExternalMetrics_prometheus (prometheusExternal (providers st')))
         then lift_error Prometheus
           (GetExternalMetric_prometheus prom (prometheusExternal (providers st')) namespace (selectorText selector) metric)
         else Inl (Cloud (Err (''no any matched metrics from provider: {'' @ metric @ ''}'')))))"
proof -
  have pm: "alibabaCloudProvider (providers st') = externalMetricsManager w"
    using assms(1) serves_manager [OF assms(2)] by (metis NewProviderManager_Inr)
  show ?thesis using GetExternalMetric_own [where keys = keys, OF pm assms(3,4)] GetExternalMetric_foreign [where keys = keys, OF pm assms(3)]
    unfolding all_names_registered by blast
qed

text \<open>A start in a cluster without cloud credentials but with an in-cluster Prometheus.\<close>

definition demo_surroundings :: "(string, string, string, unit) surroundings" where
  "demo_surroundings =
     \<lparr>logService = (\<lambda>_ _. Inl (Err ''none'')),
      slbSdk = \<lparr>NewClientWithStsToken = (\<lambda>_ _ _ _. Inl (Err ''none'')), NewClientWithAccessKey = (\<lambda>_ _ _. Inl (Err ''none''))\<rparr>,
      cmsSdk = \<lparr>NewClientWithStsToken = (\<lambda>_ _ _ _. Inl (Err ''none'')), NewClientWithAccessKey = (\<lambda>_ _ _. Inl (Err ''none''))\<rparr>,
      ahasSdk = \<lparr>NewClientWithStsToken = (\<lambda>_ _ _ _. Inl (Err ''none'')), NewClientWithAccessKey = (\<lambda>_ _ _. Inl (Err ''none''))\<rparr>,
      clusterDeployments = None,
      hostMachine = \<lparr>Getenv = (\<lambda>_. []), StatConfig = False, ReadConfig = Inl (Err ''none''), metaRegion = Inl (Err ''none''),
        metaRoleName = Inl (Err ''none''), metaRamRoleToken = (\<lambda>_. Inl (Err ''none''))\<rparr>,
      blockCipher = (\<lambda>_ b. b), hostLibraries = demo_libraries, GlobalConfig = demo_options,
      instantQuery = (\<lambda>_ _. Inr (VectorOf (Some [\<lparr>sMetric = Map.empty, sValue = Fin 2, sTimestamp = 0\<rparr>]))), queryAt = (\<lambda>_ _ _. Inr (Vector [])), currentTime = \<lparr>ns = 0, zone = utc\<rparr>,
      parseLayout = (\<lambda>_ _. None), labelOrder = (\<lambda>_. []), filterOrder = []\<rparr>"

definition demo_startup :: "(unit, unit, unit) startup" where
  "demo_startup = \<lparr>RESTMapper = Inr (), DynamicClient = Inr (), FromFile = (\<lambda>_. Inl (Err ''no such file'')),
     NamersFromConfig = (\<lambda>_ _. Inr [demo_namer ''a''])\<rparr>"

lemma demo_start:
  "\<exists>conn st. NewProviderManager ekeys demo_startup demo_surroundings = Inr ([demo_namer ''a''], conn, st)"
  by (simp add: NewProviderManager_def demo_startup_def demo_surroundings_def demo_options_def demo_libraries_def LoadConfig_def
      NewAlibabaMetricsAdapterOptions_def AddFlags_def MakePromClient_def base_transport_def add_token_def fatal_def
      makeKubeconfigHTTPClient_def NewExternalPrometheusProvider_def)

theorem requests_are_routed_witness:
  "\<exists>conn st. NewProviderManager (\<lambda>_. []) demo_startup demo_surroundings = Inr ([demo_namer ''a''], conn, st) \<and>
     GetExternalMetric_manager (\<lambda>_. all_names) (\<lambda>_. Inl ''none'') (providers st) ''default'' \<lparr>selectorText = [], Requirements = Some []\<rparr> ''up'' =
       Inl (Cloud (Err ''no any matched metrics from provider: {up}''))"
proof -
  obtain conn st where st: "NewProviderManager (\<lambda>_. []) demo_startup demo_surroundings = Inr ([demo_namer ''a''], conn, st)"
    using demo_start by blast
  have keys: "set ((\<lambda>_. all_names) (externalMetricsManager demo_surroundings)) = dom (externalMetricsManager demo_surroundings)"
    by (simp add: manager_dom_eq)
  have "ListAllExternalMetrics_prometheus (prometheusExternal (providers st)) = []"
    using st by (rule NewProviderManager_Inr)
      (simp add: holds_def ListAllExternalMetrics_prometheus_def ListAllMetrics_external_def NewExternalSeriesRegistry_def)
  moreover have "''up'' \<notin> set (concat (map InfoList (registered demo_surroundings)))"
    unfolding all_names_registered by code_simp
  ultimately show ?thesis
    using st conjunct2 [OF requests_are_routed [OF st serves.started keys,
        where selector = "\<lparr>selectorText = [], Requirements = Some []\<rparr>" and metric = "''up''"]]
    by auto
qed

text \<open>
  What a successful start has made sure of: the maximal age of metrics is not below the interval of the listings; the client of the
  listings is the one every later request for costs makes anew; the namers come from the configuration file if it can be loaded,
  and otherwise from the configuration there was; and before the first listing only the metrics of the cloud are known.
\<close>

theorem NewProviderManager_started:
  assumes "NewProviderManager ekeys s w = Inr (namers, conn, st)"
  shows "MetricsRelistInterval (GlobalConfig w) \<le> MetricsMaxAge (GlobalConfig w) \<and>
    MakePromClient (hostLibraries w) (GlobalConfig w) = Inr conn \<and>
    (\<exists>mapper. RESTMapper s = Inr mapper \<and>
      NamersFromConfig s (case LoadConfig (FromFile s) (GlobalConfig w) of
        Inr opts \<Rightarrow> MetricsConfig opts | Inl _ \<Rightarrow> MetricsConfig (GlobalConfig w)) mapper = Inr namers) \<and>
    ListAllExternalMetrics_manager keys (providers st) = keys (externalMetricsManager w) \<and>
    ListAllMetrics_manager (providers st) = []"
  using assms by (rule NewProviderManager_Inr)
    (auto simp: holds_def ListAllExternalMetrics_manager_def listed_alibaba ListAllExternalMetrics_prometheus_def
      ListAllMetrics_external_def NewExternalSeriesRegistry_def ListAllMetrics_manager_def ListAllMetrics_custom_def
      NewPrometheusProvider_def)

theorem NewProviderManager_started_witness:
  "\<exists>conn st. NewProviderManager (\<lambda>_. []) demo_startup demo_surroundings = Inr ([demo_namer ''a''], conn, st) \<and>
     ListAllMetrics_manager (providers st) = []"
  using demo_start [of "\<lambda>_. []"] NewProviderManager_started by blast

section \<open>What is listed is found, and answers carry the name\<close>

text \<open>The name on the values of a metric: workload metrics go by the name of the monitoring service.\<close>

definition reported_name :: "string \<Rightarrow> string" where
  "reported_name metric = (if metric \<in> set GetExternalMetricInfoList_cms then cms_reported metric else metric)"

lemma only_cms_renames: "metric \<notin> set GetExternalMetricInfoList_cms \<Longrightarrow> cms_reported metric = metric"
  by (simp add: cms_reported_def cms_metric_def GetExternalMetricInfoList_cms_def)

lemma others_keep:
  "list_all (\<lambda>n. n \<notin> set GetExternalMetricInfoList_cms) (GetExternalMetricInfoList_sls @ GetExternalMetricInfoList_slb @
     GetExternalMetricInfoList_ahas @ GetExternalMetricInfoList_cost @ GetExternalMetricInfoList_costv2)"
  by code_simp

lemma source_named:
  assumes "s \<in> set (registered w)" "metric \<in> set (InfoList s)" "GetExternalMetric s metric namespace reqs = Inr vs"
  shows "list_all (carries (reported_name metric)) vs"
proof (cases "s = CMSMetricSource w")
  case True
  with assms(2,3) show ?thesis by (auto simp: source_defs reported_name_def intro: cms_source.answers_named)
next
  case False
  with assms(1,2) others_keep have "metric \<notin> set GetExternalMetricInfoList_cms"
    by (auto simp: registered_def source_defs list_all_iff)
  moreover have "list_all (carries metric) vs" using assms(1,3) False
    by (auto simp: registered_def source_defs intro: sls_source.answers_named slb_source.answers_named
        ahas_source.answers_named cost_source.answers_named costv2_source.answers_named)
  ultimately show ?thesis by (simp add: reported_name_def)
qed

lemma manager_named:
  assumes pm: "alibabaCloudProvider pm = externalMetricsManager w" "set (keys (externalMetricsManager w)) = dom (externalMetricsManager w)"
    and vs: "GetExternalMetric_manager keys prom pm namespace selector metric = Inr vs"
  shows "list_all (carries (reported_name metric)) vs"
proof (cases "list_ex (\<lambda>m. m = metric) (ListAllExternalMetrics_alibaba keys (externalMetricsManager w))")
  case True
  with vs obtain reqs where "GetExternalMetrics (externalMetricsManager w) namespace reqs metric = Inr vs"
    by (auto simp: GetExternalMetric_manager_def pm GetExternalMetric_alibaba_def lift_error_def and_then_eq_Inr
        split: sum.splits option.splits)
  then obtain src where src: "externalMetricsManager w metric = Some src" "GetExternalMetric src metric namespace reqs = Inr vs"
    by (auto simp: GetExternalMetrics_def split: option.splits)
  then have "metric \<in> set all_names" using manager_dom [of w metric] by auto
  then obtain src' where src': "src' \<in> set (registered w)" "metric \<in> set (InfoList src')"
    unfolding all_names_registered [of w, symmetric] by auto
  with manager_own src have "src' = src" by fastforce
  with src' src(2) show ?thesis using source_named by blast
next
  case False
  then have "metric \<notin> set all_names" using pm(2) by (auto simp: listed_alibaba list_ex_iff manager_dom_eq)
  then have "reported_name metric = metric" by (simp add: reported_name_def all_names_def)
  with vs False show ?thesis
    by (auto simp: GetExternalMetric_manager_def pm lift_error_def split: if_splits sum.splits intro: prometheus_named)
qed

text \<open>
  C31. The values of an answer carry the name that was asked for, from whichever of the six sources or from Prometheus they come
  and at any time after the start, except for the thirteen workload metrics: their values carry the name
  that the cloud monitoring service has for the metric.
\<close>

theorem answers_carry_their_name:
  assumes "NewProviderManager ekeys s w = Inr (namers, conn, st)" "serves ekeys ckeys namers st st'"
    and "set (keys (externalMetricsManager w)) = dom (externalMetricsManager w)"
    and "GetExternalMetric_manager keys prom (providers st') namespace selector metric = Inr vs"
  shows "MetricName ` set vs \<subseteq>
    {if metric \<in> set GetExternalMetricInfoList_cms then the (cms_metric metric) else metric}"
proof -
  have "alibabaCloudProvider (providers st') = externalMetricsManager w"
    using assms(1) serves_manager [OF assms(2)] by (metis NewProviderManager_Inr)
  from manager_named [OF this assms(3,4)] have "MetricName ` set vs \<subseteq> {reported_name metric}"
    by (auto simp: list_all_iff carries_def)
  moreover have "reported_name metric = (if metric \<in> set GetExternalMetricInfoList_cms then the (cms_metric metric) else metric)"
    by (auto simp: reported_name_def cms_reported_def cms_metric_def GetExternalMetricInfoList_cms_def)
  ultimately show ?thesis by simp
qed

lemma finite_store: "finite (dom m) \<Longrightarrow> finite (dom (fold (store_series n) xs m))"
  by (induction xs arbitrary: m) (auto simp: store_series_def split: sum.split)

lemma finite_raw_metrics: "finite (dom (raw_metrics u))"
proof -
  have "finite (dom m) \<Longrightarrow> finite (dom (fold (\<lambda>(xs, namer). fold (store_series namer) xs) zs m))" for zs m
    by (induction zs arbitrary: m) (auto simp: finite_store)
  then show ?thesis by (simp add: raw_metrics_def)
qed

lemma demo_connects: "\<exists>c. MakePromClient demo_libraries demo_options = Inr c"
  by (simp add: demo_options_def demo_libraries_def NewAlibabaMetricsAdapterOptions_def AddFlags_def MakePromClient_def
      base_transport_def add_token_def makeKubeconfigHTTPClient_def)

lemma demo_cost_answer:
  "GetExternalMetric (COSTMetricSource demo_surroundings) ''cost_total_hour'' ''*'' [] =
     Inr [convertSample ''cost_total_hour'' \<lparr>sMetric = Map.empty, sValue = Fin 2, sTimestamp = 0\<rparr>]"
proof -
  obtain c where "MakePromClient demo_libraries demo_options = Inr c" using demo_connects by blast
  then show ?thesis
    by (simp add: COSTMetricSource_def demo_surroundings_def GetExternalMetric_cost_def buildExternalQuery_cost_def buildPodLabel_def
        buildNamespaceLabel_def total_metrics_def getCOSTMetrics_def convertVector_cost_def convertSample_cost_def convertSample_def)
qed

theorem answers_carry_their_name_witness:
  "\<exists>conn st. NewProviderManager (\<lambda>_. []) demo_startup demo_surroundings = Inr ([demo_namer ''a''], conn, st) \<and>
     (\<exists>vs. GetExternalMetric_manager (\<lambda>_. all_names) (\<lambda>_. Inl ''none'') (providers st) ''*''
        \<lparr>selectorText = [], Requirements = Some []\<rparr> ''cost_total_hour'' = Inr vs \<and>
       MetricName ` set vs = {''cost_total_hour''})"
proof -
  let ?sel = "\<lparr>selectorText = [], Requirements = Some []\<rparr>"
  obtain conn st where st: "NewProviderManager (\<lambda>_. []) demo_startup demo_surroundings = Inr ([demo_namer ''a''], conn, st)"
    using demo_start by blast
  have "alibabaCloudProvider (providers st) = externalMetricsManager demo_surroundings" using st by (rule NewProviderManager_Inr)
  moreover have "set ((\<lambda>_. all_names) (externalMetricsManager demo_surroundings)) = dom (externalMetricsManager demo_surroundings)"
    by (simp add: manager_dom_eq)
  moreover have "COSTMetricSource demo_surroundings \<in> set (registered demo_surroundings)" by (simp add: registered_def)
  moreover have "''cost_total_hour'' \<in> set (InfoList (COSTMetricSource demo_surroundings))"
    by (simp add: COSTMetricSource_def GetExternalMetricInfoList_cost_def)
  ultimately have "GetExternalMetric_manager (\<lambda>_. all_names) (\<lambda>_. Inl ''none'') (providers st) ''*'' ?sel ''cost_total_hour'' =
      lift_error Cloud (GetExternalMetric (COSTMetricSource demo_surroundings) ''cost_total_hour'' ''*'' [])"
    by (intro GetExternalMetric_own) simp_all
  then have "GetExternalMetric_manager (\<lambda>_. all_names) (\<lambda>_. Inl ''none'') (providers st) ''*'' ?sel ''cost_total_hour'' =
      Inr [convertSample ''cost_total_hour'' \<lparr>sMetric = Map.empty, sValue = Fin 2, sTimestamp = 0\<rparr>]"
    by (simp add: demo_cost_answer lift_error_def)
  moreover have keys: "set ((\<lambda>_. all_names) (externalMetricsManager demo_surroundings)) = dom (externalMetricsManager demo_surroundings)"
    by (simp add: manager_dom_eq)
  moreover have "''cost_total_hour'' \<notin> set GetExternalMetricInfoList_cms" by code_simp
  ultimately show ?thesis
    using answers_carry_their_name [where keys = "\<lambda>_. all_names", OF st serves.started keys] st
    by (auto simp: convertSample_def)
qed

text \<open>
  C8. Every external metric that is listed can be asked for: at any time after the start, a request for a name that the manager of
  providers lists is answered by a source that registered the name, or with what the query of the very series of that name
  in Prometheus gives, built by the namer that found it; a name it does not list is always refused.
\<close>

theorem listed_metrics_are_found:
  assumes "NewProviderManager ekeys s w = Inr (namers, conn, st)" "serves ekeys ckeys namers st st'"
    and "set (keys (externalMetricsManager w)) = dom (externalMetricsManager w)" "Requirements selector = Some reqs"
    and order: "\<And>m. finite (dom m) \<Longrightarrow> set (ekeys m) = dom m"
  shows "if metric \<in> set (ListAllExternalMetrics_manager keys (providers st'))
    then (\<exists>src. src \<in> set (registered w) \<and> metric \<in> set (InfoList src) \<and>
          GetExternalMetric_manager keys prom (providers st') namespace selector metric =
            lift_error Cloud (GetExternalMetric src metric namespace reqs)) \<or>
      (\<exists>i. metricsInfo (prometheusExternal (providers st')) metric = Some i \<and>
          GetExternalMetric_manager keys prom (providers st') namespace selector metric =
            lift_error Prometheus (series_answer prom i namespace (selectorText selector) metric))
    else GetExternalMetric_manager keys prom (providers st') namespace selector metric =
      Inl (Cloud (Err (''no any matched metrics from provider: {'' @ metric @ ''}'')))"
proof -
  have pm: "alibabaCloudProvider (providers st') = externalMetricsManager w"
    using assms(1) serves_manager [OF assms(2)] by (metis NewProviderManager_Inr)
  have "(externalLister st, prometheusExternal (providers st)) = holds ekeys None" using assms(1) by (rule NewProviderManager_Inr)
  with serves_holds [OF assms(2)] obtain u where u: "prometheusExternal (providers st') = snd (holds ekeys u)" by (metis snd_conv)
  have reg: "set (ListAllExternalMetrics_prometheus (prometheusExternal (providers st'))) = dom (metricsInfo (prometheusExternal (providers st')))"
    unfolding u by (cases u) (simp_all add: holds_def ListAllExternalMetrics_prometheus_def ListAllMetrics_external_def
      NewExternalSeriesRegistry_def order finite_raw_metrics)
  show ?thesis
  proof (cases "metric \<in> set all_names")
    case True
    then obtain src where src: "src \<in> set (registered w)" "metric \<in> set (InfoList src)"
      unfolding all_names_registered [of w, symmetric] by auto
    have "metric \<in> set (keys (externalMetricsManager w))" using True manager_dom [of w metric] assms(3) by auto
    with src GetExternalMetric_own [where keys = keys, OF pm assms(3,4) src] show ?thesis
      by (auto simp: ListAllExternalMetrics_manager_def listed_alibaba pm)
  next
    case False
    with assms(3) have notin: "metric \<notin> set (keys (externalMetricsManager w))" using manager_dom [of w metric] by auto
    show ?thesis
    proof (cases "metric \<in> set (ListAllExternalMetrics_prometheus (prometheusExternal (providers st')))")
      case True
      then obtain i where i: "metricsInfo (prometheusExternal (providers st')) metric = Some i" using reg by auto
      with True GetExternalMetric_foreign [where keys = keys, OF pm assms(3) False] GetExternalMetric_found [OF i] show ?thesis
        by (auto simp: ListAllExternalMetrics_manager_def listed_alibaba pm)
    next
      case out: False
      with GetExternalMetric_foreign [where keys = keys, OF pm assms(3) False] notin show ?thesis
        by (simp add: ListAllExternalMetrics_manager_def listed_alibaba pm)
    qed
  qed
qed

lemma demo_listing:
  assumes "(externalLister st, prometheusExternal (providers st)) = holds ekeys None"
  shows "\<exists>st'. serves ekeys ckeys [demo_namer ''a''] st st' \<and>
    prometheusExternal (providers st') =
      snd (holds ekeys (Some (list_series (\<lambda>_. Inr (Some [demo_series ''up''])) [demo_namer ''a''])))"
proof -
  let ?r = "Inr (list_series (\<lambda>_. Inr (Some [demo_series ''up''])) [demo_namer ''a'']) :: update_result or_error"
  have r: "basic_returns [demo_namer ''a''] ?r"
    unfolding basic_returns_def lists_def by (intro exI [of _ "\<lambda>_. Inr (Some [demo_series ''up''])"]) simp
  obtain l g where lg: "holds ekeys (Some (list_series (\<lambda>_. Inr (Some [demo_series ''up''])) [demo_namer ''a''])) = (l, g)"
    by (rule prod.exhaust)
  then obtain e where "updateMetrics ?r (externalLister st, prometheusExternal (providers st)) = Inr (e, l, g)"
    using basic_lister.update_holds [OF r, of ekeys None] assms by auto
  from serves.external_listing [OF serves.started r this] show ?thesis unfolding lg by (intro exI conjI) (assumption, simp)
qed

theorem listed_metrics_are_found_witness:
  "\<exists>conn st st'. NewProviderManager (\<lambda>m. sorted_list_of_set (dom m)) demo_startup demo_surroundings = Inr ([demo_namer ''a''], conn, st) \<and>
     serves (\<lambda>m. sorted_list_of_set (dom m)) (\<lambda>_. []) [demo_namer ''a''] st st' \<and>
     GetExternalMetric_manager (\<lambda>_. all_names) (\<lambda>_. Inl ''none'') (providers st') ''default''
        \<lparr>selectorText = [], Requirements = Some []\<rparr> ''up'' = Inl (Prometheus (Status 500 ''Internal error occurred: unable to fetch metrics''))"
proof -
  let ?sel = "\<lparr>selectorText = [], Requirements = Some []\<rparr>" and ?ekeys = "\<lambda>m :: (string, series_info) gomap. sorted_list_of_set (dom m)"
  let ?u = "list_series (\<lambda>_. Inr (Some [demo_series ''up''])) [demo_namer ''a'']"
  obtain conn st where st: "NewProviderManager ?ekeys demo_startup demo_surroundings = Inr ([demo_namer ''a''], conn, st)"
    using demo_start by blast
  have "(externalLister st, prometheusExternal (providers st)) = holds ?ekeys None" using st by (rule NewProviderManager_Inr)
  then obtain st' where st': "serves ?ekeys (\<lambda>_. []) [demo_namer ''a''] st st'"
    and reg: "prometheusExternal (providers st') = snd (holds ?ekeys (Some ?u))"
    using demo_listing by blast
  have raw: "raw_metrics ?u = map_of (rev (named_series (\<lambda>_. Inr (Some [demo_series ''up''])) [demo_namer ''a'']))"
    by (simp add: list_series_def named_series_def raw_metrics_collect)
  have "''up'' \<in> dom (raw_metrics ?u)"
    unfolding raw by (simp add: named_series_def found_series_def named_def demo_namer_def demo_series_def)
  then have "''up'' \<in> set (ListAllExternalMetrics_prometheus (prometheusExternal (providers st')))"
    using finite_raw_metrics [of ?u] by (simp add: ListAllExternalMetrics_prometheus_def ListAllMetrics_external_def reg holds_def)
  then have "''up'' \<in> set (ListAllExternalMetrics_manager (\<lambda>_. all_names) (providers st'))"
    by (simp add: ListAllExternalMetrics_manager_def)
  moreover have "''up'' \<notin> set (concat (map InfoList (registered demo_surroundings)))" unfolding all_names_registered by code_simp
  moreover have keys: "set ((\<lambda>_. all_names) (externalMetricsManager demo_surroundings)) = dom (externalMetricsManager demo_surroundings)"
    by (simp add: manager_dom_eq)
  moreover have order: "finite (dom m) \<Longrightarrow> set (?ekeys m) = dom m" for m by simp
  moreover have "Requirements ?sel = Some []" by simp
  ultimately obtain i where "GetExternalMetric_manager (\<lambda>_. all_names) (\<lambda>_. Inl ''none'') (providers st') ''default'' ?sel ''up'' =
      lift_error Prometheus (series_answer (\<lambda>_. Inl ''none'') i ''default'' (selectorText ?sel) ''up'')"
    using listed_metrics_are_found [OF st st', where keys = "\<lambda>_. all_names" and selector = ?sel and metric = "''up''" and
        reqs = "[]" and prom = "\<lambda>_. Inl ''none''" and namespace = "''default''"] by auto
  then have "GetExternalMetric_manager (\<lambda>_. all_names) (\<lambda>_. Inl ''none'') (providers st') ''default'' ?sel ''up'' =
      Inl (Prometheus (Status 500 ''Internal error occurred: unable to fetch metrics''))"
    by (simp add: series_answer_def NewInternalError_def lift_error_def split: sum.split)
  with st st' show ?thesis by blast
qed

end
