(* ===== verification/Metrics_API.thy ===== *)
theory Metrics_API
  imports Label_Parser Metrics_Manager
begin

text \<open>
  The external metrics API as the adapter's own HTTP handlers see it: a client of \<open>k8s.io/metrics\<close> sends the text of a
  selector, the API server parses it and asks the manager of providers of the same adapter.
\<close>

text \<open>A failure and a panic of a handler are both an error to the client.\<close>

definition api_list ::
  "requirement_sort \<Rightarrow> (manager \<Rightarrow> string list) \<Rightarrow> (string \<Rightarrow> prom_result or_error) \<Rightarrow> provider_manager \<Rightarrow> string \<Rightarrow> string \<Rightarrow> string \<Rightarrow>
   external_value list res" where
  "api_list srt keys prom pm namespace metricName selector =
     and_then (Parse srt selector) (\<lambda>reqs.
       case GetExternalMetric_manager keys prom pm namespace
         \<lparr>selectorText = selector_string reqs, Requirements = Some reqs\<rparr> metricName of
         Inl _ \<Rightarrow> Inl (Err ''the request failed'')
       | Inr vs \<Rightarrow> Inr vs)"

definition client_answer :: "'a res \<Rightarrow> 'a res" where
  "client_answer m = (case m of Inl _ \<Rightarrow> Inl (Err ''the request failed'') | Inr v \<Rightarrow> Inr v)"

lemma client_answer_simps [simp]: "client_answer (Inl e) = Inl (Err ''the request failed'')" "client_answer (Inr v) = Inr v"
  by (simp_all add: client_answer_def)

text \<open>A selector that was printed arrives as it was, up to the order of equal keys, and the request goes to the source that registered the name.\<close>

lemma api_list_own:
  assumes "alibabaCloudProvider pm = externalMetricsManager w" "set (keys (externalMetricsManager w)) = dom (externalMetricsManager w)"
    and "s \<in> set (registered w)" "metric \<in> set (InfoList s)" "sorts_by_key srt" "Parse srt t = Inr reqs"
  shows "api_list srt keys prom pm namespace metric (selector_string reqs) = client_answer (GetExternalMetric s metric namespace (srt reqs))"
proof -
  have p: "Parse srt (selector_string reqs) = Inr (srt reqs)" using assms(5,6) by (rule Parse_again)
  have "GetExternalMetric_manager keys prom pm namespace \<lparr>selectorText = selector_string (srt reqs), Requirements = Some (srt reqs)\<rparr> metric =
      lift_error Cloud (GetExternalMetric s metric namespace (srt reqs))"
    by (intro GetExternalMetric_own [where keys = keys, OF assms(1,2)]) (simp_all add: assms)
  then show ?thesis
    by (cases "GetExternalMetric s metric namespace (srt reqs)") (simp_all add: api_list_def p lift_error_def)
qed

end
