(* ===== verification/Cost_Loop.thy ===== *)
theory Cost_Loop
  imports Cost_Manager Metrics_API
begin

text \<open>
  The way of a cost query through the whole program: the cost manager (\<open>cost_manager.go\<close>) prints a selector and
  sends it to the external metrics API, the API server hands the request to the manager of providers of the
  same adapter (\<open>providerManager.go\<close>), which routes it to the cost source (\<open>cost_metrics.go\<close>), and
  that asks Prometheus. Here the parameters of \<open>cost_env\<close> are instantiated with the adapter's own
  definitions, and the lemmas follow the window, the filter and the resolution from one end to the other.
\<close>

section \<open>The clients of the cost manager\<close>

record ('ext, 'kube) cost_manager =
  externalClient :: 'ext
  kubeClient :: 'kube

text \<open>A client that cannot be made ends the process.\<close>

definition NewCostManager ::
  "'cfg res \<Rightarrow> ('cfg \<Rightarrow> 'ext res) \<Rightarrow> ('cfg \<Rightarrow> 'kube res) \<Rightarrow> ('ext, 'kube) cost_manager res" where
  "NewCostManager config newExternal newKube =
     and_then (fatal ''failed to get client config: '' config) (\<lambda>cfg.
     and_then (fatal ''failed to create external metrics client: '' (newExternal cfg)) (\<lambda>e.
     and_then (fatal ''failed to create clientSet: '' (newKube cfg)) (\<lambda>k.
       Inr \<lparr>externalClient = e, kubeClient = k\<rparr>)))"

text \<open>
  A list request over all namespaces. \<open>order\<close> is the order in which the run visits the labels of a value.
\<close>

definition item_of :: "((string, string) gomap \<Rightarrow> string list) \<Rightarrow> external_value \<Rightarrow> metric_item" where
  "item_of order v =
     \<lparr>itemLabels = map (\<lambda>k. (k, the (MetricLabels v k))) (order (MetricLabels v)), itemMilli = MilliValue v\<rparr>"

definition list_metrics ::
  "requirement_sort \<Rightarrow> (manager \<Rightarrow> string list) \<Rightarrow> (string \<Rightarrow> prom_result or_error) \<Rightarrow> ((string, string) gomap \<Rightarrow> string list) \<Rightarrow> provider_manager \<Rightarrow>
   string \<Rightarrow> string \<Rightarrow> metric_item list res" where
  "list_metrics srt keys prom order pm metricName selector =
     and_then (api_list srt keys prom pm ''*'' metricName selector) (\<lambda>vs. Inr (map (item_of order) vs))"

definition manager_env ::
  "requirement_sort \<Rightarrow> (string \<Rightarrow> string \<Rightarrow> metric_item list res, 'kube) cost_manager \<Rightarrow> cost_env \<Rightarrow> cost_env" where
  "manager_env srt cm env =
     env\<lparr>ext_list := externalClient cm,
         parse_selector := (\<lambda>t. and_then (Parse srt t) (\<lambda>reqs. Inr (selector_string reqs)))\<rparr>"

section \<open>The requirements of a query\<close>

definition resolution_requirements :: "string \<Rightarrow> requirement list" where
  "resolution_requirements r =
     (if r \<noteq> [] then [\<lparr>rkey = ''resolution'', roperator = Equals, rvalues = [r]\<rparr>] else [])"

definition filter_requirements :: "string list \<Rightarrow> cost_filter \<Rightarrow> requirement list" where
  "filter_requirements ks g =
     (if entries_valid (filter_entries ks g) then requirements (filter_entries ks g) else [])"

definition cost_requirements :: "gotime \<Rightarrow> gotime \<Rightarrow> string list \<Rightarrow> cost_filter \<Rightarrow> string \<Rightarrow> requirement list" where
  "cost_requirements s e ks g r =
     window_requirements s e @ new_selector (filter_requirements ks g) @ resolution_requirements r"

lemma format_window_digits:
  assumes "0 \<le> year_of t" "year_of t \<le> 9999"
  shows "length (format_window t) = 14" "list_all is_digit (format_window t)"
proof -
  obtain y m d where dd: "date_of_days (local_day t) = (y, m, d)" by (cases "date_of_days (local_day t)")
  then have "month_of t = m" "day_of t = d" "valid_date y m d"
    using date_of_days_props [OF dd] by (auto simp: month_of_def day_of_def)
  then have md: "0 \<le> month_of t" "month_of t \<le> 99" "0 \<le> day_of t" "day_of t \<le> 99"
    by (auto simp: valid_date_def days_in_def split: if_splits)
  have two: "length (pad 2 n) = 2 \<and> list_all is_digit (pad 2 n)" if "0 \<le> n" "n \<le> 99" for n
    using that by (simp add: pad2 nat_less_iff)
  have four: "length (pad 4 (year_of t)) = 4 \<and> list_all is_digit (pad 4 (year_of t))"
    using assms by (simp add: pad4 nat_less_iff)
  show "length (format_window t) = 14" "list_all is_digit (format_window t)"
    using two [OF md(1,2)] two [OF md(3,4)] two [of "hour_of t"] two [of "minute_of t"] two [of "second_of t"] four clock_bounds [of t]
    by (simp_all add: format_window_def)
qed

lemma digits_label:
  assumes "list_all is_digit v" "length v \<le> 63"
  shows "IsValidLabelValue v"
proof (cases "v = []")
  case False
  have "alnum c" if "is_digit c" for c using that by (simp add: alnum_def lower_alnum_def)
  then show ?thesis using assms False
    by (auto simp: IsValidLabelValue_def qualified_name_def bracketed_def list_all_iff)
qed (simp add: IsValidLabelValue_def)

lemma window_keys: "list_all IsQualifiedName [''window_start'', ''window_end'', ''window_layout'', ''resolution'']"
  by code_simp

lemma exact_wf: "IsQualifiedName k \<Longrightarrow> IsValidLabelValue v \<Longrightarrow> wf_requirement \<lparr>rkey = k, roperator = Equals, rvalues = [v]\<rparr>"
  by (simp add: wf_requirement_def NewRequirement_def)

lemma window_wf:
  assumes "0 \<le> year_of s" "year_of s \<le> 9999" "0 \<le> year_of e" "year_of e \<le> 9999"
  shows "list_all wf_requirement (window_requirements s e)"
proof -
  have "IsValidLabelValue WindowLayout" by code_simp
  moreover have "IsValidLabelValue (format_window t)" if "0 \<le> year_of t" "year_of t \<le> 9999" for t
    using digits_label format_window_digits [OF that] by simp
  ultimately show ?thesis using assms window_keys by (auto simp: window_requirements_def intro!: exact_wf)
qed

lemma resolution_wf: "IsValidLabelValue r \<Longrightarrow> list_all wf_requirement (resolution_requirements r)"
  using window_keys by (auto simp: resolution_requirements_def intro!: exact_wf)

text \<open>No entry of the filter lists two empty values: three of them print as a text that does not parse.\<close>

definition one_empty :: "(string \<times> string list) list \<Rightarrow> bool" where
  "one_empty es \<longleftrightarrow> list_all (\<lambda>(k, vs). length (filter (\<lambda>v. v = []) vs) \<le> 1) es"

lemma filter_wf: "one_empty (filter_entries ks g) \<Longrightarrow> list_all wf_requirement (new_selector (filter_requirements ks g))"
  unfolding list_all_iff new_selector_set filter_requirements_def
  by (auto simp: requirements_def entries_valid_def one_empty_def wf_requirement_def NewRequirement_In list_all_iff)

lemma join_append: "xs \<noteq> [] \<Longrightarrow> ys \<noteq> [] \<Longrightarrow> join sep (xs @ ys) = join sep xs @ sep @ join sep ys"
proof (induction sep xs rule: join.induct)
  case (2 sep x)
  then show ?case by (cases ys) auto
qed auto

lemma window_text:
  "GetLabelSelectorStr (NewClosedWindow s e) = Inr (join '','' (map requirement_string (window_requirements s e)))"
  by (simp add: GetLabelSelectorStr_def NewClosedWindow_def window_requirements_def requirement_string_def operator_text_def Let_def)

lemma filter_text:
  "GetLabelSelectorStr_filter ks g = join '','' (map requirement_string (new_selector (filter_requirements ks g)))"
  by (simp add: selector_entries filter_requirements_def selector_string_def new_selector_def)

lemma filter_text_ne: "filter_requirements ks g \<noteq> [] \<Longrightarrow> GetLabelSelectorStr_filter ks g \<noteq> []"
proof -
  assume ne: "filter_requirements ks g \<noteq> []"
  then have "new_selector (filter_requirements ks g) \<noteq> []" by (metis new_selector_set set_empty)
  then have "selector_string (new_selector (filter_requirements ks g)) \<noteq> []"
    by (rule selector_string_ne) (auto simp: filter_requirements_def requirements_def)
  then show ?thesis by (simp add: filter_text selector_string_def)
qed

lemma selector_parts:
  assumes F_def: "F = GetLabelSelectorStr_filter ks g"
    and W_def: "W = join '','' (map requirement_string (window_requirements s e))"
  shows "join '','' ((if W \<noteq> [] then [W] else []) @ (if F \<noteq> [] then [F] else []) @ (if r \<noteq> [] then [''resolution='' @ r] else []))
    = join '','' (map requirement_string (cost_requirements s e ks g r))"
proof -
  have W: "W \<noteq> []" "window_requirements s e \<noteq> []"
    by (simp_all add: W_def window_requirements_def requirement_string_def Let_def)
  have R: "requirement_string \<lparr>rkey = ''resolution'', roperator = Equals, rvalues = [r]\<rparr> = ''resolution='' @ r"
    by (simp add: requirement_string_def operator_text_def)
  have F: "F = join '','' (map requirement_string (new_selector (filter_requirements ks g)))" by (simp add: F_def filter_text)
  show ?thesis
  proof (cases "filter_requirements ks g = []")
    case True
    then have "F = []" "new_selector (filter_requirements ks g) = []" by (simp_all add: F new_selector_def)
    then show ?thesis using W R
      by (simp add: cost_requirements_def resolution_requirements_def join_append W_def)
  next
    case False
    then have "F \<noteq> []" "new_selector (filter_requirements ks g) \<noteq> []"
      using filter_text_ne [OF False] by (simp add: F_def, metis new_selector_set set_empty)
    then show ?thesis using W R F
      by (simp add: cost_requirements_def resolution_requirements_def join_append W_def)
  qed
qed

lemma filter_keys:
  assumes "distinct ks"
  shows "distinct (map rkey (new_selector (filter_requirements ks g)))"
    "rkey ` set (new_selector (filter_requirements ks g)) \<subseteq>
      ((@) ''label_'') ` set ks \<union> {''cluster'', ''namespace'', ''created_by_name'', ''created_by_kind'', ''pod''}"
proof -
  have "distinct (map rkey (filter_requirements ks g))"
    using requirements_distinct [OF filter_entries_distinct [OF assms], of g] by (simp add: filter_requirements_def)
  moreover have "mset (map rkey (new_selector (filter_requirements ks g))) = mset (map rkey (filter_requirements ks g))"
    by (simp add: new_selector_def)
  ultimately show "distinct (map rkey (new_selector (filter_requirements ks g)))"
    using mset_eq_imp_distinct_iff by blast
  show "rkey ` set (new_selector (filter_requirements ks g)) \<subseteq>
      ((@) ''label_'') ` set ks \<union> {''cluster'', ''namespace'', ''created_by_name'', ''created_by_kind'', ''pod''}"
    unfolding new_selector_set filter_requirements_def by (auto simp: requirements_def filter_entries_def split: if_splits)
qed

lemma cost_keys: "distinct ks \<Longrightarrow> distinct (map rkey (cost_requirements s e ks g r))"
  using filter_keys [of ks g]
  by (auto simp: cost_requirements_def window_requirements_def resolution_requirements_def)

lemma cost_requirements_wf:
  assumes "0 \<le> year_of s" "year_of s \<le> 9999" "0 \<le> year_of e" "year_of e \<le> 9999"
    and "one_empty (filter_entries ks g)" "IsValidLabelValue r"
  shows "list_all wf_requirement (cost_requirements s e ks g r)"
  using window_wf [OF assms(1-4)] filter_wf [OF assms(5)] resolution_wf [OF assms(6)] by (simp add: cost_requirements_def)

text \<open>What the API server makes of the text: the same values under the same keys.\<close>

definition sent :: "requirement list \<Rightarrow> requirement list" where
  "sent reqs = sort_key rkey (map normal reqs)"

lemma sent_keys [simp]: "distinct (map rkey (sent reqs)) = distinct (map rkey reqs)"
proof -
  have "mset (map rkey (sent reqs)) = mset (map rkey reqs)" by (simp add: sent_def multiset.map_comp comp_def)
  then show ?thesis using mset_eq_imp_distinct_iff by blast
qed

lemma sent_set: "set (sent reqs) = normal ` set reqs"
  by (simp add: sent_def)

lemma sent_requirements:
  assumes "distinct (map rkey reqs)"
  shows "parseRequirements (sent reqs) = parseRequirements reqs"
proof
  fix k
  have d: "distinct (map rkey (sent reqs))" using assms by simp
  show "parseRequirements (sent reqs) k = parseRequirements reqs k"
  proof (cases "k \<in> rkey ` set reqs")
    case True
    then obtain q where q: "q \<in> set reqs" "k = rkey q" by blast
    then have "normal q \<in> set (sent reqs)" by (simp add: sent_set)
    then have "parseRequirements (sent reqs) (rkey (normal q)) = Some (sort (remdups (rvalues (normal q))))"
      by (rule parseRequirements_Some [OF d])
    moreover have "sort (remdups (sort (remdups (rvalues q)))) = sort (remdups (rvalues q))"
      by (simp add: distinct_remdups_id sorted_sort_id)
    ultimately show ?thesis using parseRequirements_Some [OF assms q(1)] q(2) by simp
  next
    case False
    then have "k \<notin> rkey ` set (sent reqs)" by (auto simp: sent_set)
    with False show ?thesis by (simp add: parseRequirements_None)
  qed
qed

lemma sent_sort: "sorts_by_key srt \<Longrightarrow> distinct (map rkey reqs) \<Longrightarrow> srt (map normal reqs) = sent reqs"
  using sorts_distinct [of srt "map normal reqs"] by (simp add: sent_def new_selector_def comp_def)

lemma sent_text:
  assumes "sorts_by_key srt" "list_all wf_requirement reqs" "distinct (map rkey reqs)"
  shows "Parse srt (join '','' (map requirement_string reqs)) = Inr (sent reqs)" "srt (sent reqs) = sent reqs"
proof -
  show p: "Parse srt (join '','' (map requirement_string reqs)) = Inr (sent reqs)"
    using Parse_text [OF assms(2), of srt] by (simp add: sent_sort [OF assms(1,3)])
  show "srt (sent reqs) = sent reqs" using Parse_again(3) [OF assms(1) p] assms(3) by simp
qed

lemma window_normal: "q \<in> set (window_requirements s e) \<Longrightarrow> normal q = q"
  by (auto simp: window_requirements_def normal_def)

lemma window_sent: "set (window_requirements s e) \<subseteq> set (sent (cost_requirements s e ks g r))"
proof
  fix q
  assume q: "q \<in> set (window_requirements s e)"
  then have "normal q \<in> set (sent (cost_requirements s e ks g r))" by (simp add: sent_set cost_requirements_def)
  with window_normal [OF q] show "q \<in> set (sent (cost_requirements s e ks g r))" by simp
qed

section \<open>From the cost manager to Prometheus\<close>

text \<open>The step of the query: what the request asks for, or what the length of the window calls for.\<close>

definition query_step :: "string \<Rightarrow> duration \<Rightarrow> string \<times> string" where
  "query_step r d =
     (if r = [] then ResolutionStringAndSeconds d
      else case ParseDuration r of
        Inl _ \<Rightarrow> ResolutionStringAndSeconds d
      | Inr x \<Rightarrow> (r, format_float (Seconds x)))"

lemma cost_step_strs:
  assumes "distinct ks"
  shows "resolution_strs (parseRequirements (cost_requirements s e ks g r)) d = Inr (query_step r d)"
proof (cases "r = []")
  case True
  have "''resolution'' \<notin> rkey ` set (cost_requirements s e ks g r)"
    using filter_keys(2) [OF assms, of g] True
    by (auto simp: cost_requirements_def window_requirements_def resolution_requirements_def)
  with True show ?thesis by (simp add: resolution_strs_def query_step_def parseRequirements_None)
next
  case False
  then have "\<lparr>rkey = ''resolution'', roperator = Equals, rvalues = [r]\<rparr> \<in> set (cost_requirements s e ks g r)"
    by (simp add: cost_requirements_def resolution_requirements_def)
  from parseRequirements_Some [OF cost_keys [OF assms] this] False show ?thesis
    by (auto simp: resolution_strs_def query_step_def split: sum.split)
qed

text \<open>The query that Prometheus is to run for a metric of a window.\<close>

definition cost_query :: "gotime \<Rightarrow> gotime \<Rightarrow> string list \<Rightarrow> cost_filter \<Rightarrow> string \<Rightarrow> string \<Rightarrow> string \<Rightarrow> string" where
  "cost_query s e ks g r labels metricName =
     (let m = parseRequirements (cost_requirements s e ks g r); d = wall_duration s e; (rs, secs) = query_step r d in
      query_text metricName labels (pod_info_str m) (common_label_str m) (DurationString d @ '':'' @ rs) secs)"

definition vector_items ::
  "((string, string) gomap \<Rightarrow> string list) \<Rightarrow> string \<Rightarrow> query_result res \<Rightarrow> metric_item list option" where
  "vector_items order metricName answer =
     (case answer of
        Inr (Vector ss) \<Rightarrow> if ss = [] then None else Some (map (item_of order \<circ> convertSample metricName) ss)
      | _ \<Rightarrow> None)"

lemma answered_items:
  "(case client_answer (getCostMetricsAtTime (Inr run) now n q t) of
      Inl _ \<Rightarrow> None | Inr vs \<Rightarrow> Some (map (item_of order) vs)) = vector_items order n (run (query_time now n t) q)"
  by (auto simp: getCostMetricsAtTime_def client_answer_def vector_items_def convertVector_def each_collects
      split: sum.split error.split query_result.split)

lemma cost_source_registered:
  "metric \<in> set GetExternalMetricInfoList_costv2 \<Longrightarrow>
   COSTV2MetricSource w \<in> set (registered w) \<and> metric \<in> set (InfoList (COSTV2MetricSource w))"
  by (simp add: registered_def COSTV2MetricSource_def)

lemma sent_selector:
  assumes "preprocessFilter env f = Inr (Some g)" "list_all wf_requirement (cost_requirements s e (label_order env) g r)"
    and "sorts_by_key srt" "distinct (label_order env)"
  shows "metric_selector (manager_env srt cm env) s e r f =
    Inr (selector_string (sent (cost_requirements s e (label_order env) g r)), g)"
proof -
  have "owned_sets (manager_env srt cm env) = owned_sets env"
    by (intro ext) (simp add: owned_sets_def manager_env_def)
  then have names: "controller_names (manager_env srt cm env) = controller_names env"
    by (intro ext) (simp add: controller_names_def, simp add: manager_env_def)
  have pre: "preprocessFilter (manager_env srt cm env) f = preprocessFilter env f"
    unfolding preprocessFilter_def names ..
  show ?thesis unfolding metric_selector_def pre window_text assms(1)
    using sent_text(1) [OF assms(3,2) cost_keys [OF assms(4)]] selector_parts [OF refl refl, of s e "label_order env" g r]
    by (simp add: manager_env_def Let_def)
qed

lemma listed_items:
  assumes "alibabaCloudProvider pm = externalMetricsManager w" "set (keys (externalMetricsManager w)) = dom (externalMetricsManager w)"
    and "MakePromClient (hostLibraries w) (GlobalConfig w) = Inr conn"
    and "metric \<in> set GetExternalMetricInfoList_costv2"
    and "0 \<le> year_of s" "year_of s \<le> 9999" "0 \<le> year_of e" "year_of e \<le> 9999" "in64 (wall_duration s e)"
    and "one_empty (filter_entries ks g)" "IsValidLabelValue r" "distinct ks"
    and "pod_label_str (filterOrder w) (parseRequirements (cost_requirements s e ks g r)) = Inr labels"
    and "sorts_by_key srt"
  shows "(case list_metrics srt keys prom order pm metric (selector_string (sent (cost_requirements s e ks g r))) of
      Inl _ \<Rightarrow> None | Inr l \<Rightarrow> Some l) =
    vector_items order metric (queryAt w conn (query_time (currentTime w) metric (wall_time e)) (cost_query s e ks g r labels metric))"
proof -
  let ?R = "cost_requirements s e ks g r"
  have wf: "list_all wf_requirement ?R" using assms(5-8,10,11) by (rule cost_requirements_wf)
  have d: "distinct (map rkey (sent ?R))" using cost_keys [OF assms(12)] by simp
  have m: "parseRequirements (sent ?R) = parseRequirements ?R" by (rule sent_requirements) (rule cost_keys [OF assms(12)])
  have q: "buildExternalQuery (parseLayout w) (filterOrder w) metric (parseRequirements (sent ?R)) =
      Inr (cost_query s e ks g r labels metric)"
    using window_query [OF d window_sent assms(5-9)] assms(13) cost_step_strs [OF assms(12)]
    by (cases "query_step r (wall_duration s e)") (simp add: m cost_query_def Let_def)
  have "GetExternalMetric (COSTV2MetricSource w) metric ''*'' (sent ?R) =
      getCostMetricsAtTime (Inr (queryAt w conn)) (currentTime w) metric (cost_query s e ks g r labels metric) (wall_time e)"
    using window_metric [OF d window_sent assms(7,8) q] by (simp add: COSTV2MetricSource_def assms(3))
  note ask = this and sent = sent_text [OF assms(14) wf cost_keys [OF assms(12)]]
  have "api_list srt keys prom pm ''*'' metric (selector_string (sent ?R)) =
      client_answer (GetExternalMetric (COSTV2MetricSource w) metric ''*'' (sent ?R))"
    using cost_source_registered [OF assms(4), of w]
    using api_list_own [where keys = keys and s = "COSTV2MetricSource w", OF assms(1,2) _ _ assms(14) sent(1)] sent(2) by simp
  with ask have "(case list_metrics srt keys prom order pm metric (selector_string (sent ?R)) of Inl _ \<Rightarrow> None | Inr l \<Rightarrow> Some l) =
      (case client_answer (getCostMetricsAtTime (Inr (queryAt w conn)) (currentTime w) metric
          (cost_query s e ks g r labels metric) (wall_time e)) of
        Inl _ \<Rightarrow> None | Inr vs \<Rightarrow> Some (map (item_of order) vs))"
    by (simp add: list_metrics_def and_then_def split: sum.split)
  then show ?thesis unfolding answered_items .
qed

lemma cost_values_ne: "\<forall>q \<in> set (cost_requirements s e ks g r). rvalues q \<noteq> []"
  by (auto simp: cost_requirements_def window_requirements_def resolution_requirements_def filter_requirements_def requirements_def)

lemma NewCostManager_Inr:
  "NewCostManager config newExternal newKube = Inr cm \<Longrightarrow> \<exists>cfg. config = Inr cfg \<and> newExternal cfg = Inr (externalClient cm)"
  by (auto simp: NewCostManager_def and_then_eq_Inr)

section \<open>Properties\<close>

text \<open>
  C4. A cost query goes all the way: at any time after the start, when the cost manager reads a cost metric of a window, the
  selector it prints is accepted, the request is routed back to the adapter's own cost source even if Prometheus lists a
  metric of that name, and the manager gets exactly the samples that Prometheus returns for the query of that metric over the time
  between the window's wall clocks, asked at the end of the window, with the filter's values in its matchers and
  the requested resolution as its step. If Prometheus fails or has no sample, it gets nothing and goes on.
\<close>

theorem cost_query_reaches_prometheus:
  assumes "NewProviderManager ekeys su w = Inr (namers, conn, st)" "serves ekeys ckeys namers st st'"
    and "set (keys (externalMetricsManager w)) = dom (externalMetricsManager w)"
    and "NewCostManager config (\<lambda>_. Inr (list_metrics srt keys prom order (providers st'))) newKube = Inr cm"
    and "preprocessFilter env f = Inr (Some g)" "distinct (label_order env)"
    and "one_empty (filter_entries (label_order env) g)" "IsValidLabelValue r"
    and "0 \<le> year_of s" "year_of s \<le> 9999" "0 \<le> year_of e" "year_of e \<le> 9999" "in64 (wall_duration s e)"
    and "metric \<in> set GetExternalMetricInfoList_costv2"
    and "iter_order (filterOrder w) (parseRequirements (cost_requirements s e (label_order env) g r))"
    and "sorts_by_key srt"
  shows "\<exists>sel labels. metric_selector (manager_env srt cm env) s e r f = Inr (sel, g) \<and>
    pod_label_str (filterOrder w) (parseRequirements (cost_requirements s e (label_order env) g r)) = Inr labels \<and>
    getExternalMetrics (manager_env srt cm env) metric sel =
      vector_items order metric
        (queryAt w conn (query_time (currentTime w) metric (wall_time e)) (cost_query s e (label_order env) g r labels metric))"
proof -
  have pm: "alibabaCloudProvider (providers st') = externalMetricsManager w"
    using assms(1) serves_manager [OF assms(2)] by (metis NewProviderManager_Inr)
  have conn: "MakePromClient (hostLibraries w) (GlobalConfig w) = Inr conn" using assms(1) by (rule NewProviderManager_Inr)
  obtain labels where labels:
    "pod_label_str (filterOrder w) (parseRequirements (cost_requirements s e (label_order env) g r)) = Inr labels"
    using pod_label_str_total parseRequirements_ne [OF cost_values_ne] assms(15) by (metis iter_order_def order_refl)
  have sel: "metric_selector (manager_env srt cm env) s e r f =
      Inr (selector_string (sent (cost_requirements s e (label_order env) g r)), g)"
    using sent_selector [OF assms(5) cost_requirements_wf [OF assms(9-12,7,8)] assms(16,6)] .
  have "ext_list (manager_env srt cm env) = list_metrics srt keys prom order (providers st')"
    using NewCostManager_Inr [OF assms(4)] by (simp add: manager_env_def)
  then have "getExternalMetrics (manager_env srt cm env) metric (selector_string (sent (cost_requirements s e (label_order env) g r))) =
      vector_items order metric
        (queryAt w conn (query_time (currentTime w) metric (wall_time e)) (cost_query s e (label_order env) g r labels metric))"
    using listed_items [where keys = keys, OF pm assms(3) conn assms(14,9-13,7,8,6) labels assms(16)]
    by (simp add: getExternalMetrics_def)
  with sel labels show ?thesis by blast
qed

definition loop_surroundings :: "(string, string, string, unit) surroundings" where
  "loop_surroundings = demo_surroundings
     \<lparr>queryAt := (\<lambda>_ _ _. Inr (Vector [\<lparr>sMetric = Map.empty, sValue = Fin 2, sTimestamp = 0\<rparr>])),
      filterOrder := [''window_start'', ''window_end'', ''window_layout'']\<rparr>"

lemma loop_start:
  "\<exists>conn st. NewProviderManager ekeys demo_startup loop_surroundings = Inr ([demo_namer ''a''], conn, st)"
  by (simp add: NewProviderManager_def demo_startup_def loop_surroundings_def demo_surroundings_def demo_options_def demo_libraries_def
      LoadConfig_def NewAlibabaMetricsAdapterOptions_def AddFlags_def MakePromClient_def base_transport_def add_token_def fatal_def
      makeKubeconfigHTTPClient_def NewExternalPrometheusProvider_def)

theorem cost_query_reaches_prometheus_witness:
  "\<exists>(cm :: (string \<Rightarrow> string \<Rightarrow> metric_item list res, unit) cost_manager) sel.
    metric_selector (manager_env new_selector cm quiet_env) demo_time (time_add demo_time (172800 * second)) [] (Some empty_filter) = Inr (sel, empty_filter) \<and>
    getExternalMetrics (manager_env new_selector cm quiet_env) mCostNode sel = Some [demo_item [] 2000]"
proof -
  let ?s = demo_time and ?e = "time_add demo_time (172800 * second)" and ?keys = "\<lambda>_ :: manager. all_names"
  obtain conn st where st: "NewProviderManager (\<lambda>_. []) demo_startup loop_surroundings = Inr ([demo_namer ''a''], conn, st)"
    using loop_start by blast
  define api where "api = list_metrics new_selector ?keys (\<lambda>_. Inl ''none'') (\<lambda>_. []) (providers st)"
  let ?cm = "\<lparr>externalClient = api, kubeClient = ()\<rparr>"
  have y: "year_of ?s = 1970" "year_of ?e = 1970" "wall_duration ?s ?e = 172800 * second" by code_simp+
  have keys: "set (?keys (externalMetricsManager loop_surroundings)) = dom (externalMetricsManager loop_surroundings)"
    by (simp add: manager_dom_eq)
  have cm: "NewCostManager (Inr ()) (\<lambda>_. Inr (list_metrics new_selector ?keys (\<lambda>_. Inl ''none'') (\<lambda>_. []) (providers st))) (\<lambda>_. Inr ()) = Inr ?cm"
    by (simp add: NewCostManager_def fatal_def api_def)
  have pre: "preprocessFilter quiet_env (Some empty_filter) = Inr (Some empty_filter)"
    by (simp add: preprocessFilter_def empty_filter_def)
  have R: "cost_requirements ?s ?e (label_order quiet_env) empty_filter [] = window_requirements ?s ?e"
    by (simp add: cost_requirements_def filter_requirements_def resolution_requirements_def requirements_def filter_entries_def
        quiet_env_def empty_filter_def new_selector_def)
  have dom: "dom (parseRequirements (window_requirements ?s ?e)) = {''window_layout'', ''window_start'', ''window_end''}"
    by (auto simp: parseRequirements_def window_requirements_def dom_def)
  have io: "iter_order (filterOrder loop_surroundings) (parseRequirements (cost_requirements ?s ?e (label_order quiet_env) empty_filter []))"
    unfolding R iter_order_def dom by (auto simp: loop_surroundings_def)
  have one: "one_empty (filter_entries (label_order quiet_env) empty_filter)" "distinct (label_order quiet_env)" "IsValidLabelValue []"
    by (simp_all add: one_empty_def filter_entries_def quiet_env_def empty_filter_def IsValidLabelValue_def)
  have n: "mCostNode \<in> set GetExternalMetricInfoList_costv2" by (simp add: GetExternalMetricInfoList_costv2_def)
  obtain sel labels where
    "metric_selector (manager_env new_selector ?cm quiet_env) ?s ?e [] (Some empty_filter) = Inr (sel, empty_filter)"
    "getExternalMetrics (manager_env new_selector ?cm quiet_env) mCostNode sel = vector_items (\<lambda>_. []) mCostNode
      (queryAt loop_surroundings conn (query_time (currentTime loop_surroundings) mCostNode (wall_time ?e))
        (cost_query ?s ?e (label_order quiet_env) empty_filter [] labels mCostNode))"
    using cost_query_reaches_prometheus [where keys = ?keys and metric = mCostNode,
        OF st serves.started keys cm pre one(2,1,3) _ _ _ _ _ n io new_selector_sorts] y by (auto simp: in64_def)
  moreover have "trunc64 (fmul (Fin 2) (Fin 1000)) = 2000" by code_simp
  ultimately show ?thesis
    by (auto simp: loop_surroundings_def vector_items_def item_of_def convertSample_def demo_item_def intro!: exI [of _ ?cm])
qed

end
