(* ===== verification/Legacy_Cost_Http.thy ===== *)
theory Legacy_Cost_Http
  imports Legacy_Cost Label_Parser
begin

text \<open>
  The HTTP handler of the first cost API (\<open>cost_http.go\<close>): it lists ten metrics of the external metrics API and
  collects them per pod, or sums them up. The total of the last detailed request is a global variable, passed as state. The
  lemmas say what a request reads from its parameters, what it writes for each pod, and when it panics or answers nothing.
\<close>

section \<open>Options and records\<close>

record cost_options =
  Summary :: bool
  DimensionType :: string
  Dimension :: string
  LabelSelector :: string
  TimeUnit :: string

record usage =
  uCPU :: f64
  uMemory :: f64
  uGpu :: f64
  uGpuMem :: f64

record cost_pod_metrics =
  mTimestamp :: int
  mTimeUnit :: string
  mDimensionType :: string
  mDimension :: string
  mPodName :: string
  Request :: usage
  Usage :: usage
  Limit :: usage
  PerCorePricing :: f64
  CostRatio :: f64
  Cost :: f64
  CustomCost :: f64

text \<open>GPU numbers are never written and stay zero.\<close>

definition zero_usage :: usage where "zero_usage = \<lparr>uCPU = Fin 0, uMemory = Fin 0, uGpu = Fin 0, uGpuMem = Fin 0\<rparr>"

definition zero_metrics :: cost_pod_metrics where
  "zero_metrics =
     \<lparr>mTimestamp = 0, mTimeUnit = [], mDimensionType = [], mDimension = [], mPodName = [],
      Request = zero_usage, Usage = zero_usage, Limit = zero_usage,
      PerCorePricing = Fin 0, CostRatio = Fin 0, Cost = Fin 0, CustomCost = Fin 0\<rparr>"

section \<open>Parameters\<close>

text \<open>\<open>params\<close> as the run visits the map of query parameters.\<close>

definition read_option :: "string \<times> string \<Rightarrow> cost_options \<Rightarrow> cost_options" where
  "read_option kv co =
     (case kv of (key, v) \<Rightarrow>
        if key = ''DimensionType'' then co\<lparr>DimensionType := v\<rparr>
        else if key = ''Dimension'' then co\<lparr>Dimension := v\<rparr>
        else if key = ''LabelSelector'' then co\<lparr>LabelSelector := v\<rparr>
        else if key = ''TimeUnit'' then co\<lparr>TimeUnit := v\<rparr>
        else if key = ''Summary'' then (if v = ''true'' then co\<lparr>Summary := True\<rparr> else co)
        else co)"

definition empty_options :: cost_options where
  "empty_options = \<lparr>Summary = False, DimensionType = [], Dimension = [], LabelSelector = [], TimeUnit = []\<rparr>"

text \<open>The namespace, the label selector and the label of the pod, with the options.\<close>

definition buildParams :: "(string \<times> string) list \<Rightarrow> cost_options \<Rightarrow> (string \<times> string \<times> string) \<times> cost_options" where
  "buildParams params co =
     (let co = fold read_option params co;
          namespace = (if DimensionType co = ''Namespace'' \<and> Dimension co \<noteq> [] then Dimension co else ''*'');
          podLabel = (if DimensionType co = ''Pod'' \<and> Dimension co \<noteq> [] then Dimension co else []);
          co = (if TimeUnit co = [] then co\<lparr>TimeUnit := ''hour''\<rparr> else co)
      in ((namespace, LabelSelector co, podLabel), co))"

text \<open>A failed \<open>labels.Parse\<close> gives no selector; of a selector only the text that the client sends matters.\<close>

definition parsed_text :: "requirement_sort \<Rightarrow> string \<Rightarrow> string option" where
  "parsed_text srt t = (case Parse srt t of Inl _ \<Rightarrow> None | Inr reqs \<Rightarrow> Some (selector_string reqs))"

definition buildLabelMatches :: "requirement_sort \<Rightarrow> string \<Rightarrow> string \<Rightarrow> string option" where
  "buildLabelMatches srt lbl podLabel =
     (if lbl = [] then parsed_text srt podLabel
      else let labelSelector = ''label_'' @ lbl in
        if podLabel = [] then parsed_text srt labelSelector else parsed_text srt (join '','' [labelSelector, podLabel]))"

section \<open>Collecting the metrics of pods\<close>

definition units :: "int \<Rightarrow> f64" where
  "units milli = fdiv (f64_of_int milli) (Fin 1000)"

definition kibi :: "int \<Rightarrow> f64" where
  "kibi milli = fdiv (units milli) (Fin 1024)"

definition period_cost :: "string \<Rightarrow> bool" where
  "period_cost n \<longleftrightarrow> n \<in> set [''cost_hour'', ''cost_day'', ''cost_week'', ''cost_month'']"

definition period_custom :: "string \<Rightarrow> bool" where
  "period_custom n \<longleftrightarrow> n \<in> set [''cost_custom_hour'', ''cost_custom_day'', ''cost_custom_week'', ''cost_custom_month'']"

text \<open>The switch on the metric's name; \<open>None\<close> when no case applies.\<close>

definition pod_write :: "int \<Rightarrow> string \<Rightarrow> int \<Rightarrow> (cost_pod_metrics \<Rightarrow> cost_pod_metrics) option" where
  "pod_write tot name milli =
     (if name = ''cost_memory_request'' then Some (\<lambda>m. m\<lparr>Request := (Request m)\<lparr>uMemory := kibi milli\<rparr>\<rparr>)
      else if name = ''cost_memory_limit'' then Some (\<lambda>m. m\<lparr>Limit := (Limit m)\<lparr>uMemory := kibi milli\<rparr>\<rparr>)
      else if name = ''cost_memory_usage'' then Some (\<lambda>m. m\<lparr>Usage := (Usage m)\<lparr>uMemory := kibi milli\<rparr>\<rparr>)
      else if name = ''cost_percorepricing'' then Some (\<lambda>m. m\<lparr>PerCorePricing := units milli\<rparr>)
      else if name = ''cost_cpu_request'' then Some (\<lambda>m. m\<lparr>Request := (Request m)\<lparr>uCPU := units milli\<rparr>\<rparr>)
      else if name = ''cost_cpu_limit'' then Some (\<lambda>m. m\<lparr>Limit := (Limit m)\<lparr>uMemory := units milli\<rparr>\<rparr>)
      else if name = ''cost_cpu_usage'' then Some (\<lambda>m. m\<lparr>Usage := (Usage m)\<lparr>uCPU := units milli\<rparr>\<rparr>)
      else if period_cost name then
        Some (\<lambda>m. m\<lparr>Cost := units milli, CostRatio := fdiv (f64_of_int milli) (f64_of_int tot)\<rparr>)
      else if period_custom name then Some (\<lambda>m. m\<lparr>CustomCost := units milli\<rparr>)
      else None)"

text \<open>A value without a pod label reads a nil record when its metric has a case.\<close>

definition pod_step ::
  "cost_options \<Rightarrow> int \<Rightarrow> external_value \<Rightarrow> (string, cost_pod_metrics) gomap \<Rightarrow> (string, cost_pod_metrics) gomap res" where
  "pod_step co tot v m =
     (let pod = (case MetricLabels v ''pod'' of None \<Rightarrow> [] | Some p \<Rightarrow> p);
          m = (if m pod = None \<and> pod \<noteq> []
               then m(pod \<mapsto> zero_metrics\<lparr>mPodName := pod, mTimeUnit := TimeUnit co, mDimensionType := DimensionType co,
                      mDimension := Dimension co, mTimestamp := Timestamp v\<rparr>)
               else m)
      in case pod_write tot (MetricName v) (MilliValue v) of
           None \<Rightarrow> Inr m
         | Some w \<Rightarrow> and_then (deref (m pod)) (\<lambda>x. Inr (m(pod \<mapsto> w x))))"

definition convertPodCostMap ::
  "cost_options \<Rightarrow> int \<Rightarrow> external_value list \<Rightarrow> (string, cost_pod_metrics) gomap \<Rightarrow> (string, cost_pod_metrics) gomap res" where
  "convertPodCostMap co tot = each (pod_step co tot)"

section \<open>Summing up\<close>

definition buildMetricSummary :: "external_value list \<Rightarrow> int" where
  "buildMetricSummary items = fold (\<lambda>v summaryValue. wrap64 (summaryValue + MilliValue v)) items 0"

definition summary_write :: "cost_options \<Rightarrow> int \<Rightarrow> int \<Rightarrow> string \<Rightarrow> int \<Rightarrow> cost_pod_metrics \<Rightarrow> cost_pod_metrics" where
  "summary_write co now tot name milli m =
     (case pod_write tot name milli of
        None \<Rightarrow> m
      | Some w \<Rightarrow>
          if period_cost name then
            (w m)\<lparr>mTimestamp := now, mTimeUnit := TimeUnit co, mDimensionType := DimensionType co, mDimension := Dimension co\<rparr>
          else w m)"

text \<open>The list of a metric, read through a pointer that is nil when the listing failed.\<close>

definition convertCostSummaryMap ::
  "cost_options \<Rightarrow> int \<Rightarrow> int \<Rightarrow> string \<Rightarrow> cost_pod_metrics \<Rightarrow> external_value list option \<Rightarrow> cost_pod_metrics res" where
  "convertCostSummaryMap co now tot name m answer =
     and_then (deref answer) (\<lambda>items. Inr (summary_write co now tot name (buildMetricSummary items) m))"

section \<open>Requests to the external metrics API\<close>

text \<open>
  \<open>List\<close> by namespace, metric and selector: nothing when it fails. The client is nil when it could not be made, and a
  nil selector is read when a request is made with it.
\<close>

type_synonym metrics_api = "(string \<Rightarrow> string \<Rightarrow> string \<Rightarrow> external_value list option) option"

definition list_metric :: "metrics_api \<Rightarrow> string \<Rightarrow> string option \<Rightarrow> string \<Rightarrow> external_value list option res" where
  "list_metric api namespace labelMatch name =
     and_then (deref api) (\<lambda>list. and_then (deref labelMatch) (\<lambda>sel. Inr (list namespace name sel)))"

definition DescribeCostSummary ::
  "metrics_api \<Rightarrow> int \<Rightarrow> cost_options \<Rightarrow> int \<Rightarrow> string \<Rightarrow> string option \<Rightarrow> string list \<Rightarrow> cost_pod_metrics list res" where
  "DescribeCostSummary api now co tot namespace labelMatch metricList =
     and_then (each (\<lambda>name m. and_then (list_metric api namespace labelMatch name) (\<lambda>answer.
        convertCostSummaryMap co now tot name m answer)) metricList zero_metrics) (\<lambda>m. Inr [m])"

text \<open>The state of the loop: the global total and the map of pods.\<close>

definition detail_step ::
  "metrics_api \<Rightarrow> cost_options \<Rightarrow> string \<Rightarrow> string option \<Rightarrow> string \<Rightarrow> int \<times> (string, cost_pod_metrics) gomap \<Rightarrow>
   (int \<times> (string, cost_pod_metrics) gomap) res" where
  "detail_step api co namespace labelMatch name st =
     and_then (list_metric api namespace labelMatch name) (\<lambda>answer.
     and_then (deref answer) (\<lambda>items.
       if name = ''cost_total_'' @ TimeUnit co then and_then (index items 0) (\<lambda>v. Inr (MilliValue v, snd st))
       else and_then (convertPodCostMap co (fst st) items (snd st)) (\<lambda>m. Inr (fst st, m))))"

definition DescribePodCostDetail ::
  "metrics_api \<Rightarrow> ((string, cost_pod_metrics) gomap \<Rightarrow> string list) \<Rightarrow> cost_options \<Rightarrow> int \<Rightarrow> string \<Rightarrow> string option \<Rightarrow> string list \<Rightarrow>
   (cost_pod_metrics list \<times> int) res" where
  "DescribePodCostDetail api order co tot namespace labelMatch metricList =
     and_then (each (detail_step api co namespace labelMatch) metricList (tot, Map.empty)) (\<lambda>(tot, m).
       Inr (map (\<lambda>k. the (m k)) (order m), tot))"

definition cost_metric_list :: "string \<Rightarrow> string list" where
  "cost_metric_list unit =
     [''cost_cpu_request'', ''cost_cpu_limit'', ''cost_memory_request'', ''cost_memory_limit'', ''cost_memory_usage'',
      ''cost_cpu_usage'', ''cost_percorepricing'', ''cost_total_'' @ unit, ''cost_'' @ unit, ''cost_custom_'' @ unit]"

text \<open>The answer with the global total after it.\<close>

definition getCostMetrics ::
  "requirement_sort \<Rightarrow> metrics_api \<Rightarrow> ((string, cost_pod_metrics) gomap \<Rightarrow> string list) \<Rightarrow> int \<Rightarrow> (string \<times> string) list \<Rightarrow> int \<Rightarrow>
   (cost_pod_metrics list \<times> int) res" where
  "getCostMetrics srt api order now params tot =
     (let ((namespace, labelSelector, podLabel), co) = buildParams params empty_options;
          labelMatch = buildLabelMatches srt labelSelector podLabel;
          metricList = cost_metric_list (TimeUnit co)
      in if Summary co
         then and_then (DescribeCostSummary api now co tot namespace labelMatch metricList) (\<lambda>ms. Inr (ms, tot))
         else DescribePodCostDetail api order co tot namespace labelMatch metricList)"

text \<open>
  The body: \<open>encoding/json\<close> writes the list unless a number is not finite, and then the handler, which ignores the error,
  answers with nothing.
\<close>

definition finite_metrics :: "cost_pod_metrics \<Rightarrow> bool" where
  "finite_metrics m \<longleftrightarrow>
     list_all (\<lambda>u. list_all is_fin [uCPU u, uMemory u, uGpu u, uGpuMem u]) [Request m, Usage m, Limit m] \<and>
     list_all is_fin [PerCorePricing m, CostRatio m, Cost m, CustomCost m]"

definition Handler ::
  "requirement_sort \<Rightarrow> metrics_api \<Rightarrow> ((string, cost_pod_metrics) gomap \<Rightarrow> string list) \<Rightarrow> int \<Rightarrow> (string \<times> string) list \<Rightarrow> int \<Rightarrow>
   (cost_pod_metrics list option \<times> int) res" where
  "Handler srt api order now params tot =
     and_then (getCostMetrics srt api order now params tot) (\<lambda>(ms, tot).
       Inr (if list_all finite_metrics ms then Some ms else None, tot))"

section \<open>What is collected for a pod\<close>

definition pod_label :: "external_value \<Rightarrow> string" where
  "pod_label v = (case MetricLabels v ''pod'' of None \<Rightarrow> [] | Some p \<Rightarrow> p)"

definition pod_header :: "cost_options \<Rightarrow> external_value \<Rightarrow> cost_pod_metrics" where
  "pod_header co v = zero_metrics\<lparr>mPodName := pod_label v, mTimeUnit := TimeUnit co, mDimensionType := DimensionType co,
     mDimension := Dimension co, mTimestamp := Timestamp v\<rparr>"

definition write_value :: "int \<Rightarrow> external_value \<Rightarrow> cost_pod_metrics \<Rightarrow> cost_pod_metrics" where
  "write_value tot v = (case pod_write tot (MetricName v) (MilliValue v) of None \<Rightarrow> (\<lambda>m. m) | Some w \<Rightarrow> w)"

definition lost_value :: "int \<Rightarrow> external_value \<Rightarrow> bool" where
  "lost_value tot v \<longleftrightarrow> pod_label v = [] \<and> pod_write tot (MetricName v) (MilliValue v) \<noteq> None"

text \<open>The record of a pod: the first value that names it heads the record, and each of its values is written in turn.\<close>

definition pod_record :: "cost_options \<Rightarrow> int \<Rightarrow> external_value list \<Rightarrow> cost_pod_metrics option \<Rightarrow> string \<Rightarrow> cost_pod_metrics option" where
  "pod_record co tot vs old pod =
     (case filter (\<lambda>v. pod_label v = pod) vs of
        [] \<Rightarrow> old
      | v # ws \<Rightarrow> Some (fold (write_value tot) (v # ws) (case old of None \<Rightarrow> pod_header co v | Some x \<Rightarrow> x)))"

lemma pod_step_eq:
  assumes "m [] = None"
  shows "pod_step co tot v m =
    (if lost_value tot v then Inl (Panic ''nil pointer dereference'')
     else if pod_label v = [] then Inr m
     else Inr (m(pod_label v \<mapsto> write_value tot v (case m (pod_label v) of None \<Rightarrow> pod_header co v | Some x \<Rightarrow> x))))"
proof -
  have "m(pod_label v \<mapsto> x) = m" if "m (pod_label v) = Some x" for x using that by auto
  then show ?thesis
    using assms
    by (cases "m (pod_label v)"; cases "pod_write tot (MetricName v) (MilliValue v)")
      (auto simp: pod_step_def lost_value_def write_value_def pod_label_def [symmetric] pod_header_def Let_def)
qed

lemma pod_record_Cons:
  "pod_record co tot (v # vs) old pod =
     (if pod_label v = pod
      then pod_record co tot vs (Some (write_value tot v (case old of None \<Rightarrow> pod_header co v | Some x \<Rightarrow> x))) pod
      else pod_record co tot vs old pod)"
  by (auto simp: pod_record_def split: list.split)

lemma convertPodCostMap_eq:
  "m [] = None \<Longrightarrow> convertPodCostMap co tot vs m =
    (if list_ex (lost_value tot) vs then Inl (Panic ''nil pointer dereference'')
     else Inr (\<lambda>pod. if pod = [] then None else pod_record co tot vs (m pod) pod))"
  unfolding convertPodCostMap_def
proof (induction vs arbitrary: m)
  case Nil
  then show ?case by (auto simp: pod_record_def)
next
  case (Cons v vs)
  show ?case
  proof (cases "lost_value tot v \<or> pod_label v = []")
    case True
    with Cons show ?thesis
      by (auto simp: pod_step_eq pod_record_Cons intro!: ext)
  next
    case False
    then have ne: "[] \<noteq> pod_label v" by auto
    define u where "u = m(pod_label v \<mapsto> write_value tot v (case m (pod_label v) of None \<Rightarrow> pod_header co v | Some x \<Rightarrow> x))"
    have "u [] = None" using ne Cons.prems by (simp add: u_def)
    note IH = Cons.IH [of u, OF this]
    have "pod_step co tot v m = Inr u" using False Cons.prems by (simp add: pod_step_eq u_def)
    moreover have "(if pod = [] then None else pod_record co tot vs (u pod) pod) =
        (if pod = [] then None else pod_record co tot (v # vs) (m pod) pod)" for pod
      by (auto simp: pod_record_Cons u_def)
    ultimately show ?thesis using IH False by simp
  qed
qed

text \<open>
  C29. Values are collected by pod: whatever way the values of several pods are interleaved, each pod named gets one record,
  headed by the first value that names it and written by all of its values in order; the collection
  panics exactly when a value of a known metric names no pod.
\<close>

theorem convertPodCostMap_by_pod:
  "convertPodCostMap co tot vs Map.empty =
    (if list_ex (lost_value tot) vs then Inl (Panic ''nil pointer dereference'')
     else Inr (\<lambda>pod. if pod = [] then None else pod_record co tot vs None pod))"
  by (simp add: convertPodCostMap_eq)

section \<open>The summary before any detail\<close>

lemma each_listed:
  assumes "\<And>name. name \<in> set names \<Longrightarrow> list namespace name sel \<noteq> None"
  shows "each (\<lambda>name m. and_then (list_metric (Some list) namespace (Some sel) name) (\<lambda>answer.
      convertCostSummaryMap co now tot name m answer)) names m =
    Inr (fold (\<lambda>name. summary_write co now tot name (buildMetricSummary (the (list namespace name sel)))) names m)"
proof (rule each_total)
  fix name m
  assume "name \<in> set names"
  then obtain items where "list namespace name sel = Some items" using assms by auto
  then show "and_then (list_metric (Some list) namespace (Some sel) name) (\<lambda>answer. convertCostSummaryMap co now tot name m answer) =
      Inr (summary_write co now tot name (buildMetricSummary (the (list namespace name sel))) m)"
    by (simp add: list_metric_def convertCostSummaryMap_def)
qed

lemma fdiv_zero: "\<not> is_fin (fdiv x (Fin 0))"
  by (cases x) (auto simp: fdiv_def is_zero_def Let_def)

definition costed_units :: "string list" where
  "costed_units = [''hour'', ''day'', ''week'', ''month'']"

lemma summary_ratio:
  assumes "unit \<in> set costed_units"
  shows "CostRatio (summary_write co now tot (''cost_custom_'' @ unit) n
    (summary_write co now tot (''cost_'' @ unit) k m)) = fdiv (f64_of_int k) (f64_of_int tot)"
  using assms by (auto simp: costed_units_def summary_write_def pod_write_def period_cost_def period_custom_def)

text \<open>
  A summary divides by the total cost that only detailed requests record: before the first of them, a summary by hour,
  day, week or month whose ten listings all succeed has a ratio that is not finite and is answered with nothing.
\<close>

theorem summary_before_detail:
  assumes "buildParams params empty_options = ((namespace, selector, podLabel), co)"
    and "Summary co" "TimeUnit co \<in> set costed_units"
    and "buildLabelMatches srt selector podLabel = Some sel"
    and "\<And>name. name \<in> set (cost_metric_list (TimeUnit co)) \<Longrightarrow> list namespace name sel \<noteq> None"
  shows "Handler srt (Some list) order now params 0 = Inr (None, 0)"
proof -
  let ?w = "\<lambda>name. summary_write co now 0 name (buildMetricSummary (the (list namespace name sel)))"
  let ?m = "fold ?w (cost_metric_list (TimeUnit co)) zero_metrics"
  have "DescribeCostSummary (Some list) now co 0 namespace (Some sel) (cost_metric_list (TimeUnit co)) = Inr [?m]"
    using each_listed [of "cost_metric_list (TimeUnit co)" list namespace sel co now 0 zero_metrics] assms(5)
    by (simp add: DescribeCostSummary_def)
  then have "getCostMetrics srt (Some list) order now params 0 = Inr ([?m], 0)"
    using assms(1,2,4) by (simp add: getCostMetrics_def)
  moreover have "CostRatio ?m = fdiv (f64_of_int (buildMetricSummary (the (list namespace (''cost_'' @ TimeUnit co) sel)))) (Fin 0)"
    using summary_ratio [OF assms(3)] by (simp add: cost_metric_list_def f64_of_int_exact)
  then have "\<not> finite_metrics ?m" using fdiv_zero by (simp add: finite_metrics_def)
  ultimately show ?thesis by (simp add: Handler_def)
qed

theorem summary_before_detail_witness:
  "Handler new_selector (Some (\<lambda>_ name _. Some [\<lparr>MetricName = name, MetricLabels = Map.empty, Timestamp = 0, MilliValue = 5000\<rparr>]))
     (\<lambda>_. []) 0 [(''Summary'', ''true''), (''TimeUnit'', ''day'')] 0 = Inr (None, 0)"
  by (rule summary_before_detail [where namespace = "''*''" and selector = "[]" and podLabel = "[]" and sel = "[]" and
        co = "empty_options\<lparr>Summary := True, TimeUnit := ''day''\<rparr>"])
    (simp_all add: buildParams_def read_option_def empty_options_def costed_units_def buildLabelMatches_def parsed_text_def Parse_Nil new_selector_sorts
      selector_string_def)

section \<open>Costs and their ratios\<close>

text \<open>\<open>at_cost tot m\<close>: the record has no cost yet, or a cost with its ratio to \<open>tot\<close>.\<close>

definition at_cost :: "int \<Rightarrow> cost_pod_metrics \<Rightarrow> bool" where
  "at_cost tot m \<longleftrightarrow> Cost m = Fin 0 \<and> CostRatio m = Fin 0 \<or>
     (\<exists>c. Cost m = units c \<and> CostRatio m = fdiv (f64_of_int c) (f64_of_int tot))"

definition no_cost :: "cost_pod_metrics \<Rightarrow> bool" where
  "no_cost m \<longleftrightarrow> Cost m = Fin 0 \<and> CostRatio m = Fin 0"

definition each_pod :: "(cost_pod_metrics \<Rightarrow> bool) \<Rightarrow> (string, cost_pod_metrics) gomap \<Rightarrow> bool" where
  "each_pod P m \<longleftrightarrow> (\<forall>x \<in> ran m. P x)"

lemma pod_header_no_cost: "no_cost (pod_header co v)"
  by (simp add: no_cost_def pod_header_def zero_metrics_def)

lemma pod_header_at_cost: "at_cost tot (pod_header co v)"
  using pod_header_no_cost by (simp add: no_cost_def at_cost_def)

lemma write_no_cost: "\<not> period_cost (MetricName v) \<Longrightarrow> no_cost m \<Longrightarrow> no_cost (write_value tot v m)"
  by (simp add: no_cost_def write_value_def pod_write_def)

lemma write_cost: "at_cost tot m \<Longrightarrow> at_cost tot (write_value tot v m)"
  by (auto simp: at_cost_def write_value_def pod_write_def)

text \<open>A list of values keeps what each write keeps of a record and each header has.\<close>

lemma convertPodCostMap_keeps:
  assumes "convertPodCostMap co tot vs m = Inr m'" "each_pod P m"
    and "\<And>v. v \<in> set vs \<Longrightarrow> P (pod_header co v)" "\<And>v x. v \<in> set vs \<Longrightarrow> P x \<Longrightarrow> P (write_value tot v x)"
  shows "each_pod P m'"
  using assms unfolding convertPodCostMap_def
proof (induction vs arbitrary: m)
  case (Cons v vs)
  then obtain m1 where m1: "pod_step co tot v m = Inr m1" "each (pod_step co tot) vs m1 = Inr m'"
    by (auto simp: and_then_eq_Inr)
  have h: "P (pod_header co v)" "\<And>x. P x \<Longrightarrow> P (write_value tot v x)" using Cons.prems(3,4) by auto
  have P: "\<And>k x. m k = Some x \<Longrightarrow> P x" using Cons.prems(2) by (auto simp: each_pod_def ran_def)
  have "each_pod P m1" unfolding each_pod_def
  proof
    fix x
    assume "x \<in> ran m1"
    then obtain k where k: "m1 k = Some x" by (auto simp: ran_def)
    show "P x" using m1(1) k P h
      by (cases "pod_write tot (MetricName v) (MilliValue v)")
        (auto simp: pod_step_def Let_def and_then_eq_Inr deref_def write_value_def pod_header_def pod_label_def
          split: if_splits option.splits)
  qed
  with Cons m1(2) show ?case by simp
qed simp

lemma detail_step_other:
  assumes "name \<noteq> ''cost_total_'' @ TimeUnit co" "detail_step (Some list) co namespace (Some sel) name (t, m) = Inr st"
  shows "\<exists>items m1. list namespace name sel = Some items \<and> convertPodCostMap co t items m = Inr m1 \<and> st = (t, m1)"
  using assms by (cases "list namespace name sel") (auto simp: detail_step_def list_metric_def and_then_eq_Inr)

text \<open>Metrics other than the total keep it, and what each of their writes keeps of a record.\<close>

lemma detail_keeps:
  assumes "each (detail_step (Some list) co namespace (Some sel)) names (t, m) = Inr (t', m')"
    and "''cost_total_'' @ TimeUnit co \<notin> set names" "each_pod P m"
    and named: "\<And>name items. list namespace name sel = Some items \<Longrightarrow> list_all (carries name) items"
    and header: "\<And>v. P (pod_header co v)"
    and writes: "\<And>v x. MetricName v \<in> set names \<Longrightarrow> P x \<Longrightarrow> P (write_value t v x)"
  shows "t' = t \<and> each_pod P m'"
  using assms(1-3) writes
proof (induction names arbitrary: m)
  case (Cons name names)
  from Cons.prems(1) obtain st1 where st1: "detail_step (Some list) co namespace (Some sel) name (t, m) = Inr st1"
    and each1: "each (detail_step (Some list) co namespace (Some sel)) names st1 = Inr (t', m')"
    unfolding each.simps and_then_eq_Inr by blast
  have "name \<noteq> ''cost_total_'' @ TimeUnit co" using Cons.prems(2) by auto
  from detail_step_other [OF this st1] obtain items m1
    where items: "list namespace name sel = Some items" "convertPodCostMap co t items m = Inr m1"
    and rest: "each (detail_step (Some list) co namespace (Some sel)) names (t, m1) = Inr (t', m')"
    using each1 by auto
  have n: "\<And>v. v \<in> set items \<Longrightarrow> MetricName v = name" using named [OF items(1)] by (auto simp: list_all_iff carries_def)
  have "each_pod P m1"
    using items(2) Cons.prems(3) header by (rule convertPodCostMap_keeps) (simp add: Cons.prems(4) n)
  then show ?case using Cons.IH [OF rest] Cons.prems(2,4) by simp
qed simp

lemma detail_total:
  assumes "detail_step (Some list) co namespace (Some sel) (''cost_total_'' @ TimeUnit co) (t, m) = Inr st"
  shows "\<exists>v vs. list namespace (''cost_total_'' @ TimeUnit co) sel = Some (v # vs) \<and> st = (MilliValue v, m)"
  using assms
  by (auto simp: detail_step_def and_then_eq_Inr list_metric_def deref_def index_def neq_Nil_conv split: option.splits if_splits)

definition usage_metrics :: "string list" where
  "usage_metrics = [''cost_cpu_request'', ''cost_cpu_limit'', ''cost_memory_request'', ''cost_memory_limit'', ''cost_memory_usage'',
     ''cost_cpu_usage'', ''cost_percorepricing'']"

lemma each_middle:
  "each f (xs @ y # zs) s = Inr s' \<Longrightarrow> \<exists>s1 s2. each f xs s = Inr s1 \<and> f y s1 = Inr s2 \<and> each f zs s2 = Inr s'"
  by (auto simp: each_append and_then_eq_Inr)

lemma cost_metric_parts:
  "cost_metric_list u = usage_metrics @ (''cost_total_'' @ u) # [''cost_'' @ u, ''cost_custom_'' @ u]"
  by (simp add: cost_metric_list_def usage_metrics_def)

lemma unit_names:
  assumes "u \<in> set costed_units"
  shows "''cost_total_'' @ u \<notin> set usage_metrics" "''cost_total_'' @ u \<notin> set [''cost_'' @ u, ''cost_custom_'' @ u]"
    "n \<in> set usage_metrics \<Longrightarrow> \<not> period_cost n"
  using assms by (auto simp: costed_units_def usage_metrics_def period_cost_def)

lemma detail_costs:
  assumes "each (detail_step (Some list) co namespace (Some sel)) (cost_metric_list (TimeUnit co)) (tot, Map.empty) = Inr (tot', m)"
    and "TimeUnit co \<in> set costed_units"
    and named: "\<And>name items. list namespace name sel = Some items \<Longrightarrow> list_all (carries name) items"
  shows "\<exists>v vs. list namespace (''cost_total_'' @ TimeUnit co) sel = Some (v # vs) \<and> tot' = MilliValue v \<and> each_pod (at_cost tot') m"
proof -
  let ?step = "detail_step (Some list) co namespace (Some sel)" and ?total = "''cost_total_'' @ TimeUnit co"
  obtain t1 m1 st2 where pre: "each ?step usage_metrics (tot, Map.empty) = Inr (t1, m1)"
    and mid: "?step ?total (t1, m1) = Inr st2"
    and post: "each ?step [''cost_'' @ TimeUnit co, ''cost_custom_'' @ TimeUnit co] st2 = Inr (tot', m)"
    using each_middle [OF assms(1) [unfolded cost_metric_parts]] by fast
  have "t1 = tot \<and> each_pod no_cost m1"
    using pre unit_names(1) [OF assms(2)]
    by (rule detail_keeps) (simp_all add: each_pod_def named pod_header_no_cost write_no_cost unit_names(3) [OF assms(2)])
  then have m1: "each_pod (at_cost t) m1" for t by (auto simp: each_pod_def no_cost_def at_cost_def)
  obtain v vs where v: "list namespace ?total sel = Some (v # vs)" "st2 = (MilliValue v, m1)" using detail_total [OF mid] by blast
  have "tot' = MilliValue v \<and> each_pod (at_cost (MilliValue v)) m"
    using post [unfolded v(2)] unit_names(2) [OF assms(2)] m1 named
    by (rule detail_keeps) (simp_all add: pod_header_at_cost write_cost)
  with v(1) show ?thesis by blast
qed

text \<open>
  C39. What an answered request for details reports as a pod's cost and share: every record has a cost with its ratio to the total
  of this very request, the first value of the period's total, or neither; the total that an earlier request left is not used,
  and the new one is kept for the summaries to come. A request that gets no total is never answered.
\<close>

theorem detail_ratios:
  assumes "buildParams params empty_options = ((namespace, selector, podLabel), co)"
    and "\<not> Summary co" "TimeUnit co \<in> set costed_units"
    and "buildLabelMatches srt selector podLabel = Some sel"
    and "\<And>name items. list namespace name sel = Some items \<Longrightarrow> list_all (carries name) items"
    and "\<And>m k. k \<in> set (order m) \<Longrightarrow> m k \<noteq> None"
    and "Handler srt (Some list) order now params tot = Inr (answer, tot')"
  shows "\<exists>v vs. list namespace (''cost_total_'' @ TimeUnit co) sel = Some (v # vs) \<and> tot' = MilliValue v \<and>
    (case answer of None \<Rightarrow> True | Some ms \<Rightarrow> list_all (at_cost tot') ms)"
proof -
  obtain m where m: "each (detail_step (Some list) co namespace (Some sel)) (cost_metric_list (TimeUnit co)) (tot, Map.empty) = Inr (tot', m)"
    and a: "answer = None \<or> answer = Some (map (\<lambda>k. the (m k)) (order m))"
    using assms(1,2,4,7)
    by (auto simp: Handler_def getCostMetrics_def DescribePodCostDetail_def and_then_eq_Inr Let_def split: if_splits)
  obtain v vs where v: "list namespace (''cost_total_'' @ TimeUnit co) sel = Some (v # vs)" "tot' = MilliValue v"
    and pods: "each_pod (at_cost tot') m"
    using detail_costs [OF m assms(3,5)] by blast
  have "at_cost tot' (the (m k))" if "k \<in> set (order m)" for k
    using assms(6) [OF that] pods by (auto simp: each_pod_def ran_def)
  then have "list_all (at_cost tot') (map (\<lambda>k. the (m k)) (order m))" by (auto simp: list_all_iff)
  with a v show ?thesis by (auto split: option.split)
qed

definition demo_costs :: "string \<Rightarrow> string \<Rightarrow> string \<Rightarrow> external_value list option" where
  "demo_costs namespace name sel =
     Some [\<lparr>MetricName = name, MetricLabels = [''pod'' \<mapsto> ''web''], Timestamp = 0,
        MilliValue = (if name = ''cost_total_hour'' then 8000 else 2000)\<rparr>]"

definition demo_order :: "(string, cost_pod_metrics) gomap \<Rightarrow> string list" where
  "demo_order m = (if m ''web'' = None then [] else [''web''])"

theorem detail_ratios_witness:
  "\<exists>ms. Handler new_selector (Some demo_costs) demo_order 0 [] 5 = Inr (Some ms, 8000) \<and>
     list_all (at_cost 8000) ms \<and> ms \<noteq> []"
proof -
  have p: "buildParams [] empty_options = ((''*'', [], []), empty_options\<lparr>TimeUnit := ''hour''\<rparr>)"
    by (simp add: buildParams_def empty_options_def)
  have sel: "buildLabelMatches new_selector [] [] = Some []"
    by (simp add: buildLabelMatches_def parsed_text_def Parse_Nil new_selector_sorts selector_string_def)
  have "case Handler new_selector (Some demo_costs) demo_order 0 [] 5 of
      Inl _ \<Rightarrow> False | Inr (a, t) \<Rightarrow> a \<noteq> None \<and> a \<noteq> Some []"
    by code_simp
  then obtain ms t where h: "Handler new_selector (Some demo_costs) demo_order 0 [] 5 = Inr (Some ms, t)" "ms \<noteq> []"
    by (auto split: sum.splits)
  let ?co = "empty_options\<lparr>TimeUnit := ''hour''\<rparr>"
  have "\<exists>v vs. demo_costs ''*'' (''cost_total_'' @ TimeUnit ?co) [] = Some (v # vs) \<and> t = MilliValue v \<and>
      (case Some ms of None \<Rightarrow> True | Some ms \<Rightarrow> list_all (at_cost t) ms)"
  proof (rule detail_ratios [OF p _ _ sel _ _ h(1)])
    show "m k \<noteq> None" if "k \<in> set (demo_order m)" for m k using that by (simp add: demo_order_def split: if_splits)
    show "list_all (carries name) items" if "demo_costs ''*'' name [] = Some items" for name items
      using that by (auto simp: demo_costs_def carries_def)
  qed (simp_all add: empty_options_def costed_units_def)
  then have "\<exists>v vs. demo_costs ''*'' ''cost_total_hour'' [] = Some (v # vs) \<and> t = MilliValue v \<and> list_all (at_cost t) ms" by simp
  with h show ?thesis by (auto simp: demo_costs_def)
qed

section \<open>The order of the query parameters\<close>

interpretation cost_options: commuting_body "\<lambda>k. read_option (k, the (params k))" for params :: "(string, string) gomap"
  by unfold_locales (auto simp: read_option_def)

text \<open>
  What a request asks for does not depend on the order in which the handler visits the query parameters.
\<close>

theorem buildParams_deterministic:
  assumes "iter_order ks params" "iter_order ls params"
  shows "buildParams (map (\<lambda>k. (k, the (params k))) ks) co = buildParams (map (\<lambda>k. (k, the (params k))) ls) co"
proof -
  have "fold read_option (map (\<lambda>k. (k, the (params k))) ks) co = fold (\<lambda>k. read_option (k, the (params k))) ks co" for ks
    by (simp add: fold_map comp_def)
  with cost_options.iteration_deterministic [OF assms] show ?thesis by (simp add: buildParams_def)
qed

theorem buildParams_deterministic_witness:
  "buildParams [(''Dimension'', ''a''), (''DimensionType'', ''Pod'')] empty_options =
   buildParams [(''DimensionType'', ''Pod''), (''Dimension'', ''a'')] empty_options"
proof -
  let ?params = "[''Dimension'' \<mapsto> ''a'', ''DimensionType'' \<mapsto> ''Pod'']"
  have "iter_order [''Dimension'', ''DimensionType''] ?params" "iter_order [''DimensionType'', ''Dimension''] ?params"
    by (auto simp: iter_order_def)
  from buildParams_deterministic [OF this, of empty_options] show ?thesis by simp
qed

end
