(* ===== verification/Legacy_Cost_Loop.thy ===== *)
theory Legacy_Cost_Loop
  imports Legacy_Cost_Http Metrics_API
begin

text \<open>
  The way of a request of the first cost API through the whole program: the HTTP handler (\<open>cost_http.go\<close>) lists ten metrics
  of the external metrics API, which come back to the adapter's own cost source (\<open>cost.go\<close>), and that asks Prometheus.
  A label or a pod that is asked for without a value makes the source panic, and then the handler.
\<close>

section \<open>The handler on the adapter's own metrics\<close>

definition cost_api :: "requirement_sort \<Rightarrow> (manager \<Rightarrow> string list) \<Rightarrow> (string \<Rightarrow> prom_result or_error) \<Rightarrow> provider_manager \<Rightarrow> metrics_api" where
  "cost_api srt keys prom pm =
     Some (\<lambda>namespace metricName selector.
       case api_list srt keys prom pm namespace metricName selector of Inl _ \<Rightarrow> None | Inr vs \<Rightarrow> Some vs)"

text \<open>The text from which the selector is made.\<close>

definition label_match_text :: "string \<Rightarrow> string \<Rightarrow> string" where
  "label_match_text lbl podLabel =
     (if lbl = [] then podLabel
      else if podLabel = [] then ''label_'' @ lbl else join '','' [''label_'' @ lbl, podLabel])"

lemma buildLabelMatches_text: "buildLabelMatches srt lbl podLabel = parsed_text srt (label_match_text lbl podLabel)"
  by (simp add: buildLabelMatches_def label_match_text_def Let_def)

lemma parsed_text_Inr: "Parse srt t = Inr reqs \<Longrightarrow> parsed_text srt t = Some (selector_string reqs)"
  by (simp add: parsed_text_def)

definition has_values :: "requirement list \<Rightarrow> bool" where
  "has_values reqs \<longleftrightarrow> list_all (\<lambda>r. rvalues r \<noteq> []) reqs"

lemma first_of_set: "xs \<noteq> [] \<Longrightarrow> \<exists>v. index (sort (remdups xs)) 0 = Inr (v :: string)"
  by (simp add: index_def sort_Nil_iff)

lemma collect_labels_total: "has_values reqs \<Longrightarrow> \<exists>m. each collect_label reqs m0 = Inr m"
proof (induction reqs arbitrary: m0)
  case (Cons r reqs)
  then obtain v where "index (sort (remdups (rvalues r))) 0 = Inr v" using first_of_set [of "rvalues r"] by (auto simp: has_values_def)
  then have "\<exists>m1. collect_label r m0 = Inr m1" by (simp add: collect_label_def)
  with Cons show ?case by (auto simp: has_values_def)
qed simp

lemma buildPodLabel_total: "has_values reqs \<Longrightarrow> \<exists>labels. buildPodLabel order reqs = Inr labels"
  using collect_labels_total [of reqs Map.empty] by (auto simp: buildPodLabel_def)

lemma collect_labels_panic: "\<not> has_values reqs \<Longrightarrow> each collect_label reqs m0 = Inl (Panic ''index out of range'')"
proof (induction reqs arbitrary: m0)
  case (Cons r reqs)
  show ?case
  proof (cases "rvalues r = []")
    case True
    then show ?thesis by (simp add: collect_label_def)
  next
    case False
    then obtain v where "index (sort (remdups (rvalues r))) 0 = Inr v" using first_of_set by blast
    then have "\<exists>m1. collect_label r m0 = Inr m1" by (simp add: collect_label_def)
    with Cons False show ?thesis by (auto simp: has_values_def)
  qed
qed (simp add: has_values_def)

lemma buildPodLabel_panic: "\<not> has_values reqs \<Longrightarrow> buildPodLabel order reqs = Inl (Panic ''index out of range'')"
  using collect_labels_panic [of reqs Map.empty] by (auto simp: buildPodLabel_def has_values_def)

lemma cost_source_panic:
  "\<not> has_values reqs \<Longrightarrow> GetExternalMetric_cost order prom metric namespace reqs = Inl (Panic ''index out of range'')"
  by (simp add: GetExternalMetric_cost_def buildExternalQuery_cost_def buildPodLabel_panic)

section \<open>The metrics that are listed\<close>

lemma listed_names:
  "list_all (\<lambda>u. list_all (\<lambda>m. m \<in> set GetExternalMetricInfoList_cost \<and> (m \<in> set scoped_metrics \<or> m \<in> set total_metrics))
     (cost_metric_list u)) costed_units"
  by code_simp

lemma first_listed: "''cost_cpu_request'' \<in> set GetExternalMetricInfoList_cost"
  by code_simp

lemma cost_list:
  assumes "alibabaCloudProvider pm = externalMetricsManager w" "set (keys (externalMetricsManager w)) = dom (externalMetricsManager w)"
    and "MakePromClient (hostLibraries w) (GlobalConfig w) = Inr conn" "sorts_by_key srt" "Parse srt t = Inr reqs"
    and "metric \<in> set GetExternalMetricInfoList_cost"
  shows "api_list srt keys prom pm namespace metric (selector_string reqs) =
    client_answer (GetExternalMetric_cost (labelOrder w) (Inr (instantQuery w conn)) metric namespace (srt reqs))"
proof -
  have "api_list srt keys prom pm namespace metric (selector_string reqs) =
      client_answer (GetExternalMetric (COSTMetricSource w) metric namespace (srt reqs))"
    by (rule api_list_own [where keys = keys, OF assms(1,2) _ _ assms(4,5)]) (simp_all add: registered_def COSTMetricSource_def assms(6))
  then show ?thesis by (simp add: COSTMetricSource_def assms(3))
qed

text \<open>What the handler gets for a query: the samples of a vector, otherwise nothing.\<close>

definition vector_values :: "string \<Rightarrow> prom_result res \<Rightarrow> external_value list option" where
  "vector_values metric answer =
     (case answer of
        Inr (VectorOf (Some xs)) \<Rightarrow> Some (map (convertSample metric) xs)
      | _ \<Rightarrow> None)"

lemma answered_values:
  "(case client_answer (getCOSTMetrics (Inr run) metric q) of Inl _ \<Rightarrow> None | Inr vs \<Rightarrow> Some vs) = vector_values metric (run q)"
  by (auto simp: getCOSTMetrics_def convertVector_cost_def each_append_items vector_values_def
      split: sum.split error.split prom_result.split option.split)

text \<open>The query of a metric: its template with the labels in it, or a total without labels.\<close>

definition labelled :: "string \<Rightarrow> string \<Rightarrow> string \<Rightarrow> bool" where
  "labelled metric l q \<longleftrightarrow>
     (if metric \<in> set total_metrics then q = getPrometheusSql metric
      else \<exists>a b. getPrometheusSql metric = a @ ''kube_pod_labels{%s}'' @ b \<and> q = a @ ''kube_pod_labels{'' @ l @ ''}'' @ b)"

lemma detail_panics:
  assumes "list namespace ''cost_cpu_request'' sel = None"
  shows "DescribePodCostDetail (Some list) order co tot namespace (Some sel) (cost_metric_list u) =
    Inl (Panic ''nil pointer dereference'')"
    "DescribeCostSummary (Some list) now co tot namespace (Some sel) (cost_metric_list u) = Inl (Panic ''nil pointer dereference'')"
  using assms
  by (simp_all add: DescribePodCostDetail_def DescribeCostSummary_def cost_metric_list_def detail_step_def list_metric_def
      convertCostSummaryMap_def)

section \<open>Properties\<close>

text \<open>
  C28. What a request of the first cost API comes to, at any time after the start. If every label it asks for has a value, then for each of
  the ten metrics that the handler lists it gets exactly the samples that Prometheus returns for that metric's query with
  the request's labels and namespace in its selector (the total has none); the labels are those of the requirements that the API server
  parses from the printed selector, the same ones up to the order of equal keys. But if a label or a pod is asked for by a bare name, or as absent,
  the source indexes the first of no values, the API answers with an error, and the handler panics on the nil list:
  a request for one pod by its name is never answered.
\<close>

theorem legacy_request_reaches_prometheus:
  assumes "NewProviderManager ekeys su w = Inr (namers, conn, st)" "serves ekeys ckeys namers st st'"
    and "set (keys (externalMetricsManager w)) = dom (externalMetricsManager w)"
    and "buildParams params empty_options = ((namespace, lbl, podLabel), co)"
    and "sorts_by_key srt" "Parse srt (label_match_text lbl podLabel) = Inr reqs" "TimeUnit co \<in> set costed_units"
  shows "\<exists>reqs'. Parse srt (selector_string reqs) = Inr reqs' \<and> mset reqs' = mset reqs \<and>
    (if has_values reqs
     then \<exists>labels. buildPodLabel (labelOrder w) reqs' = Inr labels \<and>
       list_all (\<lambda>metric. \<exists>q. labelled metric (cost_labels labels namespace) q \<and>
         list_metric (cost_api srt keys prom (providers st')) namespace (buildLabelMatches srt lbl podLabel) metric =
           Inr (vector_values metric (instantQuery w conn q))) (cost_metric_list (TimeUnit co))
     else Handler srt (cost_api srt keys prom (providers st')) order now params tot = Inl (Panic ''nil pointer dereference''))"
proof (intro exI conjI)
  have pm: "alibabaCloudProvider (providers st') = externalMetricsManager w"
    using assms(1) serves_manager [OF assms(2)] by (metis NewProviderManager_Inr)
  have conn: "MakePromClient (hostLibraries w) (GlobalConfig w) = Inr conn" using assms(1) by (rule NewProviderManager_Inr)
  note list = cost_list [where keys = keys, OF pm assms(3) conn assms(5,6)]
  have sel: "buildLabelMatches srt lbl podLabel = Some (selector_string reqs)"
    using parsed_text_Inr [OF assms(6)] by (simp add: buildLabelMatches_text)
  show "Parse srt (selector_string reqs) = Inr (srt reqs)" "mset (srt reqs) = mset reqs"
    using Parse_again(1,2) [OF assms(5,6)] .
  have hv: "has_values (srt reqs) \<longleftrightarrow> has_values reqs"
    using sorts_by_keyD(2) [OF assms(5), of reqs] by (simp add: has_values_def list_all_iff)
  show "if has_values reqs
     then \<exists>labels. buildPodLabel (labelOrder w) (srt reqs) = Inr labels \<and>
       list_all (\<lambda>metric. \<exists>q. labelled metric (cost_labels labels namespace) q \<and>
         list_metric (cost_api srt keys prom (providers st')) namespace (buildLabelMatches srt lbl podLabel) metric =
           Inr (vector_values metric (instantQuery w conn q))) (cost_metric_list (TimeUnit co))
     else Handler srt (cost_api srt keys prom (providers st')) order now params tot = Inl (Panic ''nil pointer dereference'')"
  proof (cases "has_values reqs")
    case True
    then obtain labels where labels: "buildPodLabel (labelOrder w) (srt reqs) = Inr labels" using buildPodLabel_total hv by blast
    have "\<exists>q. labelled metric (cost_labels labels namespace) q \<and>
        list_metric (cost_api srt keys prom (providers st')) namespace (Some (selector_string reqs)) metric =
          Inr (vector_values metric (instantQuery w conn q))"
      if "metric \<in> set (cost_metric_list (TimeUnit co))" for metric
    proof -
      have m: "metric \<in> set GetExternalMetricInfoList_cost" "metric \<in> set scoped_metrics \<or> metric \<in> set total_metrics"
        using listed_names that assms(7) unfolding list_all_iff by auto
      have "metric \<in> set scoped_metrics \<Longrightarrow> metric \<notin> set total_metrics" by (simp add: scoped_metrics_def)
      then obtain q where "labelled metric (cost_labels labels namespace) q"
        "GetExternalMetric_cost (labelOrder w) (Inr (instantQuery w conn)) metric namespace (srt reqs) =
          getCOSTMetrics (Inr (instantQuery w conn)) metric q"
        using cost_query_scoped [OF labels, of metric "Inr (instantQuery w conn)" namespace] m(2)
        by (auto simp: labelled_def split: if_splits)
      then show ?thesis
        using list [OF m(1), of prom namespace] answered_values [of "instantQuery w conn" metric q]
        by (auto simp: list_metric_def cost_api_def)
    qed
    with True labels show ?thesis by (simp add: list_all_iff sel)
  next
    case False
    then have "\<not> has_values (srt reqs)" by (simp add: hv)
    then obtain f where f: "cost_api srt keys prom (providers st') = Some f" "f namespace ''cost_cpu_request'' (selector_string reqs) = None"
      using list [OF first_listed, of prom namespace] by (simp add: cost_api_def cost_source_panic)
    then have "Handler srt (cost_api srt keys prom (providers st')) order now params tot = Inl (Panic ''nil pointer dereference'')"
      using assms(4) by (simp add: Handler_def getCostMetrics_def sel Let_def detail_panics [where list = f, OF f(2)])
    with False show ?thesis by simp
  qed
qed

theorem legacy_request_reaches_prometheus_witness:
  "\<exists>conn st. NewProviderManager (\<lambda>_. []) demo_startup demo_surroundings = Inr ([demo_namer ''a''], conn, st) \<and>
     Handler new_selector (cost_api new_selector (\<lambda>_. all_names) (\<lambda>_. Inl ''none'') (providers st)) (\<lambda>_. []) 0
       [(''DimensionType'', ''Pod''), (''Dimension'', ''web'')] 0 = Inl (Panic ''nil pointer dereference'') \<and>
     (\<exists>labels. buildPodLabel (labelOrder demo_surroundings) [\<lparr>rkey = ''label_app'', roperator = Equals, rvalues = [''web'']\<rparr>] = Inr labels)"
proof -
  let ?p = "[(''DimensionType'', ''Pod''), (''Dimension'', ''web'')]" and ?l = "[(''LabelSelector'', ''app=web'')]"
  let ?keys = "\<lambda>_ :: manager. all_names"
  obtain conn st where st: "NewProviderManager (\<lambda>_. []) demo_startup demo_surroundings = Inr ([demo_namer ''a''], conn, st)"
    using demo_start by blast
  have keys: "set (?keys (externalMetricsManager demo_surroundings)) = dom (externalMetricsManager demo_surroundings)"
    by (simp add: manager_dom_eq)
  have p: "\<exists>co. buildParams ?p empty_options = ((''*'', [], ''web''), co) \<and> TimeUnit co = ''hour''"
    "\<exists>co. buildParams ?l empty_options = ((''*'', ''app=web'', []), co) \<and> TimeUnit co = ''hour''"
    by (simp_all add: buildParams_def read_option_def empty_options_def)
  have t: "Parse new_selector (label_match_text [] ''web'') = Inr [\<lparr>rkey = ''web'', roperator = Exists, rvalues = []\<rparr>]"
    "Parse new_selector (label_match_text ''app=web'' []) = Inr [\<lparr>rkey = ''label_app'', roperator = Equals, rvalues = [''web'']\<rparr>]"
    by code_simp+
  have u: "''hour'' \<in> set costed_units" by (simp add: costed_units_def)
  obtain co where co: "buildParams ?p empty_options = ((''*'', [], ''web''), co)" "TimeUnit co \<in> set costed_units" using p(1) u by auto
  obtain co' where co': "buildParams ?l empty_options = ((''*'', ''app=web'', []), co')" "TimeUnit co' \<in> set costed_units"
    using p(2) u by auto
  have "Handler new_selector (cost_api new_selector ?keys (\<lambda>_. Inl ''none'') (providers st)) (\<lambda>_. []) 0 ?p 0 = Inl (Panic ''nil pointer dereference'')"
    using legacy_request_reaches_prometheus [where keys = ?keys, OF st serves.started keys co(1) new_selector_sorts t(1) co(2)] by (simp add: has_values_def)
  moreover have "\<exists>labels. buildPodLabel (labelOrder demo_surroundings)
      [\<lparr>rkey = ''label_app'', roperator = Equals, rvalues = [''web'']\<rparr>] = Inr labels"
    using legacy_request_reaches_prometheus [where keys = ?keys, OF st serves.started keys co'(1) new_selector_sorts t(2) co'(2)]
    by (auto simp: has_values_def)
  ultimately show ?thesis using st by blast
qed

end
