(* ===== verification/Adapter_Program.thy ===== *)
theory Adapter_Program
  imports Cost_Handlers Cost_Loop Legacy_Cost_Loop
begin

text \<open>
  The program as a whole (\<open>main.go\<close>): the start, the HTTP server with its four endpoints, and the running
  process, in which listings of the Prometheus providers and HTTP requests follow one another in any order. The lemmas
  say what the process keeps and what its registries hold after any listings and requests, how a request can end, and what ends the process.
\<close>

section \<open>The start\<close>

text \<open>The package variable \<open>CostTotal\<close> of the first cost API belongs to the state of the process.\<close>

record program =
  running :: runtime
  CostTotal :: int

definition main ::
  "((string, series_info) gomap \<Rightarrow> string list) \<Rightarrow> ('cfg adapter_options \<Rightarrow> 'cfg adapter_options res) \<Rightarrow> 'cfg \<Rightarrow>
   ('mapper, 'dynamic, 'cfg) startup \<Rightarrow> ('pool, 'conf, 'auth, 'cfg) surroundings \<Rightarrow>
   (metric_namer list \<times> ('pool, 'auth) connection \<times> program) res" where
  "main ekeys parse_flags cfg s w =
     and_then (fatal ''unable to parse flags: '' (parse_flags (AddFlags (NewAlibabaMetricsAdapterOptions cfg)))) (\<lambda>opts.
     and_then (fatal ''Failed to init alibaba-cloud-metrics-adapter,because of ''
         (NewProviderManager ekeys s (w\<lparr>GlobalConfig := opts\<rparr>))) (\<lambda>(namers, conn, st).
       Inr (namers, conn, \<lparr>running = st, CostTotal = 0\<rparr>)))"

section \<open>HTTP requests\<close>

text \<open>
  What a request meets: whether the three steps of making clients succeed, the run of a handler and the cluster apart
  from the external metrics API, the order of the query parameters and of the other maps, the library's sort of a parsed
  selector, the time, and the queries of the Prometheus provider.
\<close>

record circumstances =
  clientConfig :: "unit res"
  externalFor :: "unit res"
  kubeFor :: "unit res"
  runOf :: run
  keySort :: requirement_sort
  paramOrder :: "(string, string) gomap \<Rightarrow> string list"
  podOrder :: "(string, cost_pod_metrics) gomap \<Rightarrow> string list"
  sourceOrder :: "manager \<Rightarrow> string list"
  itemOrder :: "(string, string) gomap \<Rightarrow> string list"
  clockNow :: gotime
  stampNow :: int
  promQuery :: "string \<Rightarrow> prom_result or_error"

datatype outcome =
    Exits \<comment> \<open>the process ends\<close>
  | Pends \<comment> \<open>the handler never returns\<close>
  | Drops \<comment> \<open>the handler panics and the server drops the connection\<close>
  | Replies response
  | RepliesCosts "cost_pod_metrics list option"
  | NotFound

definition of_handler :: "response res option \<Rightarrow> outcome" where
  "of_handler h = (case h of None \<Rightarrow> Pends | Some (Inl _) \<Rightarrow> Drops | Some (Inr r) \<Rightarrow> Replies r)"

text \<open>The second cost API makes its clients once its parameters are accepted.\<close>

definition cost_clients ::
  "circumstances \<Rightarrow> provider_manager \<Rightarrow> (string \<Rightarrow> string \<Rightarrow> metric_item list res, unit) cost_manager res" where
  "cost_clients q pm =
     NewCostManager (clientConfig q)
       (\<lambda>_. and_then (externalFor q) (\<lambda>_. Inr (list_metrics (keySort q) (sourceOrder q) (promQuery q) (itemOrder q) pm))) (\<lambda>_. kubeFor q)"

definition with_manager ::
  "requirement_sort \<Rightarrow> (string \<Rightarrow> string \<Rightarrow> metric_item list res, 'kube) cost_manager \<Rightarrow> run \<Rightarrow> run" where
  "with_manager srt cm r = r\<lparr>clusters := (\<lambda>i. manager_env srt cm (clusters r i))\<rparr>"

definition v2_request ::
  "circumstances \<Rightarrow> provider_manager \<Rightarrow> AllocationParams stage \<Rightarrow> (run \<Rightarrow> response res option) \<Rightarrow> outcome" where
  "v2_request q pm stage handler =
     (case stage of
        Inl early \<Rightarrow> of_handler (Some early)
      | Inr _ \<Rightarrow> (case cost_clients q pm of
          Inl _ \<Rightarrow> Exits
        | Inr cm \<Rightarrow> of_handler (handler (with_manager (keySort q) cm (runOf q)))))"

text \<open>The first cost API only logs that it has no client, and goes on with none.\<close>

definition getClient :: "circumstances \<Rightarrow> provider_manager \<Rightarrow> metrics_api" where
  "getClient q pm =
     (case and_then (clientConfig q) (\<lambda>_. externalFor q) of
        Inl _ \<Rightarrow> None
      | Inr _ \<Rightarrow> cost_api (keySort q) (sourceOrder q) (promQuery q) pm)"

text \<open>The total as the loop over the metrics leaves it, also when a later metric panics.\<close>

fun last_total ::
  "metrics_api \<Rightarrow> cost_options \<Rightarrow> string \<Rightarrow> string option \<Rightarrow> string list \<Rightarrow> int \<times> (string, cost_pod_metrics) gomap \<Rightarrow> int" where
  "last_total api co namespace sel [] st = fst st"
| "last_total api co namespace sel (m # ms) st =
     (case detail_step api co namespace sel m st of
        Inl _ \<Rightarrow> fst st
      | Inr st' \<Rightarrow> last_total api co namespace sel ms st')"

definition total_left :: "requirement_sort \<Rightarrow> metrics_api \<Rightarrow> (string \<times> string) list \<Rightarrow> int \<Rightarrow> int" where
  "total_left srt api params tot =
     (let ((namespace, lbl, podLabel), co) = buildParams params empty_options
      in if Summary co then tot
         else last_total api co namespace (buildLabelMatches srt lbl podLabel) (cost_metric_list (TimeUnit co)) (tot, Map.empty))"

text \<open>
  The four endpoints; a request is one step, although the server runs the handlers concurrently: the total is all they share.
\<close>

definition http_request :: "circumstances \<Rightarrow> string \<Rightarrow> (string, string list) gomap \<Rightarrow> program \<Rightarrow> outcome \<times> program" where
  "http_request q path query p =
     (let pm = providers (running p); pm_params = params_map query in
      if path = ''/reload'' then (Exits, p)
      else if path = ''/cost'' then
        (let api = getClient q pm; params = List.map_filter (\<lambda>k. map_option (Pair k) (pm_params k)) (paramOrder q pm_params)
         in (case Handler (keySort q) api (podOrder q) (stampNow q) params (CostTotal p) of Inl _ \<Rightarrow> Drops | Inr (ms, _) \<Rightarrow> RepliesCosts ms,
             p\<lparr>CostTotal := total_left (keySort q) api params (CostTotal p)\<rparr>))
      else if path = ''/v2/cost'' then
        (v2_request q pm (cost_params (clockNow q) pm_params) (\<lambda>r. ComputeEstimatedCostHandler r (clockNow q) query), p)
      else if path = ''/v2/allocation'' then
        (v2_request q pm (allocation_params (clockNow q) pm_params) (\<lambda>r. ComputeAllocationHandler r (clockNow q) query), p)
      else (NotFound, p))"

section \<open>The running process\<close>

text \<open>
  What happens after the start, in the order in which it ends: a listing of the external or of the custom provider, with the answers
  of Prometheus to its queries, and a request. A listing is any run of the concurrent lister.
\<close>

datatype event =
    ExternalListing "string \<Rightarrow> string + series list option"
  | CustomListing "string \<Rightarrow> string + series list option"
  | HttpRequest circumstances string "(string, string list) gomap"

inductive adapter ::
  "((string, series_info) gomap \<Rightarrow> string list) \<Rightarrow> ((custom_info, series_info) gomap \<Rightarrow> custom_info list) \<Rightarrow> metric_namer list \<Rightarrow>
   program \<Rightarrow> event list \<Rightarrow> program \<Rightarrow> bool" for ekeys ckeys namers p where
  up: "adapter ekeys ckeys namers p [] p"
| external: "adapter ekeys ckeys namers p es p' \<Longrightarrow> fan_reach ans q namers fan \<Longrightarrow> phase fan = Returned r \<Longrightarrow>
    updateMetrics r (externalLister (running p'), prometheusExternal (providers (running p'))) = Inr (e, lister, registry) \<Longrightarrow>
    adapter ekeys ckeys namers p (es @ [ExternalListing ans])
      (p'\<lparr>running := (running p')\<lparr>externalLister := lister, providers := (providers (running p'))\<lparr>prometheusExternal := registry\<rparr>\<rparr>\<rparr>)"
| custom: "adapter ekeys ckeys namers p es p' \<Longrightarrow>
    updateMetrics_custom ckeys ans q namers (prometheusCustom (providers (running p'))) (e', registry') \<Longrightarrow>
    adapter ekeys ckeys namers p (es @ [CustomListing ans])
      (p'\<lparr>running := (running p')\<lparr>providers := (providers (running p'))\<lparr>prometheusCustom := registry'\<rparr>\<rparr>\<rparr>)"
| request: "adapter ekeys ckeys namers p es p' \<Longrightarrow> http_request q' path query p' = (out, p'') \<Longrightarrow> out \<noteq> Exits \<Longrightarrow>
    adapter ekeys ckeys namers p (es @ [HttpRequest q' path query]) p''"

lemma http_request_running: "running (snd (http_request q path query p)) = running p"
  by (simp add: http_request_def Let_def)

text \<open>The total that an answered request reports is the one it leaves.\<close>

lemma each_last_total:
  "each (detail_step api co namespace sel) ms st = Inr st' \<Longrightarrow> last_total api co namespace sel ms st = fst st'"
  by (induction ms arbitrary: st) (auto simp: and_then_eq_Inr)

lemma Handler_total: "Handler srt api order now params tot = Inr (ms, tot') \<Longrightarrow> total_left srt api params tot = tot'"
  by (auto simp: Handler_def getCostMetrics_def total_left_def DescribePodCostDetail_def and_then_eq_Inr Let_def
      dest: each_last_total split: if_splits prod.splits)

lemma fan_returns: "fan_reach ans q namers fan \<Longrightarrow> phase fan = Returned r \<Longrightarrow> lists ans q namers r"
  by (auto dest!: fan_reach_data simp: fan_data_def)

text \<open>Without the requests, the process is the manager of providers that serves.\<close>

lemma adapter_serves: "adapter ekeys ckeys namers p es p' \<Longrightarrow> serves ekeys ckeys namers (running p) (running p')"
proof (induction rule: adapter.induct)
  case (external es p' ans q fan r e lister registry)
  from fan_returns [OF external(2,3)] have "basic_returns namers r" by (auto simp: basic_returns_def)
  with external show ?case by (auto intro: serves.external_listing)
next
  case (custom es p' ans q e' registry')
  then show ?case by (auto intro: serves.custom_listing)
next
  case (request es p' q' path query out p'')
  then show ?case using http_request_running [of q' path query p'] by simp
qed (rule serves.started)

section \<open>What the registries should hold\<close>

text \<open>The answers that the listings of a provider were given, and the registry of the latest listing in which all queries were answered.\<close>

definition external_answers :: "event list \<Rightarrow> (string \<Rightarrow> string + series list option) list" where
  "external_answers es = List.map_filter (\<lambda>e. case e of ExternalListing a \<Rightarrow> Some a | _ \<Rightarrow> None) es"

definition custom_answers :: "event list \<Rightarrow> (string \<Rightarrow> string + series list option) list" where
  "custom_answers es = List.map_filter (\<lambda>e. case e of CustomListing a \<Rightarrow> Some a | _ \<Rightarrow> None) es"

definition expected_external ::
  "((string, series_info) gomap \<Rightarrow> string list) \<Rightarrow> metric_namer list \<Rightarrow> (string \<Rightarrow> string + series list option) list \<Rightarrow> external_registry" where
  "expected_external ekeys namers answers =
     (case current namers answers of
        None \<Rightarrow> \<lparr>metrics = [], metricsInfo = Map.empty\<rparr>
      | Some ans \<Rightarrow> (let m = map_of (rev (named_series ans namers)) in \<lparr>metrics = ekeys m, metricsInfo = m\<rparr>))"

definition expected_custom ::
  "((custom_info, series_info) gomap \<Rightarrow> custom_info list) \<Rightarrow> metric_namer list \<Rightarrow> (string \<Rightarrow> string + series list option) list \<Rightarrow>
   custom_registry" where
  "expected_custom ckeys namers answers =
     (case current namers answers of
        None \<Rightarrow> \<lparr>info = Map.empty, customMetrics = []\<rparr>
      | Some ans \<Rightarrow> (let m = map_of (rev (custom_series ans namers)) in \<lparr>info = m, customMetrics = ckeys m\<rparr>))"

lemma answers_snoc:
  "external_answers (es @ [e]) = external_answers es @ (case e of ExternalListing a \<Rightarrow> [a] | _ \<Rightarrow> [])"
  "custom_answers (es @ [e]) = custom_answers es @ (case e of CustomListing a \<Rightarrow> [a] | _ \<Rightarrow> [])"
  by (simp_all add: external_answers_def custom_answers_def map_filter_def split: event.split)

lemma current_snoc: "current namers (as @ [a]) = (if all_answer namers a then Some a else current namers as)"
  by (simp add: current_def)

definition listed_last :: "metric_namer list \<Rightarrow> (string \<Rightarrow> string + series list option) list \<Rightarrow> update_result option" where
  "listed_last namers answers = map_option (\<lambda>ans. list_series ans namers) (current namers answers)"

lemma holds_expected: "snd (holds ekeys (listed_last namers answers)) = expected_external ekeys namers answers"
  by (simp add: holds_def listed_last_def expected_external_def NewExternalSeriesRegistry_def list_series_def raw_metrics_collect
      named_series_def Let_def split: option.split)

text \<open>One listing of the external provider.\<close>

lemma listing_holds:
  assumes "fan_reach ans q namers fan" "phase fan = Returned r"
    and "updateMetrics r (holds ekeys (listed_last namers answers)) = Inr (e, lister, registry)"
  shows "(lister, registry) = holds ekeys (listed_last namers (answers @ [ans]))"
proof -
  have l: "lists ans q namers r" using assms(1,2) by (rule fan_returns)
  then have "basic_returns namers r" by (auto simp: basic_returns_def)
  from basic_lister.update_holds [OF this, of ekeys "listed_last namers answers"] assms(3)
  have h: "(lister, registry) = holds ekeys (case r of Inl _ \<Rightarrow> listed_last namers answers | Inr v \<Rightarrow> Some v)" by auto
  show ?thesis
  proof (cases r)
    case (Inl m)
    with h lists_isl [OF l] show ?thesis by (simp add: listed_last_def current_snoc)
  next
    case (Inr u)
    with l have "u = list_series ans namers" by (simp add: lists_def)
    with h Inr lists_isl [OF l] show ?thesis by (simp add: listed_last_def current_snoc)
  qed
qed

text \<open>One listing of the custom provider.\<close>

lemma custom_holds:
  "updateMetrics_custom ckeys ans q namers (expected_custom ckeys namers answers) (e, registry) \<Longrightarrow>
   registry = expected_custom ckeys namers (answers @ [ans])"
  using custom_update [of ckeys ans q namers "expected_custom ckeys namers answers" "(e, registry)"]
  by (auto simp: expected_custom_def current_snoc Let_def split: if_splits)

lemma adapter_registries:
  assumes "(externalLister (running p), prometheusExternal (providers (running p))) = holds ekeys None"
    and "prometheusCustom (providers (running p)) = NewPrometheusProvider" "adapter ekeys ckeys namers p es p'"
  shows "(externalLister (running p'), prometheusExternal (providers (running p'))) = holds ekeys (listed_last namers (external_answers es)) \<and>
    prometheusCustom (providers (running p')) = expected_custom ckeys namers (custom_answers es)"
  using assms(3)
proof (induction rule: adapter.induct)
  case up
  show ?case using assms(1,2)
    by (simp add: external_answers_def custom_answers_def map_filter_def listed_last_def current_def expected_custom_def NewPrometheusProvider_def)
next
  case (external es p' ans q fan r e lister registry)
  with listing_holds [OF external(2,3)] show ?case by (simp add: answers_snoc)
next
  case (custom es p' ans q e' registry')
  with custom_holds [where ckeys = ckeys and namers = namers and registry = registry'] show ?case by (auto simp: answers_snoc)
next
  case (request es p' q' path query out p'')
  then show ?case using http_request_running [of q' path query p'] by (simp add: answers_snoc)
qed

section \<open>Properties\<close>

text \<open>
  C1. What the process keeps, whatever listings and requests follow the start and in whatever order: the six sources of the cloud stay
  registered as they were, with the options of the flags; and each of the two registries holds exactly the named series of the latest of its
  own listings in which Prometheus answered every query, the last series winning a name, and nothing before there is one. A failed
  listing, a listing of the other provider and a request, also one whose handler panics, change neither.
\<close>

theorem program_invariant:
  assumes "main ekeys parse_flags cfg s w = Inr (namers, conn, p)" "adapter ekeys ckeys namers p es p'"
  shows "(\<exists>opts. parse_flags (AddFlags (NewAlibabaMetricsAdapterOptions cfg)) = Inr opts \<and>
      MakePromClient (hostLibraries w) opts = Inr conn \<and>
      alibabaCloudProvider (providers (running p')) = externalMetricsManager (w\<lparr>GlobalConfig := opts\<rparr>)) \<and>
    prometheusExternal (providers (running p')) = expected_external ekeys namers (external_answers es) \<and>
    prometheusCustom (providers (running p')) = expected_custom ckeys namers (custom_answers es)"
proof -
  obtain opts st where opts: "parse_flags (AddFlags (NewAlibabaMetricsAdapterOptions cfg)) = Inr opts"
    and st: "NewProviderManager ekeys s (w\<lparr>GlobalConfig := opts\<rparr>) = Inr (namers, conn, st)"
    and p: "p = \<lparr>running = st, CostTotal = 0\<rparr>"
    using assms(1) by (auto simp: main_def and_then_eq_Inr)
  have conn: "MakePromClient (hostLibraries w) opts = Inr conn" using st by (rule NewProviderManager_Inr) simp
  have "alibabaCloudProvider (providers st) = externalMetricsManager (w\<lparr>GlobalConfig := opts\<rparr>)"
    using st by (rule NewProviderManager_Inr)
  moreover have "prometheusCustom (providers st) = NewPrometheusProvider" using st by (rule NewProviderManager_Inr)
  moreover have "(externalLister st, prometheusExternal (providers st)) = holds ekeys None" using st by (rule NewProviderManager_Inr)
  ultimately have started: "alibabaCloudProvider (providers (running p)) = externalMetricsManager (w\<lparr>GlobalConfig := opts\<rparr>)"
    "prometheusCustom (providers (running p)) = NewPrometheusProvider"
    "(externalLister (running p), prometheusExternal (providers (running p))) = holds ekeys None"
    by (simp_all add: p)
  with serves_manager [OF adapter_serves [OF assms(2)]] adapter_registries [OF started(3,2) assms(2)]
  have "alibabaCloudProvider (providers (running p')) = externalMetricsManager (w\<lparr>GlobalConfig := opts\<rparr>)"
    and h: "(externalLister (running p'), prometheusExternal (providers (running p'))) = holds ekeys (listed_last namers (external_answers es))"
    and "prometheusCustom (providers (running p')) = expected_custom ckeys namers (custom_answers es)"
    by simp_all
  moreover from h have "prometheusExternal (providers (running p')) = expected_external ekeys namers (external_answers es)"
    by (metis holds_expected snd_conv)
  ultimately show ?thesis using opts conn by blast
qed

definition demo_circumstances :: circumstances where
  "demo_circumstances =
     \<lparr>clientConfig = Inr (), externalFor = Inr (), kubeFor = Inl (Err ''none''), runOf = quiet_run,
      keySort = new_selector, paramOrder = (\<lambda>_. []),
      podOrder = (\<lambda>_. []), sourceOrder = (\<lambda>_. all_names), itemOrder = (\<lambda>_. []), clockNow = leap_noon, stampNow = 0,
      promQuery = (\<lambda>_. Inl ''none'')\<rparr>"

theorem program_invariant_witness:
  "\<exists>conn p p'. main (\<lambda>m. if m = Map.empty then [] else [''up'']) (\<lambda>_. Inr demo_options) () demo_startup demo_surroundings =
       Inr ([demo_namer ''a''], conn, p) \<and>
     adapter (\<lambda>m. if m = Map.empty then [] else [''up'']) (\<lambda>_. []) [demo_namer ''a''] p
       [ExternalListing (\<lambda>_. Inr (Some [demo_series ''up''])), HttpRequest demo_circumstances ''/cost'' Map.empty] p' \<and>
     ListAllExternalMetrics_prometheus (prometheusExternal (providers (running p'))) = [''up'']"
proof -
  let ?ekeys = "\<lambda>m :: (string, series_info) gomap. if m = Map.empty then [] else [''up'']" and ?ns = "[demo_namer ''a'']"
  let ?ans = "\<lambda>_ :: string. Inr (Some [demo_series ''up'']) :: string + series list option"
  obtain conn st where st: "NewProviderManager ?ekeys demo_startup demo_surroundings = Inr (?ns, conn, st)"
    using demo_start by blast
  have w: "demo_surroundings\<lparr>GlobalConfig := demo_options\<rparr> = demo_surroundings" by (simp add: demo_surroundings_def)
  define p where "p = \<lparr>running = st, CostTotal = 0\<rparr>"
  have main: "main ?ekeys (\<lambda>_. Inr demo_options) () demo_startup demo_surroundings = Inr (?ns, conn, p)"
    by (simp add: main_def w st p_def fatal_def)
  obtain fan r where fan: "fan_reach ?ans (\<lambda>s. s) ?ns fan" "phase fan = Returned r"
    using fan_run_ends [OF fan_reach.initial] fan_run_reach fan_reach.initial unfolding returned_def by metis
  have r: "basic_returns ?ns r" using fan_returns [OF fan] by (auto simp: basic_returns_def)
  have "(externalLister st, prometheusExternal (providers st)) = holds ?ekeys None" using st by (rule NewProviderManager_Inr)
  moreover obtain lister registry where "holds ?ekeys (case r of Inl _ \<Rightarrow> None | Inr v \<Rightarrow> Some v) = (lister, registry)"
    by (rule prod.exhaust)
  ultimately obtain e
    where "updateMetrics r (externalLister (running p), prometheusExternal (providers (running p))) = Inr (e, lister, registry)"
    using basic_lister.update_holds [OF r, of ?ekeys None] by (auto simp: p_def)
  from adapter.external [OF adapter.up fan this, where ckeys = "\<lambda>_. []"] obtain p1
    where p1: "adapter ?ekeys (\<lambda>_. []) ?ns p [ExternalListing ?ans] p1" by auto
  obtain out p2 where q: "http_request demo_circumstances ''/cost'' Map.empty p1 = (out, p2)" by fastforce
  have "out \<noteq> Exits" using q by (auto simp: http_request_def Let_def split: sum.splits)
  with adapter.request [OF p1 q] have p2: "adapter ?ekeys (\<lambda>_. []) ?ns p [ExternalListing ?ans, HttpRequest demo_circumstances ''/cost'' Map.empty] p2"
    by simp
  have "map_of (rev (named_series ?ans ?ns)) \<noteq> Map.empty"
    by (simp add: named_series_def found_series_def demo_namer_def named_def demo_series_def)
  moreover have "all_answer ?ns ?ans" by (simp add: all_answer_def demo_namer_def)
  ultimately have "expected_external ?ekeys ?ns (external_answers [ExternalListing ?ans, HttpRequest demo_circumstances ''/cost'' Map.empty]) =
      \<lparr>metrics = [''up''], metricsInfo = map_of (rev (named_series ?ans ?ns))\<rparr>"
    by (simp add: expected_external_def external_answers_def map_filter_def current_def)
  with program_invariant [OF main p2]
  have "ListAllExternalMetrics_prometheus (prometheusExternal (providers (running p2))) = [''up'']"
    by (simp add: ListAllExternalMetrics_prometheus_def ListAllMetrics_external_def)
  with main p2 show ?thesis by blast
qed

text \<open>
  C12. How an HTTP request can end. Only \<open>/reload\<close> ends the process, and a request of the second cost API with good parameters when no
  client can be made; only \<open>/v2/cost\<close> with a step that is not positive can go on forever, so every request for
  allocations ends; an unknown path is refused. No request changes the registrations or the registry.
\<close>

theorem http_outcomes:
  "running (snd (http_request q path query p)) = running p \<and>
   (case fst (http_request q path query p) of
      Exits \<Rightarrow> path = ''/reload'' \<or>
        isl (cost_clients q (providers (running p))) \<and>
          (path = ''/v2/cost'' \<and> \<not> isl (cost_params (clockNow q) (params_map query)) \<or>
           path = ''/v2/allocation'' \<and> \<not> isl (allocation_params (clockNow q) (params_map query)))
    | Pends \<Rightarrow> path = ''/v2/cost'' \<and>
        (case cost_params (clockNow q) (params_map query) of Inl _ \<Rightarrow> False | Inr params \<Rightarrow> step params \<le> 0)
    | NotFound \<Rightarrow> path \<notin> {''/reload'', ''/cost'', ''/v2/cost'', ''/v2/allocation''}
    | RepliesCosts _ \<Rightarrow> path = ''/cost''
    | Replies _ \<Rightarrow> path = ''/v2/cost'' \<or> path = ''/v2/allocation''
    | Drops \<Rightarrow> path \<in> {''/cost'', ''/v2/cost'', ''/v2/allocation''})"
proof -
  have alloc: "of_handler (ComputeAllocationHandler r now query) \<noteq> Pends" for r now
    using ComputeAllocationHandler_answers [of r now query] by (auto simp: of_handler_def split: sum.splits)
  have cost: "step params \<le> 0"
    if "cost_params now (params_map query) = Inr params" "of_handler (ComputeEstimatedCostHandler r now query) = Pends" for r now params
  proof (rule ccontr)
    assume "\<not> step params \<le> 0"
    then obtain ra where "GetRangeAllocation (show_window r) (clusters r) (agg_orders r) params = Some ra"
      using range_returns by force
    then have "\<exists>a. ComputeEstimatedCostHandler r now query = Some a"
      by (simp add: ComputeEstimatedCostHandler_def serve_def that(1))
    with that(2) show False by (auto simp: of_handler_def split: sum.splits)
  qed
  have h: "of_handler x \<noteq> Exits" "of_handler x \<noteq> NotFound" "of_handler x \<noteq> RepliesCosts ms" "of_handler (Some y) \<noteq> Pends" for x y ms
    by (auto simp: of_handler_def split: option.split sum.split)
  show ?thesis
    using alloc cost h
    by (auto simp: http_request_running http_request_def v2_request_def Let_def split: outcome.split sum.split if_splits)
qed

end
