(* ===== verification/Spec2Isabelle.thy ===== *)
theory Spec2Isabelle
  imports Window_JSON Adapter_Program
begin

text \<open>
  The metrics adapter of Alibaba Cloud for Kubernetes serves external and custom metrics to the API server, and cost
  allocations over HTTP. A request for an external metric reaches the manager of providers, which routes it to one of six
  metric sources or to the Prometheus provider; a request for a custom metric goes to the Prometheus provider; the HTTP handlers
  for costs ask the API server for external metrics of the cost sources and add them up.

  \<^bold>\<open>Theories and files\<close> (under \<open>pkg/\<close>; each theory opens with what it holds)

  \<^item> \<open>Prelude\<close>: results, panics, 64-bit integers, maps with an order of iteration, and a locale for loops whose body commutes.
  \<^item> \<open>Float64\<close>, \<open>Go_Strings\<close>, \<open>Go_Time\<close>, \<open>Go_Time_Format\<close>, \<open>Go_JSON\<close>: what the program uses of the standard library: binary64,
    string functions, times with a zone, layouts, JSON. \<open>Label_Selector\<close>, \<open>Label_Parser\<close>: the vendored \<open>k8s.io/apimachinery/pkg/labels\<close>.
  \<^item> \<open>Time_Util\<close>: \<open>metrics/costv2/util/timeutil.go\<close>. \<open>Window_Model\<close>, \<open>Filter_Model\<close>, \<open>Allocation_Model\<close>: \<open>metrics/costv2/types/\<close>;
    \<open>Window_JSON\<close>: the JSON reader of a window.
  \<^item> \<open>Cost_Metrics\<close>: \<open>metrics/costv2/cost_metrics.go\<close>, the source of cost metrics; also the contract \<open>metric_source\<close>.
  \<^item> \<open>Cost_Manager\<close>, \<open>Pod_Properties\<close>, \<open>Cost_Handlers\<close>: \<open>metrics/costv2/cost_manager.go\<close>: the computation over a window and over a range, what
    the pod map holds, and the two handlers with their JSON and CSV answers.
  \<^item> \<open>Metric_Fanout\<close>: the concurrent listing of \<open>basic_metric_lister.go\<close>. \<open>External_Provider\<close>: the rest of
    \<open>provider/prometheusProvider/external-provider/\<close>. \<open>Custom_Provider\<close>: \<open>custom-provider/\<close>.
  \<^item> \<open>Source_Params\<close>: what the sources of cloud services share. \<open>SLB_Source\<close>, \<open>CMS_Source\<close>, \<open>AHAS_Source\<close>, \<open>SLS_Source\<close>: \<open>metrics/slb\<close>, \<open>cms\<close>,
    \<open>ahas\<close>, \<open>sls\<close>. \<open>Legacy_Cost\<close>, \<open>Legacy_Cost_Http\<close>: \<open>metrics/cost/cost.go\<close> and \<open>cost_http.go\<close>.
  \<^item> \<open>Access_Info\<close>: \<open>utils/client.go\<close>, \<open>region.go\<close>. \<open>Prom_Client_Options\<close>: \<open>prometheus.go\<close>, \<open>utils/metrics.go\<close>, \<open>types.go\<close>.
  \<^item> \<open>Metrics_Manager\<close>: \<open>metrics/manager.go\<close>, \<open>provider/alibabaCloudProvider/\<close>, \<open>provider/providerManager.go\<close>: registration, routing, the start, and
    the running program as a relation in which the listers finish listings in any order.
  \<^item> \<open>Metrics_API\<close>: the vendored client and storage of the external metrics API, between the HTTP handlers and the manager of providers.
    \<open>Cost_Loop\<close>, \<open>Legacy_Cost_Loop\<close>: the two cost APIs with the adapter itself behind that API, from the selector to the query of Prometheus.
  \<^item> \<open>Adapter_Program\<close>: \<open>main.go\<close>: the start, the four endpoints of the HTTP server, and the process as a relation that records the listings and
    requests that followed one another. A request is one step of it: handlers run concurrently, but share only \<open>CostTotal\<close>, which the code does not lock.

  \<^bold>\<open>State and operations.\<close> A struct is a record, a Go map a partial function; a loop over a map takes the order of the run as an
  argument, and a lemma says when the order does not matter. A function that can fail returns an error or a value; a panic
  is an error that no caller can test for, and \<open>klog.Fatal\<close> is read as one. An integer is an \<open>int\<close> whose arithmetic passes through
  \<open>wrap64\<close>; a \<open>float64\<close> is a rational rounded to binary64, with NaN, infinities and a negative zero; a conversion to \<open>int64\<close> out of
  range, which the language leaves to the implementation, gives the least \<open>int64\<close>, as on amd64 (arm64, for which the image is
  built too, gives the nearest bound). A time is nanoseconds and a zone, a function from instants to
  offsets; a call reads the clock once. Strings are lists of bytes; case mapping is that of ASCII. The package variable \<open>CostTotal\<close>
  of the first cost handler is part of the state of the process. A quantity is a number of thousandths. The channels of the concurrent listing are bounded queues and
  its goroutines workers of an interleaving step relation; sections under a lock are single steps.

  \<^bold>\<open>Parameters.\<close> Clients of services (SLB, CMS, AHAS, SLS, the metadata server, Prometheus, Kubernetes), the namers and the REST mapper,
  the AES block cipher, \<open>sort.Sort\<close> on the requirements of a parsed selector, certificate and kubeconfig loaders, time layouts other than those
  of the program, the printed form of a window. The cost manager takes the external metrics API and the selector parser as arguments
  too, so that its lemmas hold for every answer; \<open>Cost_Loop\<close> gives it the adapter's own. Only documented behaviour is assumed of them: a failed call returns no value, a client of
  Kubernetes returns empty objects, block decryption undoes block encryption, a sort by key returns the same requirements in the order of their keys (requirements with
  equal keys in any order). The selectors that the cost manager builds have distinct keys, so that every sort gives the same.

  \<^bold>\<open>What is shown.\<close> The concurrent listing never blocks and refines a sequential one; the two registries follow the latest complete
  listing, whatever else the process does. Registrations do not hide each other, every request is routed to its source or to Prometheus, a listed metric is answered by
  its source or with the query for its series, and the values of an answer carry the name asked for, workload metrics excepted. Window, duration and filter texts are parsed as documented or as the findings say; windows survive printing and parsing, selectors
  up to the order of equal keys; window, filter and resolution of a computation reach the query that Prometheus is asked, and its samples
  come back; what a request of the first cost API comes to, when it panics, and that its ratios are to its own total; steps tile a range; the costs of pods and the idle cost add up to the cost of the nodes up to rounding, and
  aggregation keeps the sum; a request for allocations is always answered, one for costs may hang on a step of zero, and nothing but
  \<open>/reload\<close> and a failure to make clients ends the process. Each source
  reads its parameters from the last requirement on a key, asks for the right period and returns the last point; credentials
  come from the environment, the encrypted file or the server.

  \<^bold>\<open>Interfaces.\<close> \<open>commuting_body\<close> (loops over maps), \<open>metric_lister\<close> (lister and registry) and \<open>metric_source\<close> (the six sources) are
  locales, interpreted on the definitions of the program in the theories that provide them.

  \<^bold>\<open>Bounds.\<close> The JSON scanner has fuel \<open>2 * length + 2\<close>, enough for every text since each call consumes a byte or opens a value, and the depth
  limit of 10000 of the library. The retry loop of the log service is bounded by the number of tries. The loop over the steps of a range may not end: it is a
  partial function into an option, its termination for positive steps and divergence for others are theorems. All other recursion is structural
  or has a measure.

  \<^bold>\<open>Not modelled.\<close> Logging, the API server that \<open>main.go\<close> runs (\<open>opts.Run\<close>), races on \<open>CostTotal\<close>, metrics of the process, the constructors that only store clients, \<open>getCurrentK8sNamespace\<close> (never
  called), the transport between client and API server. Texts of JSON, time-parsing and label-validity errors are shortened.
\<close>

end
